theory Spec2Isabelle
  imports Main
begin

section \<open>replize: a command line program turned into a read-eval-print loop\<close>

text \<open>
  The development embeds \<^verbatim>\<open>src/replize/replize.py\<close>: the built-in command
  dispatcher \<^verbatim>\<open>_handle_builtin_command\<close>, the loop \<^verbatim>\<open>_run_repl_loop\<close> and the
  entry point \<^verbatim>\<open>replize\<close>. Strings are lists of 8-bit characters, read as the code
  points 0 to 255; a byte string has the same type. Everything the loop does to the outside
  world (a message, a log line, a hook call, a call of \<^verbatim>\<open>Popen\<close>, a kill) is recorded
  as an event in a trace that is part of the session state, in the order in which the source
  performs it. A message printed through the rich console and a write to the log file can
  raise; the exception then takes the way that the \<^verbatim>\<open>try\<close> statements of the source
  give it.
\<close>

subsection \<open>Python's string operations\<close>

type_synonym bytes = string

text \<open>\<^verbatim>\<open>str.isspace\<close> on the code points below 256.\<close>

definition py_isspace :: "char \<Rightarrow> bool" where
  "py_isspace c = (c \<in> set [CHR 0x09, CHR 0x0A, CHR 0x0B, CHR 0x0C, CHR 0x0D,
     CHR 0x1C, CHR 0x1D, CHR 0x1E, CHR 0x1F, CHR 0x20, CHR 0x85, CHR 0xA0])"

text \<open>\<^verbatim>\<open>s.strip()\<close>: whitespace removed at both ends.\<close>

definition py_strip :: "string \<Rightarrow> string" where
  "py_strip s = rev (dropWhile py_isspace (rev (dropWhile py_isspace s)))"

text \<open>
  \<^verbatim>\<open>s.split()\<close>: the maximal runs of characters that are not whitespace. The first
  argument of the auxiliary function is the word read so far.
\<close>

fun py_split_from :: "string \<Rightarrow> string \<Rightarrow> string list" where
  "py_split_from w [] = (if w = [] then [] else [w])"
| "py_split_from w (c # cs) =
     (if py_isspace c then (if w = [] then py_split_from [] cs else w # py_split_from [] cs)
      else py_split_from (w @ [c]) cs)"

definition py_split :: "string \<Rightarrow> string list" where
  "py_split s = py_split_from [] s"

text \<open>\<^verbatim>\<open>s.startswith('!')\<close>.\<close>

definition startswith_bang :: "string \<Rightarrow> bool" where
  "startswith_bang s = (case s of [] \<Rightarrow> False | c # _ \<Rightarrow> c = CHR ''!'')"

text \<open>
  \<^verbatim>\<open>int(s)\<close> in base 10, with \<open>None\<close> for \<^verbatim>\<open>ValueError\<close>: whitespace is removed
  at both ends (the characters 9 to 13, 32, 133 and 160: the separators 28 to 31, which
  \<^verbatim>\<open>strip\<close> removes, are not accepted here), then an optional sign, then decimal
  digits, where one underscore may stand between two digits. CPython also refuses a string
  with more digits than \<^verbatim>\<open>sys.get_int_max_str_digits()\<close>: the limit is 4300 unless it
  has been changed, 0 switches it off, and it is only looked at for more than 640 digits.
  The sign, the whitespace and the underscores do not count; leading zeros do.
\<close>

definition int_isspace :: "char \<Rightarrow> bool" where
  "int_isspace c = (c \<in> set [CHR 0x09, CHR 0x0A, CHR 0x0B, CHR 0x0C, CHR 0x0D,
     CHR 0x20, CHR 0x85, CHR 0xA0])"

definition is_digit :: "char \<Rightarrow> bool" where
  "is_digit c = (c \<in> set ''0123456789'')"

definition digit_val :: "char \<Rightarrow> nat" where
  "digit_val c = of_char c - 48"

fun more_digits :: "nat \<Rightarrow> string \<Rightarrow> nat option" where
  "more_digits acc [] = Some acc"
| "more_digits acc [c] = (if is_digit c then Some (10 * acc + digit_val c) else None)"
| "more_digits acc (c # d # cs) =
     (if is_digit c then more_digits (10 * acc + digit_val c) (d # cs)
      else if c = CHR ''_'' \<and> is_digit d then more_digits (10 * acc + digit_val d) cs
      else None)"

definition decimal :: "string \<Rightarrow> nat option" where
  "decimal s = (case s of [] \<Rightarrow> None
     | c # cs \<Rightarrow> if is_digit c then more_digits (digit_val c) cs else None)"

definition exceeds_digit_limit :: "nat \<Rightarrow> string \<Rightarrow> bool" where
  "exceeds_digit_limit max_str_digits s =
     (640 < length (filter is_digit s) \<and> 0 < max_str_digits \<and>
      max_str_digits < length (filter is_digit s))"

definition limited_decimal :: "nat \<Rightarrow> string \<Rightarrow> nat option" where
  "limited_decimal max_str_digits s =
     (if exceeds_digit_limit max_str_digits s then None else decimal s)"

definition py_int :: "nat \<Rightarrow> string \<Rightarrow> int option" where
  "py_int max_str_digits s =
     (case rev (dropWhile int_isspace (rev (dropWhile int_isspace s))) of
        [] \<Rightarrow> None
      | c # cs \<Rightarrow>
          if c = CHR ''+'' then map_option int (limited_decimal max_str_digits cs)
          else if c = CHR ''-'' then map_option (\<lambda>n. - int n) (limited_decimal max_str_digits cs)
          else map_option int (limited_decimal max_str_digits (c # cs)))"

subsection \<open>Exceptions\<close>

text \<open>
  The exceptions the loop can meet. \<^verbatim>\<open>subprocess.TimeoutExpired\<close> derives from
  \<^verbatim>\<open>SubprocessError\<close> and so from \<^verbatim>\<open>Exception\<close>; it is not a
  \<^verbatim>\<open>TimeoutError\<close>, which is the built-in subclass of \<^verbatim>\<open>OSError\<close>.
  \<^verbatim>\<open>rich.errors.MarkupError\<close> derives from \<^verbatim>\<open>Exception\<close>.
  \<^verbatim>\<open>KeyboardInterrupt\<close> and \<^verbatim>\<open>SystemExit\<close> derive from
  \<^verbatim>\<open>BaseException\<close> only. \<open>CustomException\<close> stands for a user-defined subclass of
  \<^verbatim>\<open>Exception\<close>, \<open>CustomBaseException\<close> for one of \<^verbatim>\<open>BaseException\<close>; each
  carries its message.
\<close>

datatype exn =
    EOFError
  | KeyboardInterrupt
  | SystemExit
  | ValueError string
  | UnicodeDecodeError
  | KeyError
  | IndexError
  | FileNotFoundError
  | PermissionError
  | TimeoutError
  | TimeoutExpired
  | OSError
  | MarkupError
  | CustomException string
  | CustomBaseException string

text \<open>\<^verbatim>\<open>except Exception\<close>, \<^verbatim>\<open>except FileNotFoundError\<close>, \<^verbatim>\<open>except TimeoutError\<close>.\<close>

fun is_Exception :: "exn \<Rightarrow> bool" where
  "is_Exception KeyboardInterrupt = False"
| "is_Exception SystemExit = False"
| "is_Exception (CustomBaseException _) = False"
| "is_Exception _ = True"

definition is_FileNotFoundError :: "exn \<Rightarrow> bool" where
  "is_FileNotFoundError e = (e = FileNotFoundError)"

definition is_TimeoutError :: "exn \<Rightarrow> bool" where
  "is_TimeoutError e = (e = TimeoutError)"

subsection \<open>\<^verbatim>\<open>shlex.split\<close>\<close>

text \<open>
  \<^verbatim>\<open>shlex.split(s)\<close> runs the lexer in POSIX mode with \<^verbatim>\<open>whitespace_split\<close>
  set and no comment characters. The function below is \<^verbatim>\<open>read_token\<close> called until
  the end of the input: its state is the lexer's \<^verbatim>\<open>state\<close> (\<open>InSpace\<close> for
  \<^verbatim>\<open>' '\<close>, \<open>InWord\<close> for \<^verbatim>\<open>'a'\<close>, \<open>InQuote q\<close> for an open quote \<open>q\<close>,
  \<open>InEscape es\<close> after a backslash, where \<open>es\<close> is \<^verbatim>\<open>escapedstate\<close>), the token read
  so far and the flag \<^verbatim>\<open>quoted\<close>. A token is emitted when it is not empty or was quoted.
\<close>

datatype lex_state = InSpace | InWord | InQuote char | InEscape lex_state

definition shlex_whitespace :: "char \<Rightarrow> bool" where
  "shlex_whitespace c = (c \<in> set [CHR '' '', CHR 0x09, CHR 0x0D, CHR 0x0A])"

definition shlex_quote :: "char \<Rightarrow> bool" where
  "shlex_quote c = (c = CHR 0x27 \<or> c = CHR 0x22)"

definition shlex_escape :: "char \<Rightarrow> bool" where
  "shlex_escape c = (c = CHR 0x5C)"

definition emit_token :: "string \<Rightarrow> bool \<Rightarrow> exn + string list \<Rightarrow> exn + string list" where
  "emit_token tok quoted r =
     (if tok \<noteq> [] \<or> quoted then (case r of Inl e \<Rightarrow> Inl e | Inr ts \<Rightarrow> Inr (tok # ts)) else r)"

fun read_tokens :: "lex_state \<Rightarrow> string \<Rightarrow> bool \<Rightarrow> string \<Rightarrow> exn + string list" where
  "read_tokens InSpace tok quoted [] = emit_token tok quoted (Inr [])"
| "read_tokens InWord tok quoted [] = emit_token tok quoted (Inr [])"
| "read_tokens (InQuote q) tok quoted [] = Inl (ValueError ''No closing quotation'')"
| "read_tokens (InEscape es) tok quoted [] = Inl (ValueError ''No escaped character'')"
| "read_tokens InSpace tok quoted (c # cs) =
     (if shlex_whitespace c then
        (if tok \<noteq> [] \<or> quoted then emit_token tok quoted (read_tokens InSpace [] False cs)
         else read_tokens InSpace tok quoted cs)
      else if shlex_escape c then read_tokens (InEscape InWord) tok quoted cs
      else if shlex_quote c then read_tokens (InQuote c) tok quoted cs
      else read_tokens InWord [c] quoted cs)"
| "read_tokens InWord tok quoted (c # cs) =
     (if shlex_whitespace c then
        (if tok \<noteq> [] \<or> quoted then emit_token tok quoted (read_tokens InSpace [] False cs)
         else read_tokens InSpace tok quoted cs)
      else if shlex_quote c then read_tokens (InQuote c) tok quoted cs
      else if shlex_escape c then read_tokens (InEscape InWord) tok quoted cs
      else read_tokens InWord (tok @ [c]) quoted cs)"
| "read_tokens (InQuote q) tok quoted (c # cs) =
     (if c = q then read_tokens InWord tok True cs
      else if shlex_escape c \<and> q = CHR 0x22 then read_tokens (InEscape (InQuote q)) tok True cs
      else read_tokens (InQuote q) (tok @ [c]) True cs)"
| "read_tokens (InEscape es) tok quoted (c # cs) =
     (case es of
        InQuote q \<Rightarrow>
          read_tokens es ((if c \<noteq> CHR 0x5C \<and> c \<noteq> q then tok @ [CHR 0x5C] else tok) @ [c]) quoted cs
      | _ \<Rightarrow> read_tokens es (tok @ [c]) quoted cs)"

definition shlex_split :: "string \<Rightarrow> exn + string list" where
  "shlex_split s = read_tokens InSpace [] False s"

subsection \<open>Configuration, session state and the outside world\<close>

text \<open>
  \<^verbatim>\<open>ReplizeConfig\<close> holds the settings and, in the source, also the two mutable fields
  \<^verbatim>\<open>command_counter\<close> and \<^verbatim>\<open>session_history\<close>; here the settings are the record
  \<open>replize_config\<close> and the mutable fields are in \<open>session\<close>, next to the trace. The
  field \<open>console\<close> says whether \<^verbatim>\<open>config.console\<close> is a rich console
  (\<^verbatim>\<open>use_rich\<close> and rich is installed) or \<^verbatim>\<open>None\<close>. The settings that only select
  the line editor (\<^verbatim>\<open>use_prompt_toolkit\<close>, the history file, completion, highlighting)
  are left out. A hook or a callback is a function that returns \<open>None\<close> when it returns and
  \<open>Some e\<close> when it raises \<open>e\<close>. \<open>exit_exceptions\<close> is the test
  \<^verbatim>\<open>isinstance(e, config.exit_exceptions)\<close>. A timeout is a number of time units.
\<close>

type_synonym pre_hook = "string \<Rightarrow> string \<Rightarrow> exn option"

type_synonym post_hook = "string \<Rightarrow> string \<Rightarrow> int \<Rightarrow> bytes \<Rightarrow> bytes \<Rightarrow> exn option"

record replize_config =
  command :: string
  prompt_template :: string
  exit_commands :: "string list"
  exit_exceptions :: "exn \<Rightarrow> bool"
  stdout_callback :: "bytes \<Rightarrow> exn option"
  stderr_callback :: "bytes \<Rightarrow> exn option"
  console :: bool
  timeout :: "nat option"
  log_file :: "string option"
  pre_command_hooks :: "pre_hook list"
  post_command_hooks :: "post_hook list"
  verbose_exit :: bool
  show_return_code :: bool
  validate_command :: bool

text \<open>
  A child process as \<^verbatim>\<open>Popen\<close> returns it: the time it needs to finish, what it has
  written and its exit status when it finishes, what can be read from its pipes when it is
  killed before, and an exception that interrupts the wait for another reason, if any.
\<close>

record process =
  runtime :: nat
  stdout_data :: bytes
  stderr_data :: bytes
  exit_status :: int
  stdout_if_killed :: bytes
  stderr_if_killed :: bytes
  wait_raises :: "exn option"

text \<open>
  \<^verbatim>\<open>process.communicate(timeout=t)\<close>: the output of the finished child, or
  \<^verbatim>\<open>subprocess.TimeoutExpired\<close> when the child does not finish within \<open>t\<close>.
\<close>

definition communicate :: "process \<Rightarrow> nat option \<Rightarrow> exn + bytes \<times> bytes" where
  "communicate p t =
     (case wait_raises p of
        Some e \<Rightarrow> Inl e
      | None \<Rightarrow>
          (case t of
             None \<Rightarrow> Inr (stdout_data p, stderr_data p)
           | Some d \<Rightarrow>
               if d < runtime p then Inl TimeoutExpired
               else Inr (stdout_data p, stderr_data p)))"

text \<open>
  The messages of the loop. Each stands for the text that the source prints, plainly or as
  console markup, with the values that the text interpolates: \<open>InvalidHistoryReference cmd\<close>
  for \<^verbatim>\<open>f"Invalid history reference: {cmd}"\<close>, \<open>HistoryEntry i cmd\<close> for one line of
  \<^verbatim>\<open>_print_history\<close>, \<open>PreHookError e\<close> for \<^verbatim>\<open>f"Pre-command hook error: {e}"\<close>,
  and so on.
\<close>

datatype message =
    HelpText
  | NoCommandHistory
  | CommandHistoryHeader
  | HistoryEntry nat string
  | InvalidHistoryReference string
  | ReRunning string
  | HistoryIndexOutOfRange int
  | PreHookError exn
  | CommandTimedOut "nat option"
  | ReturnCode int
  | PostHookError exn
  | CommandNotFound string
  | ErrorExecuting exn
  | NotInPath string
  | ExitingReplize

text \<open>
  The rest of the outside world: \<^verbatim>\<open>Popen\<close> (the child, or the exception raised when it
  cannot be started), \<^verbatim>\<open>bytes.decode\<close>, \<^verbatim>\<open>str.format\<close> applied to the prompt
  template with the command and the counter, \<^verbatim>\<open>shutil.which\<close> (whether it finds the
  program), \<^verbatim>\<open>open\<close> of the log file (the exception, if it raises),
  \<^verbatim>\<open>config.console.print\<close> applied to the markup of a message (the exception, if it
  raises: rich raises \<^verbatim>\<open>MarkupError\<close> for a text in which a closing tag matches no open
  tag, and the source interpolates the user's text without escaping it),
  \<^verbatim>\<open>log_file_handle.write\<close> with the \<^verbatim>\<open>flush\<close> that follows it (the exception,
  if one raises), and the interpreter's limit on the digits of an integer conversion.
\<close>

record world =
  popen :: "string list \<Rightarrow> exn + process"
  decode :: "bytes \<Rightarrow> exn + string"
  format_prompt :: "string \<Rightarrow> string \<Rightarrow> nat \<Rightarrow> exn + string"
  which :: "string \<Rightarrow> bool"
  open_log :: "string \<Rightarrow> exn option"
  console_print :: "message \<Rightarrow> exn option"
  log_write :: "string \<Rightarrow> exn option"
  int_max_str_digits :: nat

datatype event =
    Shown message
  | LogWritten string
  | LogClosed
  | ScreenCleared
  | PreHookCalled nat string string
  | PopenCalled "string list"
  | Killed
  | StdoutCallback bytes
  | StderrCallback bytes
  | PostHookCalled nat string string int bytes bytes

record session =
  command_counter :: nat
  session_history :: "string list"
  trace :: "event list"

definition emit :: "event \<Rightarrow> session \<Rightarrow> session" where
  "emit ev st = st\<lparr>trace := trace st @ [ev]\<rparr>"

text \<open>What one line does to the loop: go on, leave it (\<^verbatim>\<open>break\<close>), or raise.\<close>

datatype outcome = Continue session | Break session | Raise exn session

datatype result = Ended session | Propagated exn session

text \<open>
  What the line reader gives at one prompt: a line, or an exception. When the script of the
  reader is used up, it raises \<^verbatim>\<open>EOFError\<close>, as \<^verbatim>\<open>input\<close> does at the end of its
  input.
\<close>

datatype reader_result = Line string | Signal exn

subsection \<open>The functions of \<^verbatim>\<open>replize.py\<close>\<close>

text \<open>
  The two ways in which the source prints a message,
  \<^verbatim>\<open>if config.console: config.console.print(...) else: print(...)\<close>: the exception that
  the console raises, if it does, and the session with the message shown otherwise. The plain
  \<^verbatim>\<open>print\<close> is taken not to raise.
\<close>

definition print_message :: "replize_config \<Rightarrow> world \<Rightarrow> message \<Rightarrow> session \<Rightarrow> exn option \<times> session" where
  "print_message cfg w m st =
     (if console cfg then
        (case console_print w m of
           Some e \<Rightarrow> (Some e, st)
         | None \<Rightarrow> (None, emit (Shown m) st))
      else (None, emit (Shown m) st))"

text \<open>\<^verbatim>\<open>if log_file_handle: log_file_handle.write(text)\<close>.\<close>

definition write_log :: "world \<Rightarrow> bool \<Rightarrow> string \<Rightarrow> session \<Rightarrow> exn option \<times> session" where
  "write_log w log_file_handle text st =
     (if log_file_handle then
        (case log_write w text of
           Some e \<Rightarrow> (Some e, st)
         | None \<Rightarrow> (None, emit (LogWritten text) st))
      else (None, st))"

text \<open>\<^verbatim>\<open>decode_and_print\<close>, the default callback: it raises when the bytes do not decode.\<close>

definition decode_and_print :: "world \<Rightarrow> bytes \<Rightarrow> exn option" where
  "decode_and_print w x = (case decode w x of Inl e \<Rightarrow> Some e | Inr _ \<Rightarrow> None)"

definition get_prompt :: "replize_config \<Rightarrow> world \<Rightarrow> session \<Rightarrow> exn + string" where
  "get_prompt cfg w st = format_prompt w (prompt_template cfg) (command cfg) (command_counter st)"

text \<open>
  \<^verbatim>\<open>validate_base_command\<close>: \<^verbatim>\<open>command.split()[0]\<close> raises \<^verbatim>\<open>IndexError\<close> for a
  command that has a space and no word.
\<close>

definition validate_base_command :: "world \<Rightarrow> string \<Rightarrow> exn + bool" where
  "validate_base_command w cmd =
     (if CHR '' '' \<in> set cmd then
        (case py_split cmd of [] \<Rightarrow> Inl IndexError | base_cmd # _ \<Rightarrow> Inr (which w base_cmd))
      else Inr (which w cmd))"

definition print_help :: "replize_config \<Rightarrow> world \<Rightarrow> session \<Rightarrow> exn option \<times> session" where
  "print_help cfg w st = print_message cfg w HelpText st"

text \<open>
  \<^verbatim>\<open>_print_history\<close>: the header, then one line for each entry, numbered from 0; an
  exception of the console ends it where it is raised.
\<close>

fun print_entries :: "replize_config \<Rightarrow> world \<Rightarrow> nat \<Rightarrow> string list \<Rightarrow> session \<Rightarrow> exn option \<times> session" where
  "print_entries cfg w i [] st = (None, st)"
| "print_entries cfg w i (cmd # cmds) st =
     (case print_message cfg w (HistoryEntry i cmd) st of
        (Some e, st1) \<Rightarrow> (Some e, st1)
      | (None, st1) \<Rightarrow> print_entries cfg w (Suc i) cmds st1)"

definition print_history :: "replize_config \<Rightarrow> world \<Rightarrow> session \<Rightarrow> exn option \<times> session" where
  "print_history cfg w st =
     (if session_history st = [] then print_message cfg w NoCommandHistory st
      else
        (case print_message cfg w CommandHistoryHeader st of
           (Some e, st1) \<Rightarrow> (Some e, st1)
         | (None, st1) \<Rightarrow> print_entries cfg w 0 (session_history st) st1))"

text \<open>\<^verbatim>\<open>return True\<close> after a statement that may have raised.\<close>

definition handled :: "exn option \<times> session \<Rightarrow> (exn + bool) \<times> session" where
  "handled r = (case r of (Some e, st) \<Rightarrow> (Inl e, st) | (None, st) \<Rightarrow> (Inr True, st))"

text \<open>
  \<^verbatim>\<open>_handle_builtin_command\<close>: whether the line was handled, or the exception that
  printing raised, and the session with the messages shown. For \<^verbatim>\<open>!n\<close> with a number
  \<open>n\<close> both branches return \<open>False\<close>: the one for an index in range, and the fall through
  to the last line for an index out of range.
\<close>

definition handle_builtin_command :: "replize_config \<Rightarrow> world \<Rightarrow> session \<Rightarrow> string \<Rightarrow> (exn + bool) \<times> session" where
  "handle_builtin_command cfg w st arguments_str =
     (case py_split arguments_str of
        [] \<Rightarrow> (Inr False, st)
      | cmd # _ \<Rightarrow>
          if cmd = ''help'' \<or> cmd = ''?'' then handled (print_help cfg w st)
          else if cmd = ''history'' then handled (print_history cfg w st)
          else if cmd = ''clear'' then (Inr True, emit ScreenCleared st)
          else if startswith_bang cmd \<and> length cmd > 1 then
            (case py_int (int_max_str_digits w) (tl cmd) of
               Some index \<Rightarrow>
                 if 0 \<le> index \<and> index < int (length (session_history st)) then (Inr False, st)
                 else (Inr False, st)
             | None \<Rightarrow> handled (print_message cfg w (InvalidHistoryReference cmd) st))
          else (Inr False, st))"

text \<open>
  The first half of the body of \<^verbatim>\<open>_run_repl_loop\<close>, from the stripped line to the
  history reference (which is the function \<open>history_reference\<close>): the line is skipped
  (\<^verbatim>\<open>continue\<close>), ends the loop (\<^verbatim>\<open>break\<close>), is to be executed, possibly
  rewritten, or an exception is raised by the log or by the console. No \<^verbatim>\<open>try\<close> but
  the outer one of the loop is around this part.
\<close>

datatype dispatch = Skip session | Exit session | Execute string session | Fails exn session

text \<open>
  \<^verbatim>\<open>first_word, *_ = arguments_str.split() if arguments_str.split() else ['']\<close>
\<close>

definition first_word :: "string \<Rightarrow> string" where
  "first_word arguments_str = (case py_split arguments_str of [] \<Rightarrow> [] | x # _ \<Rightarrow> x)"

text \<open>
  The block "Handle history reference" of the loop: the line to execute and the session, or
  \<^verbatim>\<open>continue\<close> after the message for an index out of range.
\<close>

definition history_reference :: "replize_config \<Rightarrow> world \<Rightarrow> session \<Rightarrow> string \<Rightarrow> dispatch" where
  "history_reference cfg w st arguments_str =
     (if startswith_bang arguments_str \<and> length arguments_str > 1 then
        (case py_int (int_max_str_digits w) (tl arguments_str) of
           Some index \<Rightarrow>
             if 0 \<le> index \<and> index < int (length (session_history st)) then
               (case print_message cfg w (ReRunning (session_history st ! nat index)) st of
                  (Some e, st1) \<Rightarrow> Fails e st1
                | (None, st1) \<Rightarrow> Execute (session_history st ! nat index) st1)
             else
               (case print_message cfg w (HistoryIndexOutOfRange index) st of
                  (Some e, st1) \<Rightarrow> Fails e st1
                | (None, st1) \<Rightarrow> Skip st1)
         | None \<Rightarrow> Execute arguments_str st)
      else Execute arguments_str st)"

definition dispatch_line :: "replize_config \<Rightarrow> world \<Rightarrow> bool \<Rightarrow> session \<Rightarrow> string \<Rightarrow> string \<Rightarrow> dispatch" where
  "dispatch_line cfg w log_file_handle st prompt_str raw =
     (let arguments_str = py_strip raw in
      if arguments_str = [] then Skip st
      else
        (case write_log w log_file_handle (prompt_str @ arguments_str @ [CHR 0x0A]) st of
           (Some e, st1) \<Rightarrow> Fails e st1
         | (None, st1) \<Rightarrow>
             if first_word arguments_str \<in> set (exit_commands cfg) then Exit st1
             else
               (case handle_builtin_command cfg w st1 arguments_str of
                  (Inl e, st2) \<Rightarrow> Fails e st2
                | (Inr True, st2) \<Rightarrow> Skip st2
                | (Inr False, st2) \<Rightarrow> history_reference cfg w st2 arguments_str)))"

text \<open>
  The pre-command hooks, in order, each in its own \<^verbatim>\<open>try\<close>: an \<^verbatim>\<open>Exception\<close> is
  reported and the next hook runs; any other exception leaves the loop over the hooks, and so
  does an exception that the console raises while the report is printed, which is raised inside
  the \<^verbatim>\<open>except\<close> clause. The number is the position of the hook in the list.
\<close>

fun run_pre_hooks :: "replize_config \<Rightarrow> world \<Rightarrow> string \<Rightarrow> pre_hook list \<Rightarrow> nat \<Rightarrow> session \<Rightarrow> exn option \<times> session" where
  "run_pre_hooks cfg w arguments_str [] i st = (None, st)"
| "run_pre_hooks cfg w arguments_str (hook # hooks) i st =
     (let st1 = emit (PreHookCalled i (command cfg) arguments_str) st in
      case hook (command cfg) arguments_str of
        None \<Rightarrow> run_pre_hooks cfg w arguments_str hooks (Suc i) st1
      | Some e \<Rightarrow>
          if is_Exception e then
            (case print_message cfg w (PreHookError e) st1 of
               (Some e', st2) \<Rightarrow> (Some e', st2)
             | (None, st2) \<Rightarrow> run_pre_hooks cfg w arguments_str hooks (Suc i) st2)
          else (Some e, st1))"

fun run_post_hooks :: "replize_config \<Rightarrow> world \<Rightarrow> string \<Rightarrow> int \<Rightarrow> bytes \<Rightarrow> bytes \<Rightarrow> post_hook list \<Rightarrow> nat \<Rightarrow> session \<Rightarrow> exn option \<times> session" where
  "run_post_hooks cfg w arguments_str rc out err [] i st = (None, st)"
| "run_post_hooks cfg w arguments_str rc out err (hook # hooks) i st =
     (let st1 = emit (PostHookCalled i (command cfg) arguments_str rc out err) st in
      case hook (command cfg) arguments_str rc out err of
        None \<Rightarrow> run_post_hooks cfg w arguments_str rc out err hooks (Suc i) st1
      | Some e \<Rightarrow>
          if is_Exception e then
            (case print_message cfg w (PostHookError e) st1 of
               (Some e', st2) \<Rightarrow> (Some e', st2)
             | (None, st2) \<Rightarrow> run_post_hooks cfg w arguments_str rc out err hooks (Suc i) st2)
          else (Some e, st1))"

text \<open>
  The wait for the child with its handler for \<^verbatim>\<open>TimeoutError\<close>: the output, the return
  code read later from \<^verbatim>\<open>process.returncode\<close> (\<open>- 9\<close> after \<^verbatim>\<open>kill\<close>), or the
  exception that the handler does not catch or that its message raises.
\<close>

definition wait_for_command :: "replize_config \<Rightarrow> world \<Rightarrow> process \<Rightarrow> session \<Rightarrow> (exn + bytes \<times> bytes \<times> int) \<times> session" where
  "wait_for_command cfg w p st =
     (case communicate p (timeout cfg) of
        Inr (out, err) \<Rightarrow> (Inr (out, err, exit_status p), st)
      | Inl e \<Rightarrow>
          if is_TimeoutError e then
            (case print_message cfg w (CommandTimedOut (timeout cfg)) (emit Killed st) of
               (Some e', st1) \<Rightarrow> (Inl e', st1)
             | (None, st1) \<Rightarrow> (Inr (stdout_if_killed p, stderr_if_killed p, - 9), st1))
          else (Inl e, st))"

text \<open>One of the two blocks under "Handle output": the callback, then the log.\<close>

definition handle_output :: "world \<Rightarrow> bool \<Rightarrow> (bytes \<Rightarrow> exn option) \<Rightarrow> (bytes \<Rightarrow> event) \<Rightarrow> bytes \<Rightarrow> session \<Rightarrow> exn option \<times> session" where
  "handle_output w log_file_handle callback called data st =
     (if data = [] then (None, st)
      else
        (let st1 = emit (called data) st in
         case callback data of
           Some e \<Rightarrow> (Some e, st1)
         | None \<Rightarrow>
             if log_file_handle then
               (case decode w data of
                  Inl e \<Rightarrow> (Some e, st1)
                | Inr s \<Rightarrow> write_log w log_file_handle s st1)
             else (None, st1)))"

text \<open>
  The body of the \<^verbatim>\<open>try\<close> under "Execute command" up to "Show return code": the
  output and the return code of the child, or the exception that is raised before the
  post-command hooks are reached.
\<close>

definition run_child :: "replize_config \<Rightarrow> world \<Rightarrow> bool \<Rightarrow> string \<Rightarrow> session \<Rightarrow> (exn + bytes \<times> bytes \<times> int) \<times> session" where
  "run_child cfg w log_file_handle full_command st =
     (case shlex_split full_command of
        Inl e \<Rightarrow> (Inl e, st)
      | Inr argv \<Rightarrow>
          (case popen w argv of
             Inl e \<Rightarrow> (Inl e, emit (PopenCalled argv) st)
           | Inr p \<Rightarrow>
               (case wait_for_command cfg w p (emit (PopenCalled argv) st) of
                  (Inl e, st1) \<Rightarrow> (Inl e, st1)
                | (Inr (out, err, rc), st1) \<Rightarrow>
                    (case handle_output w log_file_handle (stdout_callback cfg) StdoutCallback out st1 of
                       (Some e, st2) \<Rightarrow> (Inl e, st2)
                     | (None, st2) \<Rightarrow>
                         (case handle_output w log_file_handle (stderr_callback cfg) StderrCallback err st2 of
                            (Some e, st3) \<Rightarrow> (Inl e, st3)
                          | (None, st3) \<Rightarrow>
                              (case (if show_return_code cfg \<and> rc \<noteq> 0
                                     then print_message cfg w (ReturnCode rc) st3
                                     else (None, st3)) of
                                 (Some e, st4) \<Rightarrow> (Inl e, st4)
                               | (None, st4) \<Rightarrow> (Inr (out, err, rc), st4)))))))"

text \<open>
  The whole body of that \<^verbatim>\<open>try\<close>, with the post-command hooks at its end: the exception
  that leaves it, if any, and the session.
\<close>

definition run_command :: "replize_config \<Rightarrow> world \<Rightarrow> bool \<Rightarrow> string \<Rightarrow> string \<Rightarrow> session \<Rightarrow> exn option \<times> session" where
  "run_command cfg w log_file_handle full_command arguments_str st =
     (case run_child cfg w log_file_handle full_command st of
        (Inl e, st1) \<Rightarrow> (Some e, st1)
      | (Inr (out, err, rc), st1) \<Rightarrow>
          run_post_hooks cfg w arguments_str rc out err (post_command_hooks cfg) 0 st1)"

definition increment_counter :: "session \<Rightarrow> session" where
  "increment_counter st = st\<lparr>command_counter := command_counter st + 1\<rparr>"

text \<open>
  One of the two \<^verbatim>\<open>except\<close> clauses of that \<^verbatim>\<open>try\<close>, followed by "Increment
  counter": the report is printed and the counter incremented; an exception that the console
  raises while the report is printed is raised inside the \<^verbatim>\<open>except\<close> clause and leaves
  the body of the loop before the counter is reached.
\<close>

definition report_and_count :: "replize_config \<Rightarrow> world \<Rightarrow> message \<Rightarrow> session \<Rightarrow> outcome" where
  "report_and_count cfg w m st =
     (case print_message cfg w m st of
        (Some e, st1) \<Rightarrow> Raise e st1
      | (None, st1) \<Rightarrow> Continue (increment_counter st1))"

text \<open>
  The second half of the body of \<^verbatim>\<open>_run_repl_loop\<close>, from "Add to session history" to
  "Increment counter".
\<close>

definition execute_command :: "replize_config \<Rightarrow> world \<Rightarrow> bool \<Rightarrow> session \<Rightarrow> string \<Rightarrow> outcome" where
  "execute_command cfg w log_file_handle st arguments_str =
     (case run_pre_hooks cfg w arguments_str (pre_command_hooks cfg) 0
             (st\<lparr>session_history := session_history st @ [arguments_str]\<rparr>) of
        (Some e, st1) \<Rightarrow> Raise e st1
      | (None, st1) \<Rightarrow>
          (let full_command = command cfg @ '' '' @ arguments_str in
           case run_command cfg w log_file_handle full_command arguments_str st1 of
             (None, st2) \<Rightarrow> Continue (increment_counter st2)
           | (Some e, st2) \<Rightarrow>
               if is_FileNotFoundError e
               then report_and_count cfg w (CommandNotFound full_command) st2
               else if is_Exception e
               then report_and_count cfg w (ErrorExecuting e) st2
               else Raise e st2))"

definition process_line :: "replize_config \<Rightarrow> world \<Rightarrow> bool \<Rightarrow> session \<Rightarrow> string \<Rightarrow> string \<Rightarrow> outcome" where
  "process_line cfg w log_file_handle st prompt_str raw =
     (case dispatch_line cfg w log_file_handle st prompt_str raw of
        Skip st1 \<Rightarrow> Continue st1
      | Exit st1 \<Rightarrow> Break st1
      | Fails e st1 \<Rightarrow> Raise e st1
      | Execute arguments_str st1 \<Rightarrow> execute_command cfg w log_file_handle st1 arguments_str)"

text \<open>\<^verbatim>\<open>except config.exit_exceptions: break\<close>, around the whole body of the loop.\<close>

definition exit_or_propagate :: "replize_config \<Rightarrow> session \<Rightarrow> exn \<Rightarrow> result" where
  "exit_or_propagate cfg st e = (if exit_exceptions cfg e then Ended st else Propagated e st)"

text \<open>\<^verbatim>\<open>_run_repl_loop\<close>, over the script of the line reader.\<close>

fun run_repl_loop :: "replize_config \<Rightarrow> world \<Rightarrow> bool \<Rightarrow> session \<Rightarrow> reader_result list \<Rightarrow> result" where
  "run_repl_loop cfg w log_file_handle st [] =
     (case get_prompt cfg w st of
        Inl e \<Rightarrow> exit_or_propagate cfg st e
      | Inr prompt_str \<Rightarrow> exit_or_propagate cfg st EOFError)"
| "run_repl_loop cfg w log_file_handle st (r # rs) =
     (case get_prompt cfg w st of
        Inl e \<Rightarrow> exit_or_propagate cfg st e
      | Inr prompt_str \<Rightarrow>
          (case r of
             Signal e \<Rightarrow> exit_or_propagate cfg st e
           | Line raw \<Rightarrow>
               (case process_line cfg w log_file_handle st prompt_str raw of
                  Continue st1 \<Rightarrow> run_repl_loop cfg w log_file_handle st1 rs
                | Break st1 \<Rightarrow> Ended st1
                | Raise e st1 \<Rightarrow> exit_or_propagate cfg st1 e)))"

definition initial_session :: session where
  "initial_session = \<lparr>command_counter = 0, session_history = [], trace = []\<rparr>"

text \<open>
  The \<^verbatim>\<open>finally\<close> of \<^verbatim>\<open>replize\<close>: the log is closed and the exit announced. An
  exception that the announcement raises replaces the outcome of the loop.
\<close>

definition finish :: "replize_config \<Rightarrow> world \<Rightarrow> bool \<Rightarrow> result \<Rightarrow> result" where
  "finish cfg w log_file_handle r =
     (let st = (case r of Ended st0 \<Rightarrow> st0 | Propagated e st0 \<Rightarrow> st0);
          st1 = (if log_file_handle then emit LogClosed st else st)
      in if verbose_exit cfg then
           (case print_message cfg w ExitingReplize st1 of
              (Some e', st2) \<Rightarrow> Propagated e' st2
            | (None, st2) \<Rightarrow> (case r of Ended _ \<Rightarrow> Ended st2 | Propagated e _ \<Rightarrow> Propagated e st2))
         else (case r of Ended _ \<Rightarrow> Ended st1 | Propagated e _ \<Rightarrow> Propagated e st1))"

text \<open>
  \<^verbatim>\<open>replize\<close>: the command is validated, the log file is opened and the header of the
  session written to it, the loop runs. The set-up of the line editor is the reader's script.
\<close>

definition replize :: "replize_config \<Rightarrow> world \<Rightarrow> reader_result list \<Rightarrow> result" where
  "replize cfg w script =
     (case (if validate_command cfg then validate_base_command w (command cfg) else Inr True) of
        Inl e \<Rightarrow> Propagated e initial_session
      | Inr False \<Rightarrow>
          (case print_message cfg w (NotInPath (command cfg)) initial_session of
             (Some e, st) \<Rightarrow> Propagated e st
           | (None, st) \<Rightarrow> Ended st)
      | Inr True \<Rightarrow>
          (case (case log_file cfg of
                   None \<Rightarrow> Inr (False, initial_session)
                 | Some path \<Rightarrow>
                     if path = [] then Inr (False, initial_session)
                     else (case open_log w path of
                             Some e \<Rightarrow> Inl e
                           | None \<Rightarrow>
                               (case write_log w True ([CHR 0x0A] @ ''=== New replize session: ''
                                        @ command cfg @ '' ==='' @ [CHR 0x0A]) initial_session of
                                  (Some e, st) \<Rightarrow> Inl e
                                | (None, st) \<Rightarrow> Inr (True, st)))) of
             Inl e \<Rightarrow> Propagated e initial_session
           | Inr (log_file_handle, st) \<Rightarrow>
               finish cfg w log_file_handle (run_repl_loop cfg w log_file_handle st script)))"

subsection \<open>Notions used to state the properties\<close>

fun outcome_session :: "outcome \<Rightarrow> session" where
  "outcome_session (Continue st) = st"
| "outcome_session (Break st) = st"
| "outcome_session (Raise e st) = st"

fun result_session :: "result \<Rightarrow> session" where
  "result_session (Ended st) = st"
| "result_session (Propagated e st) = st"

text \<open>The argument vectors \<^verbatim>\<open>Popen\<close> was called with, in order.\<close>

fun popen_calls :: "event list \<Rightarrow> string list list" where
  "popen_calls [] = []"
| "popen_calls (PopenCalled argv # evs) = argv # popen_calls evs"
| "popen_calls (ev # evs) = popen_calls evs"

text \<open>The positions of the post-command hooks that were called, in order.\<close>

fun post_hook_calls :: "event list \<Rightarrow> nat list" where
  "post_hook_calls [] = []"
| "post_hook_calls (PostHookCalled i c a rc out err # evs) = i # post_hook_calls evs"
| "post_hook_calls (ev # evs) = post_hook_calls evs"

text \<open>
  What a list of hooks is expected to leave in the trace when every hook is attempted in
  registration order and each failure is reported on its own, right after the hook that
  raised it.
\<close>

fun pre_hook_events :: "replize_config \<Rightarrow> string \<Rightarrow> pre_hook list \<Rightarrow> nat \<Rightarrow> event list" where
  "pre_hook_events cfg a [] i = []"
| "pre_hook_events cfg a (hook # hooks) i =
     PreHookCalled i (command cfg) a
       # (case hook (command cfg) a of None \<Rightarrow> [] | Some e \<Rightarrow> [Shown (PreHookError e)])
       @ pre_hook_events cfg a hooks (Suc i)"

fun post_hook_events :: "replize_config \<Rightarrow> string \<Rightarrow> int \<Rightarrow> bytes \<Rightarrow> bytes \<Rightarrow> post_hook list \<Rightarrow> nat \<Rightarrow> event list" where
  "post_hook_events cfg a rc out err [] i = []"
| "post_hook_events cfg a rc out err (hook # hooks) i =
     PostHookCalled i (command cfg) a rc out err
       # (case hook (command cfg) a rc out err of None \<Rightarrow> [] | Some e \<Rightarrow> [Shown (PostHookError e)])
       @ post_hook_events cfg a rc out err hooks (Suc i)"

text \<open>
  Every exception that a hook, \<^verbatim>\<open>Popen\<close>, the wait for the child, a callback or the
  decoding of output raises is an instance of \<^verbatim>\<open>Exception\<close>.
\<close>

definition raises_only_Exceptions :: "replize_config \<Rightarrow> world \<Rightarrow> bool" where
  "raises_only_Exceptions cfg w \<longleftrightarrow>
     (\<forall>hook\<in>set (pre_command_hooks cfg). \<forall>c a e. hook c a = Some e \<longrightarrow> is_Exception e) \<and>
     (\<forall>hook\<in>set (post_command_hooks cfg). \<forall>c a rc out err e.
        hook c a rc out err = Some e \<longrightarrow> is_Exception e) \<and>
     (\<forall>argv e. popen w argv = Inl e \<longrightarrow> is_Exception e) \<and>
     (\<forall>argv p e. popen w argv = Inr p \<longrightarrow> wait_raises p = Some e \<longrightarrow> is_Exception e) \<and>
     (\<forall>data e. stdout_callback cfg data = Some e \<longrightarrow> is_Exception e) \<and>
     (\<forall>data e. stderr_callback cfg data = Some e \<longrightarrow> is_Exception e) \<and>
     (\<forall>data e. decode w data = Inl e \<longrightarrow> is_Exception e)"

text \<open>The prompt template renders whatever the counter is.\<close>

definition prompt_renders :: "replize_config \<Rightarrow> world \<Rightarrow> bool" where
  "prompt_renders cfg w \<longleftrightarrow>
     (\<forall>n. \<exists>p. format_prompt w (prompt_template cfg) (command cfg) n = Inr p)"

text \<open>
  A message can be printed: the output is plain, or the console renders the message.
\<close>

definition printable :: "replize_config \<Rightarrow> world \<Rightarrow> message \<Rightarrow> bool" where
  "printable cfg w m \<longleftrightarrow> (console cfg \<longrightarrow> console_print w m = None)"

text \<open>A text can be written to the log: there is no log, or the write does not raise.\<close>

definition loggable :: "world \<Rightarrow> bool \<Rightarrow> string \<Rightarrow> bool" where
  "loggable w log_file_handle text \<longleftrightarrow> (log_file_handle \<longrightarrow> log_write w text = None)"

text \<open>Every message can be printed and every text can be written to the log.\<close>

definition output_succeeds :: "replize_config \<Rightarrow> world \<Rightarrow> bool \<Rightarrow> bool" where
  "output_succeeds cfg w log_file_handle \<longleftrightarrow>
     (\<forall>m. printable cfg w m) \<and> (\<forall>text. loggable w log_file_handle text)"

text \<open>
  A failure of a hook on the line \<open>a\<close> that the loop over the hooks is written to isolate: an
  instance of \<^verbatim>\<open>Exception\<close> whose report can be printed.
\<close>

definition pre_hooks_fail_softly :: "replize_config \<Rightarrow> world \<Rightarrow> string \<Rightarrow> bool" where
  "pre_hooks_fail_softly cfg w a \<longleftrightarrow>
     (\<forall>hook\<in>set (pre_command_hooks cfg). \<forall>e.
        hook (command cfg) a = Some e \<longrightarrow> is_Exception e \<and> printable cfg w (PreHookError e))"

definition post_hooks_fail_softly :: "replize_config \<Rightarrow> world \<Rightarrow> string \<Rightarrow> bool" where
  "post_hooks_fail_softly cfg w a \<longleftrightarrow>
     (\<forall>hook\<in>set (post_command_hooks cfg). \<forall>rc out err e.
        hook (command cfg) a rc out err = Some e \<longrightarrow>
          is_Exception e \<and> printable cfg w (PostHookError e))"

text \<open>
  No output callback raises an exception that is both an instance of \<^verbatim>\<open>Exception\<close> and
  a member of \<^verbatim>\<open>exit_exceptions\<close>. For such an exception the docstring of
  \<^verbatim>\<open>replize\<close> (a callback may raise an exception that is in \<^verbatim>\<open>exit_exceptions\<close> to
  leave the REPL) and the code (the handler \<^verbatim>\<open>except Exception\<close> around the execution
  catches it, and the loop goes on) disagree; the properties below that say what leaves the
  loop and what does not are stated for the configurations in which that case does not arise.
\<close>

definition callbacks_raise_no_exit_Exception :: "replize_config \<Rightarrow> bool" where
  "callbacks_raise_no_exit_Exception cfg \<longleftrightarrow>
     (\<forall>data e. stdout_callback cfg data = Some e \<longrightarrow> is_Exception e \<longrightarrow> \<not> exit_exceptions cfg e) \<and>
     (\<forall>data e. stderr_callback cfg data = Some e \<longrightarrow> is_Exception e \<longrightarrow> \<not> exit_exceptions cfg e)"

text \<open>
  The session \<open>st'\<close> is \<open>st\<close> with events added to its trace, among which the calls of
  \<^verbatim>\<open>Popen\<close> are \<open>argvs\<close> and the calls of post-command hooks are \<open>posts\<close>.
\<close>

definition extends_with :: "session \<Rightarrow> session \<Rightarrow> string list list \<Rightarrow> nat list \<Rightarrow> bool" where
  "extends_with st st' argvs posts \<longleftrightarrow>
     command_counter st' = command_counter st \<and> session_history st' = session_history st \<and>
     (\<exists>evs. trace st' = trace st @ evs \<and> popen_calls evs = argvs \<and> post_hook_calls evs = posts)"

fun dispatch_session :: "dispatch \<Rightarrow> session" where
  "dispatch_session (Skip st) = st"
| "dispatch_session (Exit st) = st"
| "dispatch_session (Execute a st) = st"
| "dispatch_session (Fails e st) = st"

text \<open>The console raises \<open>e\<close> for some message.\<close>

definition console_raises :: "replize_config \<Rightarrow> world \<Rightarrow> exn \<Rightarrow> bool" where
  "console_raises cfg w e \<longleftrightarrow> console cfg \<and> (\<exists>m. console_print w m = Some e)"

text \<open>
  A line with an unterminated quote, said without the tokens: the state in which the lexer of
  \<^verbatim>\<open>shlex\<close> is after the characters of the line, and whether a quote is open in it (also
  after a backslash inside the quote).
\<close>

fun lexer_state :: "lex_state \<Rightarrow> string \<Rightarrow> lex_state" where
  "lexer_state s [] = s"
| "lexer_state InSpace (c # cs) =
     (if shlex_whitespace c then lexer_state InSpace cs
      else if shlex_escape c then lexer_state (InEscape InWord) cs
      else if shlex_quote c then lexer_state (InQuote c) cs
      else lexer_state InWord cs)"
| "lexer_state InWord (c # cs) =
     (if shlex_whitespace c then lexer_state InSpace cs
      else if shlex_quote c then lexer_state (InQuote c) cs
      else if shlex_escape c then lexer_state (InEscape InWord) cs
      else lexer_state InWord cs)"
| "lexer_state (InQuote q) (c # cs) =
     (if c = q then lexer_state InWord cs
      else if shlex_escape c \<and> q = CHR 0x22 then lexer_state (InEscape (InQuote q)) cs
      else lexer_state (InQuote q) cs)"
| "lexer_state (InEscape es) (c # cs) = lexer_state es cs"

fun quote_open :: "lex_state \<Rightarrow> bool" where
  "quote_open (InQuote q) = True"
| "quote_open (InEscape es) = quote_open es"
| "quote_open _ = False"

definition unterminated_quote :: "string \<Rightarrow> bool" where
  "unterminated_quote s = quote_open (lexer_state InSpace s)"

subsection \<open>Example configurations and worlds\<close>

text \<open>
  The defaults of \<^verbatim>\<open>ReplizeConfig\<close> for a base command where rich is not installed
  (\<^verbatim>\<open>config.console\<close> is \<^verbatim>\<open>None\<close>), and where it is.
\<close>

definition default_config :: "world \<Rightarrow> string \<Rightarrow> replize_config" where
  "default_config w c =
     \<lparr>command = c, prompt_template = ''{command} >>> '',
      exit_commands = [''exit'', ''quit''],
      exit_exceptions = (\<lambda>e. e = EOFError \<or> e = KeyboardInterrupt),
      stdout_callback = decode_and_print w, stderr_callback = decode_and_print w,
      console = False,
      timeout = None, log_file = None, pre_command_hooks = [], post_command_hooks = [],
      verbose_exit = False, show_return_code = False, validate_command = True\<rparr>"

definition rich_config :: "world \<Rightarrow> string \<Rightarrow> replize_config" where
  "rich_config w c = (default_config w c)\<lparr>console := True\<rparr>"

text \<open>A child that needs five time units, prints a line and exits with status 0.\<close>

definition example_process :: process where
  "example_process =
     \<lparr>runtime = 5, stdout_data = ''done'', stderr_data = [], exit_status = 0,
      stdout_if_killed = ''do'', stderr_if_killed = [], wait_raises = None\<rparr>"

text \<open>
  A world in which every program is found and starts \<open>example_process\<close>, bytes decode to
  themselves, the default prompt template renders as the command followed by
  \<^verbatim>\<open>" >>> "\<close>, the console renders every message, the log takes every text and the limit
  on the digits of an integer is the interpreter's default.
\<close>

definition example_world :: world where
  "example_world =
     \<lparr>popen = (\<lambda>argv. Inr example_process), decode = (\<lambda>data. Inr data),
      format_prompt = (\<lambda>template c n. Inr (c @ '' >>> '')),
      which = (\<lambda>c. True), open_log = (\<lambda>path. None),
      console_print = (\<lambda>m. None), log_write = (\<lambda>text. None), int_max_str_digits = 4300\<rparr>"

text \<open>A world in which no program can be started: \<^verbatim>\<open>Popen\<close> raises \<^verbatim>\<open>FileNotFoundError\<close>.\<close>

definition missing_world :: world where
  "missing_world = example_world\<lparr>popen := (\<lambda>argv. Inl FileNotFoundError)\<rparr>"

text \<open>
  A configuration with two pre-command and two post-command hooks: in each list the first hook
  raises an \<^verbatim>\<open>Exception\<close> and the second returns.
\<close>

definition hooked_config :: "world \<Rightarrow> string \<Rightarrow> replize_config" where
  "hooked_config w c =
     (default_config w c)
       \<lparr>pre_command_hooks := [\<lambda>c a. Some (CustomException ''pre''), \<lambda>c a. None],
        post_command_hooks := [\<lambda>c a rc out err. Some (CustomException ''post''),
                               \<lambda>c a rc out err. None]\<rparr>"

text \<open>A world in which the wait for every child is interrupted from the keyboard.\<close>

definition interrupted_world :: world where
  "interrupted_world =
     example_world\<lparr>popen := (\<lambda>argv. Inr (example_process\<lparr>wait_raises := Some KeyboardInterrupt\<rparr>))\<rparr>"

text \<open>A world in which the log file cannot be opened.\<close>

definition unwritable_world :: world where
  "unwritable_world = example_world\<lparr>open_log := (\<lambda>path. Some PermissionError)\<rparr>"

text \<open>A world in which the log file is opened and every write to it fails.\<close>

definition full_disk_world :: world where
  "full_disk_world = example_world\<lparr>log_write := (\<lambda>text. Some OSError)\<rparr>"

text \<open>
  A world with a console that behaves as rich does on a closing tag that matches no open tag:
  it raises \<^verbatim>\<open>MarkupError\<close> for a message whose interpolated text contains
  \<^verbatim>\<open>[/x]\<close> and renders every other message. \<open>exn_text\<close> is \<^verbatim>\<open>str(e)\<close>.
\<close>

fun closing_tag_in :: "string \<Rightarrow> bool" where
  "closing_tag_in [] = False"
| "closing_tag_in (c # cs) = (take 4 (c # cs) = ''[/x]'' \<or> closing_tag_in cs)"

fun exn_text :: "exn \<Rightarrow> string" where
  "exn_text (ValueError s) = s"
| "exn_text (CustomException s) = s"
| "exn_text (CustomBaseException s) = s"
| "exn_text _ = []"

fun interpolated :: "message \<Rightarrow> string" where
  "interpolated (HistoryEntry i cmd) = cmd"
| "interpolated (InvalidHistoryReference cmd) = cmd"
| "interpolated (ReRunning arguments_str) = arguments_str"
| "interpolated (PreHookError e) = exn_text e"
| "interpolated (PostHookError e) = exn_text e"
| "interpolated (CommandNotFound full_command) = full_command"
| "interpolated (ErrorExecuting e) = exn_text e"
| "interpolated (NotInPath c) = c"
| "interpolated _ = []"

definition rich_world :: world where
  "rich_world =
     example_world\<lparr>console_print :=
       (\<lambda>m. if closing_tag_in (interpolated m) then Some MarkupError else None)\<rparr>"

text \<open>The same console where no program can be started.\<close>

definition rich_missing_world :: world where
  "rich_missing_world = rich_world\<lparr>popen := (\<lambda>argv. Inl FileNotFoundError)\<rparr>"

text \<open>
  Two pre-command hooks of which the first raises \<^verbatim>\<open>KeyboardInterrupt\<close>, and two of
  which the first raises an \<^verbatim>\<open>Exception\<close> with the message \<^verbatim>\<open>[/x]\<close>, under the
  console.
\<close>

definition interrupting_hook_config :: "world \<Rightarrow> string \<Rightarrow> replize_config" where
  "interrupting_hook_config w c =
     (default_config w c)\<lparr>pre_command_hooks := [\<lambda>c a. Some KeyboardInterrupt, \<lambda>c a. None]\<rparr>"

definition markup_hook_config :: "world \<Rightarrow> string \<Rightarrow> replize_config" where
  "markup_hook_config w c =
     (rich_config w c)\<lparr>pre_command_hooks := [\<lambda>c a. Some (CustomException ''[/x]''), \<lambda>c a. None]\<rparr>"

section \<open>Properties\<close>

subsection \<open>Strings\<close>

lemma dropWhile_rev_dropWhile_Nil:
  "rev (dropWhile P (rev (dropWhile P s))) = [] \<longleftrightarrow> (\<forall>c\<in>set s. P c)"
proof
  assume "rev (dropWhile P (rev (dropWhile P s))) = []"
  then have a: "\<forall>c\<in>set (dropWhile P s). P c"
    by (simp add: dropWhile_eq_Nil_conv)
  show "\<forall>c\<in>set s. P c"
  proof (cases "dropWhile P s")
    case Nil
    then show ?thesis by (simp add: dropWhile_eq_Nil_conv)
  next
    case (Cons x xs)
    then have "\<not> P x" by (metis hd_dropWhile list.sel(1) list.distinct(1))
    moreover have "x \<in> set (dropWhile P s)" using Cons by simp
    ultimately show ?thesis using a by blast
  qed
next
  assume "\<forall>c\<in>set s. P c"
  then show "rev (dropWhile P (rev (dropWhile P s))) = []"
    by (auto simp: dropWhile_eq_Nil_conv dest: set_dropWhileD)
qed

lemma py_strip_Nil_iff: "py_strip s = [] \<longleftrightarrow> (\<forall>c\<in>set s. py_isspace c)"
  unfolding py_strip_def by (rule dropWhile_rev_dropWhile_Nil)

lemma strip_last_not_space:
  assumes "rev (dropWhile P (rev t)) = xs @ [x]"
  shows "\<not> P x"
proof -
  have "dropWhile P (rev t) = x # rev xs"
    using assms by (metis rev.simps(2) rev_rev_ident)
  then show ?thesis
    by (metis hd_dropWhile list.sel(1) list.distinct(1))
qed

lemma py_strip_last: "py_strip s = xs @ [x] \<Longrightarrow> \<not> py_isspace x"
  unfolding py_strip_def by (rule strip_last_not_space)

lemma dropWhile_rev_last:
  assumes "s \<noteq> []" "\<not> P (last s)"
  shows "dropWhile P (rev s) = rev s"
proof -
  obtain xs x where "s = xs @ [x]"
    using assms(1) by (cases s rule: rev_cases) auto
  then show ?thesis using assms(2) by simp
qed

lemma strip_unchanged:
  assumes "\<not> P c" and "\<not> P (last (c # s))"
  shows "rev (dropWhile P (rev (dropWhile P (c # s)))) = c # s"
proof -
  have "dropWhile P (c # s) = c # s" using assms(1) by simp
  moreover have "dropWhile P (rev (c # s)) = rev (c # s)"
    using assms(2) by (intro dropWhile_rev_last) simp_all
  ultimately show ?thesis by (simp only: rev_rev_ident)
qed

lemma py_strip_unchanged:
  "\<not> py_isspace c \<Longrightarrow> \<not> py_isspace (last (c # s)) \<Longrightarrow> py_strip (c # s) = c # s"
  unfolding py_strip_def by (rule strip_unchanged)

lemma py_split_from_nospace:
  "\<forall>c\<in>set xs. \<not> py_isspace c \<Longrightarrow> py_split_from w (xs @ ys) = py_split_from (w @ xs) ys"
  by (induction xs arbitrary: w) auto

lemma first_word_nospace:
  assumes "\<forall>c\<in>set xs. \<not> py_isspace c" "xs \<noteq> []"
  shows "first_word xs = xs"
  using py_split_from_nospace[OF assms(1), of "[]" "[]"] assms(2)
  by (simp add: first_word_def py_split_def)

lemma first_word_before_space:
  assumes "\<forall>c\<in>set xs. \<not> py_isspace c" "xs \<noteq> []" "py_isspace sp"
  shows "first_word (xs @ sp # ys) = xs"
  using py_split_from_nospace[OF assms(1), of "[]" "sp # ys"] assms(2,3)
  by (simp add: first_word_def py_split_def)

lemma py_split_hd_nospace:
  assumes "\<forall>c\<in>set xs. \<not> py_isspace c" "xs \<noteq> []" "py_isspace sp"
  shows "\<exists>ws. py_split (xs @ sp # ys) = xs # ws"
  using py_split_from_nospace[OF assms(1), of "[]" "sp # ys"] assms(2,3)
  by (simp add: py_split_def)

subsection \<open>Blank lines\<close>

text \<open>
  C9. A line that is empty or consists of whitespace only leaves the session as it is: no
  event at all is added to the trace (so \<^verbatim>\<open>Popen\<close> is not called), nothing is appended
  to the session history and the counter keeps its value; the loop goes on with the next
  prompt, from the same state.
\<close>

theorem blank_line_ignored:
  assumes "\<forall>c\<in>set raw. py_isspace c"
  shows "process_line cfg w log_file_handle st prompt_str raw = Continue st \<and>
         (get_prompt cfg w st = Inr prompt_str \<longrightarrow>
            run_repl_loop cfg w log_file_handle st (Line raw # rs)
              = run_repl_loop cfg w log_file_handle st rs)"
proof -
  have "py_strip raw = []"
    using assms by (simp add: py_strip_Nil_iff)
  then have "process_line cfg w log_file_handle st prompt_str raw = Continue st"
    by (simp add: process_line_def dispatch_line_def)
  then show ?thesis by simp
qed

theorem blank_line_ignored_witness:
  "process_line (default_config example_world ''echo'') example_world False initial_session
       ''echo >>> '' [CHR '' '', CHR 0x09, CHR '' ''] = Continue initial_session \<and>
   run_repl_loop (default_config example_world ''echo'') example_world False initial_session
       [Line [CHR '' '', CHR 0x09, CHR '' ''], Line ''exit'']
     = run_repl_loop (default_config example_world ''echo'') example_world False initial_session
         [Line ''exit'']"
proof -
  have blank: "\<forall>c\<in>set [CHR '' '', CHR 0x09, CHR '' '']. py_isspace c"
    by (simp add: py_isspace_def)
  have prompt: "get_prompt (default_config example_world ''echo'') example_world initial_session
      = Inr ''echo >>> ''"
    by (simp add: get_prompt_def default_config_def example_world_def)
  show ?thesis
    using blank_line_ignored [OF blank, of "default_config example_world ''echo''" example_world
        False initial_session "''echo >>> ''" "[Line ''exit'']"] prompt
    by simp
qed

subsection \<open>What the parts of the loop leave unchanged\<close>

lemma emit_fields [simp]:
  "command_counter (emit ev st) = command_counter st"
  "session_history (emit ev st) = session_history st"
  "trace (emit ev st) = trace st @ [ev]"
  by (simp_all add: emit_def)

lemma increment_counter_fields [simp]:
  "command_counter (increment_counter st) = Suc (command_counter st)"
  "session_history (increment_counter st) = session_history st"
  "trace (increment_counter st) = trace st"
  by (simp_all add: increment_counter_def)

lemma popen_calls_append [simp]: "popen_calls (xs @ ys) = popen_calls xs @ popen_calls ys"
  by (induction xs rule: popen_calls.induct) simp_all

lemma post_hook_calls_append [simp]:
  "post_hook_calls (xs @ ys) = post_hook_calls xs @ post_hook_calls ys"
  by (induction xs rule: post_hook_calls.induct) simp_all

lemma popen_calls_pre_hook_events [simp]: "popen_calls (pre_hook_events cfg a hooks i) = []"
  by (induction hooks arbitrary: i) (auto split: option.splits)

lemma popen_calls_post_hook_events [simp]:
  "popen_calls (post_hook_events cfg a rc out err hooks i) = []"
  by (induction hooks arbitrary: i) (auto split: option.splits)

lemma post_hook_calls_pre_hook_events [simp]:
  "post_hook_calls (pre_hook_events cfg a hooks i) = []"
  by (induction hooks arbitrary: i) (auto split: option.splits)

lemma post_hook_calls_post_hook_events [simp]:
  "post_hook_calls (post_hook_events cfg a rc out err hooks i) = [i..<i + length hooks]"
  by (induction hooks arbitrary: i) (auto split: option.splits simp: upt_rec)

lemma extends_with_refl [simp]: "extends_with st st [] []"
  by (simp add: extends_with_def)

lemma extends_with_trans:
  "extends_with st st1 a1 p1 \<Longrightarrow> extends_with st1 st2 a2 p2 \<Longrightarrow>
   extends_with st st2 (a1 @ a2) (p1 @ p2)"
  by (auto simp: extends_with_def)

lemma extends_with_quiet_trans:
  "extends_with st st1 [] [] \<Longrightarrow> extends_with st1 st2 a p \<Longrightarrow> extends_with st st2 a p"
  using extends_with_trans[of st st1 "[]" "[]" st2 a p] by simp

lemma extends_with_trans_quiet:
  "extends_with st st1 a p \<Longrightarrow> extends_with st1 st2 [] [] \<Longrightarrow> extends_with st st2 a p"
  using extends_with_trans[of st st1 a p st2 "[]" "[]"] by simp

lemma extends_with_emit:
  "extends_with st (emit ev st) (popen_calls [ev]) (post_hook_calls [ev])"
  by (simp add: extends_with_def)

lemma extends_with_fields:
  assumes "extends_with st st' a p"
  shows "command_counter st' = command_counter st" and "session_history st' = session_history st"
    and "popen_calls (trace st') = popen_calls (trace st) @ a"
    and "post_hook_calls (trace st') = post_hook_calls (trace st) @ p"
    and "\<exists>evs. trace st' = trace st @ evs \<and> popen_calls evs = a"
  using assms by (auto simp: extends_with_def)

lemma extends_with_history:
  "extends_with (st\<lparr>session_history := h\<rparr>) st' a p \<Longrightarrow>
     command_counter st' = command_counter st \<and> session_history st' = h \<and>
     popen_calls (trace st') = popen_calls (trace st) @ a \<and>
     post_hook_calls (trace st') = post_hook_calls (trace st) @ p"
  by (auto simp: extends_with_def)

subsection \<open>Messages and the log\<close>

lemma print_message_frame:
  "print_message cfg w m st = (r, st') \<Longrightarrow> extends_with st st' [] []"
  by (auto simp: print_message_def extends_with_def split: if_splits option.splits)

lemma print_message_exn:
  "print_message cfg w m st = (Some e, st') \<Longrightarrow> console_raises cfg w e"
  by (auto simp: print_message_def console_raises_def split: if_splits option.splits)

lemma print_message_printable:
  "printable cfg w m \<Longrightarrow> print_message cfg w m st = (None, emit (Shown m) st)"
  by (auto simp: print_message_def printable_def split: option.splits)

lemma write_log_frame:
  "write_log w lg text st = (r, st') \<Longrightarrow> extends_with st st' [] []"
  by (auto simp: write_log_def extends_with_def split: if_splits option.splits)

lemma write_log_exn:
  "write_log w lg text st = (Some e, st') \<Longrightarrow> lg \<and> log_write w text = Some e"
  by (auto simp: write_log_def split: if_splits option.splits)

lemma write_log_loggable:
  "loggable w lg text \<Longrightarrow>
   write_log w lg text st = (None, if lg then emit (LogWritten text) st else st)"
  by (auto simp: write_log_def loggable_def split: option.splits)

lemma output_succeeds_print:
  "output_succeeds cfg w lg \<Longrightarrow> print_message cfg w m st = (None, emit (Shown m) st)"
  by (simp add: output_succeeds_def print_message_printable)

lemma output_succeeds_log:
  "output_succeeds cfg w lg \<Longrightarrow>
   write_log w lg text st = (None, if lg then emit (LogWritten text) st else st)"
  by (simp add: output_succeeds_def write_log_loggable)

lemma output_succeeds_console: "output_succeeds cfg w lg \<Longrightarrow> \<not> console_raises cfg w e"
  by (auto simp: output_succeeds_def printable_def console_raises_def)

lemma print_entries_frame:
  "print_entries cfg w i cmds st = (r, st') \<Longrightarrow> extends_with st st' [] []"
proof (induction cmds arbitrary: i st)
  case Nil
  then show ?case by simp
next
  case (Cons cmd cmds)
  obtain r1 st1 where p: "print_message cfg w (HistoryEntry i cmd) st = (r1, st1)"
    by (cases "print_message cfg w (HistoryEntry i cmd) st") auto
  note f = print_message_frame[OF p]
  show ?case
  proof (cases r1)
    case None
    then have "print_entries cfg w (Suc i) cmds st1 = (r, st')"
      using Cons.prems p by simp
    from extends_with_quiet_trans[OF f Cons.IH[OF this]] show ?thesis .
  next
    case (Some e)
    then show ?thesis using Cons.prems p f by simp
  qed
qed

lemma print_entries_exn:
  "print_entries cfg w i cmds st = (Some e, st') \<Longrightarrow> console_raises cfg w e"
proof (induction cmds arbitrary: i st)
  case Nil
  then show ?case by simp
next
  case (Cons cmd cmds)
  obtain r1 st1 where p: "print_message cfg w (HistoryEntry i cmd) st = (r1, st1)"
    by (cases "print_message cfg w (HistoryEntry i cmd) st") auto
  show ?case
  proof (cases r1)
    case None
    then have "print_entries cfg w (Suc i) cmds st1 = (Some e, st')"
      using Cons.prems p by simp
    then show ?thesis by (rule Cons.IH)
  next
    case (Some e')
    then show ?thesis using Cons.prems p print_message_exn[of cfg w "HistoryEntry i cmd" st e' st1]
      by simp
  qed
qed

lemma print_history_frame:
  assumes "print_history cfg w st = (r, st')"
  shows "extends_with st st' [] []"
proof (cases "session_history st = []")
  case True
  then show ?thesis using assms print_message_frame by (simp add: print_history_def)
next
  case False
  obtain r1 st1 where p: "print_message cfg w CommandHistoryHeader st = (r1, st1)"
    by (cases "print_message cfg w CommandHistoryHeader st") auto
  note f = print_message_frame[OF p]
  show ?thesis
  proof (cases r1)
    case None
    then have "print_entries cfg w 0 (session_history st) st1 = (r, st')"
      using assms False p by (simp add: print_history_def)
    from extends_with_quiet_trans[OF f print_entries_frame[OF this]] show ?thesis .
  next
    case (Some e)
    then show ?thesis using assms False p f by (simp add: print_history_def)
  qed
qed

lemma print_history_exn:
  assumes "print_history cfg w st = (Some e, st')"
  shows "console_raises cfg w e"
proof (cases "session_history st = []")
  case True
  then show ?thesis using assms print_message_exn by (simp add: print_history_def)
next
  case False
  obtain r1 st1 where p: "print_message cfg w CommandHistoryHeader st = (r1, st1)"
    by (cases "print_message cfg w CommandHistoryHeader st") auto
  show ?thesis
  proof (cases r1)
    case None
    then have "print_entries cfg w 0 (session_history st) st1 = (Some e, st')"
      using assms False p by (simp add: print_history_def)
    then show ?thesis by (rule print_entries_exn)
  next
    case (Some e')
    then show ?thesis
      using assms False p print_message_exn[of cfg w CommandHistoryHeader st e' st1]
      by (simp add: print_history_def)
  qed
qed

lemma handled_frame: "extends_with st (snd r) [] [] \<Longrightarrow> extends_with st (snd (handled r)) [] []"
  by (auto simp: handled_def split: prod.splits option.splits)

lemma handle_builtin_command_frame:
  assumes "handle_builtin_command cfg w st a = (h, st')"
  shows "extends_with st st' [] []"
proof -
  have help_frame: "extends_with st (snd (handled (print_help cfg w st))) [] []"
    by (intro handled_frame) (metis print_help_def print_message_frame prod.collapse)
  have history_frame: "extends_with st (snd (handled (print_history cfg w st))) [] []"
    by (intro handled_frame) (metis print_history_frame prod.collapse)
  have invalid_frame: "\<And>m. extends_with st (snd (handled (print_message cfg w m st))) [] []"
    by (intro handled_frame) (metis print_message_frame prod.collapse)
  have clear_frame: "extends_with st (emit ScreenCleared st) [] []"
    using extends_with_emit[of st ScreenCleared] by simp
  have "extends_with st (snd (handle_builtin_command cfg w st a)) [] []"
    using help_frame history_frame invalid_frame clear_frame
    by (auto simp: handle_builtin_command_def split: list.splits option.splits)
  then show ?thesis using assms by simp
qed

lemma handled_Inl: "handled r = (Inl e, s) \<Longrightarrow> r = (Some e, s)"
  by (auto simp: handled_def split: prod.splits option.splits)

lemma handle_builtin_command_exn:
  assumes "handle_builtin_command cfg w st a = (Inl e, st')"
  shows "console_raises cfg w e"
proof -
  have "handled (print_help cfg w st) = (Inl e, st') \<or>
        handled (print_history cfg w st) = (Inl e, st') \<or>
        (\<exists>m. handled (print_message cfg w m st) = (Inl e, st'))"
    using assms
    by (auto simp: handle_builtin_command_def split: list.splits option.splits if_splits)
  then have "print_help cfg w st = (Some e, st') \<or> print_history cfg w st = (Some e, st') \<or>
        (\<exists>m. print_message cfg w m st = (Some e, st'))"
    using handled_Inl by blast
  then show ?thesis
    using print_message_exn print_history_exn by (auto simp: print_help_def)
qed

subsection \<open>Hooks\<close>

lemma run_pre_hooks_frame:
  "run_pre_hooks cfg w a hooks i st = (r, st') \<Longrightarrow> extends_with st st' [] []"
proof (induction hooks arbitrary: i st)
  case Nil
  then show ?case by simp
next
  case (Cons hook hooks)
  let ?st1 = "emit (PreHookCalled i (command cfg) a) st"
  have f1: "extends_with st ?st1 [] []"
    using extends_with_emit[of st "PreHookCalled i (command cfg) a"] by simp
  show ?case
  proof (cases "hook (command cfg) a")
    case None
    then have "run_pre_hooks cfg w a hooks (Suc i) ?st1 = (r, st')"
      using Cons.prems by (simp add: Let_def)
    from extends_with_quiet_trans[OF f1 Cons.IH[OF this]] show ?thesis .
  next
    case (Some e)
    show ?thesis
    proof (cases "is_Exception e")
      case False
      then show ?thesis using Cons.prems Some f1 by (simp add: Let_def)
    next
      case True
      obtain r2 st2 where p: "print_message cfg w (PreHookError e) ?st1 = (r2, st2)"
        by (cases "print_message cfg w (PreHookError e) ?st1") auto
      note f2 = extends_with_quiet_trans[OF f1 print_message_frame[OF p]]
      show ?thesis
      proof (cases r2)
        case None
        then have "run_pre_hooks cfg w a hooks (Suc i) st2 = (r, st')"
          using Cons.prems Some True p by (simp add: Let_def)
        from extends_with_quiet_trans[OF f2 Cons.IH[OF this]] show ?thesis .
      next
        case (Some e')
        then show ?thesis using Cons.prems \<open>hook (command cfg) a = Some e\<close> True p f2
          by (simp add: Let_def)
      qed
    qed
  qed
qed

lemma run_pre_hooks_exn:
  "run_pre_hooks cfg w a hooks i st = (Some e, st') \<Longrightarrow>
     \<not> is_Exception e \<or> console_raises cfg w e"
proof (induction hooks arbitrary: i st)
  case Nil
  then show ?case by simp
next
  case (Cons hook hooks)
  let ?st1 = "emit (PreHookCalled i (command cfg) a) st"
  show ?case
  proof (cases "hook (command cfg) a")
    case None
    then have "run_pre_hooks cfg w a hooks (Suc i) ?st1 = (Some e, st')"
      using Cons.prems by (simp add: Let_def)
    then show ?thesis by (rule Cons.IH)
  next
    case (Some e0)
    show ?thesis
    proof (cases "is_Exception e0")
      case False
      then show ?thesis using Cons.prems Some by (auto simp: Let_def)
    next
      case True
      obtain r2 st2 where p: "print_message cfg w (PreHookError e0) ?st1 = (r2, st2)"
        by (cases "print_message cfg w (PreHookError e0) ?st1") auto
      show ?thesis
      proof (cases r2)
        case None
        then have "run_pre_hooks cfg w a hooks (Suc i) st2 = (Some e, st')"
          using Cons.prems Some True p by (simp add: Let_def)
        then show ?thesis by (rule Cons.IH)
      next
        case (Some e')
        then have "e' = e"
          using Cons.prems \<open>hook (command cfg) a = Some e0\<close> True p by (simp add: Let_def)
        then show ?thesis using print_message_exn p Some by blast
      qed
    qed
  qed
qed

lemma run_pre_hooks_all:
  "\<forall>hook\<in>set hooks. \<forall>e. hook (command cfg) a = Some e \<longrightarrow>
      is_Exception e \<and> printable cfg w (PreHookError e) \<Longrightarrow>
   run_pre_hooks cfg w a hooks i st
     = (None, st\<lparr>trace := trace st @ pre_hook_events cfg a hooks i\<rparr>)"
  by (induction hooks arbitrary: i st)
     (auto simp: Let_def emit_def print_message_printable split: option.splits)

lemma run_pre_hooks_softly:
  "pre_hooks_fail_softly cfg w a \<Longrightarrow>
   run_pre_hooks cfg w a (pre_command_hooks cfg) i st
     = (None, st\<lparr>trace := trace st @ pre_hook_events cfg a (pre_command_hooks cfg) i\<rparr>)"
  unfolding pre_hooks_fail_softly_def by (rule run_pre_hooks_all)

lemma run_pre_hooks_append:
  assumes "\<forall>hook\<in>set hs1. \<forall>e. hook (command cfg) a = Some e \<longrightarrow>
      is_Exception e \<and> printable cfg w (PreHookError e)"
  shows "run_pre_hooks cfg w a (hs1 @ hs2) i st
     = run_pre_hooks cfg w a hs2 (i + length hs1)
         (st\<lparr>trace := trace st @ pre_hook_events cfg a hs1 i\<rparr>)"
  using assms
  by (induction hs1 arbitrary: i st)
     (auto simp: Let_def emit_def print_message_printable split: option.splits)

lemma run_post_hooks_frame:
  "run_post_hooks cfg w a rc out err hooks i st = (r, st') \<Longrightarrow> \<exists>p. extends_with st st' [] p"
proof (induction hooks arbitrary: i st)
  case Nil
  then show ?case by (auto simp: extends_with_def)
next
  case (Cons hook hooks)
  let ?ev = "PostHookCalled i (command cfg) a rc out err"
  let ?st1 = "emit ?ev st"
  have f1: "extends_with st ?st1 [] [i]"
    using extends_with_emit[of st ?ev] by simp
  show ?case
  proof (cases "hook (command cfg) a rc out err")
    case None
    then have "run_post_hooks cfg w a rc out err hooks (Suc i) ?st1 = (r, st')"
      using Cons.prems by (simp add: Let_def)
    from Cons.IH[OF this] obtain p where "extends_with ?st1 st' [] p" by blast
    from extends_with_trans[OF f1 this] show ?thesis by auto
  next
    case (Some e)
    show ?thesis
    proof (cases "is_Exception e")
      case False
      then show ?thesis using Cons.prems Some f1 by (auto simp: Let_def)
    next
      case True
      obtain r2 st2 where p: "print_message cfg w (PostHookError e) ?st1 = (r2, st2)"
        by (cases "print_message cfg w (PostHookError e) ?st1") auto
      note f2 = extends_with_trans_quiet[OF f1 print_message_frame[OF p]]
      show ?thesis
      proof (cases r2)
        case None
        then have "run_post_hooks cfg w a rc out err hooks (Suc i) st2 = (r, st')"
          using Cons.prems Some True p by (simp add: Let_def)
        from Cons.IH[OF this] obtain q where "extends_with st2 st' [] q" by blast
        from extends_with_trans[OF f2 this] show ?thesis by auto
      next
        case (Some e')
        then show ?thesis
          using Cons.prems \<open>hook (command cfg) a rc out err = Some e\<close> True p f2
          by (auto simp: Let_def)
      qed
    qed
  qed
qed

lemma run_post_hooks_all:
  "\<forall>hook\<in>set hooks. \<forall>e. hook (command cfg) a rc out err = Some e \<longrightarrow>
      is_Exception e \<and> printable cfg w (PostHookError e) \<Longrightarrow>
   run_post_hooks cfg w a rc out err hooks i st
     = (None, st\<lparr>trace := trace st @ post_hook_events cfg a rc out err hooks i\<rparr>)"
  by (induction hooks arbitrary: i st)
     (auto simp: Let_def emit_def print_message_printable split: option.splits)

lemma run_post_hooks_softly:
  "post_hooks_fail_softly cfg w a \<Longrightarrow>
   run_post_hooks cfg w a rc out err (post_command_hooks cfg) i st
     = (None, st\<lparr>trace := trace st
          @ post_hook_events cfg a rc out err (post_command_hooks cfg) i\<rparr>)"
  unfolding post_hooks_fail_softly_def by (intro run_post_hooks_all) blast

lemma run_post_hooks_append:
  assumes "\<forall>hook\<in>set hs1. \<forall>e. hook (command cfg) a rc out err = Some e \<longrightarrow>
      is_Exception e \<and> printable cfg w (PostHookError e)"
  shows "run_post_hooks cfg w a rc out err (hs1 @ hs2) i st
     = run_post_hooks cfg w a rc out err hs2 (i + length hs1)
         (st\<lparr>trace := trace st @ post_hook_events cfg a rc out err hs1 i\<rparr>)"
  using assms
  by (induction hs1 arbitrary: i st)
     (auto simp: Let_def emit_def print_message_printable split: option.splits)

subsection \<open>The execution of a command\<close>

lemma wait_for_command_frame:
  assumes "wait_for_command cfg w p st = (r, st')"
  shows "extends_with st st' [] []"
proof (cases "communicate p (timeout cfg)")
  case (Inr res)
  then show ?thesis using assms by (auto simp: wait_for_command_def split: prod.splits)
next
  case (Inl e)
  show ?thesis
  proof (cases "is_TimeoutError e")
    case False
    then show ?thesis using assms Inl by (simp add: wait_for_command_def)
  next
    case True
    obtain r1 st1 where p: "print_message cfg w (CommandTimedOut (timeout cfg)) (emit Killed st)
        = (r1, st1)"
      by (cases "print_message cfg w (CommandTimedOut (timeout cfg)) (emit Killed st)") auto
    have "extends_with st (emit Killed st) [] []"
      using extends_with_emit[of st Killed] by simp
    from extends_with_quiet_trans[OF this print_message_frame[OF p]]
    show ?thesis using assms Inl True p
      by (cases r1) (auto simp: wait_for_command_def)
  qed
qed

lemma wait_for_command_exn:
  assumes "wait_for_command cfg w p st = (Inl e, st')"
  shows "wait_raises p = Some e \<or> (e = TimeoutExpired \<and> wait_raises p = None) \<or>
         console_raises cfg w e"
proof (cases "communicate p (timeout cfg)")
  case (Inr res)
  then show ?thesis using assms by (auto simp: wait_for_command_def split: prod.splits)
next
  case (Inl e0)
  show ?thesis
  proof (cases "is_TimeoutError e0")
    case False
    then have "e0 = e" using assms Inl by (simp add: wait_for_command_def)
    then show ?thesis using Inl
      by (auto simp: communicate_def split: option.splits if_splits)
  next
    case True
    obtain r1 st1 where p: "print_message cfg w (CommandTimedOut (timeout cfg)) (emit Killed st)
        = (r1, st1)"
      by (cases "print_message cfg w (CommandTimedOut (timeout cfg)) (emit Killed st)") auto
    then have "r1 = Some e"
      using assms Inl True by (cases r1) (auto simp: wait_for_command_def)
    then show ?thesis using print_message_exn p by blast
  qed
qed

lemma handle_output_frame:
  assumes "handle_output w lg cb called data st = (r, st')"
    and "called = StdoutCallback \<or> called = StderrCallback"
  shows "extends_with st st' [] []"
proof (cases "data = []")
  case True
  then show ?thesis using assms by (simp add: handle_output_def)
next
  case False
  let ?st1 = "emit (called data) st"
  have f1: "extends_with st ?st1 [] []"
    using extends_with_emit[of st "called data"] assms(2) by auto
  show ?thesis
  proof (cases "cb data")
    case (Some e)
    then show ?thesis using assms(1) False f1 by (simp add: handle_output_def Let_def)
  next
    case None
    show ?thesis
    proof (cases lg)
      case False
      then show ?thesis using assms(1) \<open>data \<noteq> []\<close> None f1
        by (simp add: handle_output_def Let_def)
    next
      case True
      show ?thesis
      proof (cases "decode w data")
        case (Inl e)
        then show ?thesis using assms(1) \<open>data \<noteq> []\<close> None True f1
          by (simp add: handle_output_def Let_def)
      next
        case (Inr s)
        then have "write_log w lg s ?st1 = (r, st')"
          using assms(1) \<open>data \<noteq> []\<close> None True by (simp add: handle_output_def Let_def)
        from extends_with_quiet_trans[OF f1 write_log_frame[OF this]] show ?thesis .
      qed
    qed
  qed
qed

lemma handle_output_exn:
  assumes "handle_output w lg cb called data st = (Some e, st')"
  shows "cb data = Some e \<or> decode w data = Inl e \<or> (lg \<and> (\<exists>text. log_write w text = Some e))"
proof -
  have "cb data = Some e \<or> decode w data = Inl e \<or>
        (\<exists>s st1. write_log w lg s st1 = (Some e, st'))"
    using assms
    by (auto simp: handle_output_def Let_def split: if_splits option.splits sum.splits)
  then show ?thesis using write_log_exn by blast
qed

lemma run_child_frame:
  assumes "run_child cfg w lg full st = (r, st')"
  shows "extends_with st st' (case shlex_split full of Inl e \<Rightarrow> [] | Inr argv \<Rightarrow> [argv]) []"
proof (cases "shlex_split full")
  case (Inl e)
  then show ?thesis using assms by (simp add: run_child_def)
next
  case (Inr argv)
  let ?st0 = "emit (PopenCalled argv) st"
  have f0: "extends_with st ?st0 [argv] []"
    using extends_with_emit[of st "PopenCalled argv"] by simp
  show ?thesis
  proof (cases "popen w argv")
    case (Inl e)
    then show ?thesis using assms Inr f0 by (auto simp: run_child_def)
  next
    case p: (Inr p)
    obtain r1 st1 where w1: "wait_for_command cfg w p ?st0 = (r1, st1)"
      by (cases "wait_for_command cfg w p ?st0") auto
    note f1 = extends_with_trans_quiet[OF f0 wait_for_command_frame[OF w1]]
    show ?thesis
    proof (cases r1)
      case (Inl e)
      then show ?thesis using assms Inr p w1 f1 by (auto simp: run_child_def)
    next
      case res: (Inr res)
      obtain out err rc where res_eq: "res = (out, err, rc)" by (cases res) auto
      obtain r2 st2 where h1: "handle_output w lg (stdout_callback cfg) StdoutCallback out st1 = (r2, st2)"
        by (cases "handle_output w lg (stdout_callback cfg) StdoutCallback out st1") auto
      have f2: "extends_with st st2 [argv] []"
        using extends_with_trans_quiet[OF f1 handle_output_frame[OF h1]] by simp
      show ?thesis
      proof (cases r2)
        case (Some e)
        then show ?thesis using assms Inr p w1 res res_eq h1 f2 by (auto simp: run_child_def)
      next
        case None
        obtain r3 st3 where h2: "handle_output w lg (stderr_callback cfg) StderrCallback err st2 = (r3, st3)"
          by (cases "handle_output w lg (stderr_callback cfg) StderrCallback err st2") auto
        have f3: "extends_with st st3 [argv] []"
          using extends_with_trans_quiet[OF f2 handle_output_frame[OF h2]] by simp
        show ?thesis
        proof (cases r3)
          case (Some e)
          then show ?thesis using assms Inr p w1 res res_eq h1 None h2 f3
            by (auto simp: run_child_def)
        next
          case n3: None
          obtain r4 st4 where rcm: "(if show_return_code cfg \<and> rc \<noteq> 0
              then print_message cfg w (ReturnCode rc) st3 else (None, st3)) = (r4, st4)"
            by (cases "if show_return_code cfg \<and> rc \<noteq> 0
              then print_message cfg w (ReturnCode rc) st3 else (None, st3)") auto
          have "extends_with st3 st4 [] []"
            using rcm print_message_frame by (auto split: if_splits)
          from extends_with_trans_quiet[OF f3 this] have f4: "extends_with st st4 [argv] []" .
          have "st' = st4"
            using assms Inr p w1 res res_eq h1 None h2 n3 rcm
            by (cases r4) (auto simp: run_child_def)
          then show ?thesis using f4 Inr by simp
        qed
      qed
    qed
  qed
qed

lemma run_command_frame:
  assumes "run_command cfg w lg full a st = (r, st')"
  shows "\<exists>p. extends_with st st' (case shlex_split full of Inl e \<Rightarrow> [] | Inr argv \<Rightarrow> [argv]) p"
proof -
  obtain r1 st1 where c: "run_child cfg w lg full st = (r1, st1)"
    by (cases "run_child cfg w lg full st") auto
  note f1 = run_child_frame[OF c]
  show ?thesis
  proof (cases r1)
    case (Inl e)
    then show ?thesis using assms c f1 by (auto simp: run_command_def)
  next
    case (Inr res)
    obtain out err rc where res_eq: "res = (out, err, rc)" by (cases res) auto
    have "run_post_hooks cfg w a rc out err (post_command_hooks cfg) 0 st1 = (r, st')"
      using assms c Inr res_eq by (simp add: run_command_def)
    from run_post_hooks_frame[OF this] obtain q where "extends_with st1 st' [] q" by blast
    from extends_with_trans[OF f1 this] show ?thesis by auto
  qed
qed

lemma run_command_post_hook_calls:
  assumes "run_command cfg w lg full a st = (r, st')" and "run_child cfg w lg full st = (rc, st1)"
  shows "(\<forall>e. rc = Inl e \<longrightarrow>
            r = Some e \<and> st' = st1 \<and> post_hook_calls (trace st') = post_hook_calls (trace st)) \<and>
         (\<forall>res. rc = Inr res \<longrightarrow> post_hooks_fail_softly cfg w a \<longrightarrow>
            r = None \<and>
            post_hook_calls (trace st')
              = post_hook_calls (trace st) @ [0..<length (post_command_hooks cfg)])"
proof -
  have frame: "post_hook_calls (trace st1) = post_hook_calls (trace st)"
    using extends_with_fields(4)[OF run_child_frame[OF assms(2)]] by simp
  have failed: "r = Some e \<and> st' = st1 \<and> post_hook_calls (trace st') = post_hook_calls (trace st)"
    if "rc = Inl e" for e
    using that assms frame by (simp add: run_command_def)
  have reached: "r = None \<and> post_hook_calls (trace st')
         = post_hook_calls (trace st) @ [0..<length (post_command_hooks cfg)]"
    if res: "rc = Inr res" and soft: "post_hooks_fail_softly cfg w a" for res
  proof -
    obtain out err code where res_eq: "res = (out, err, code)" by (cases res) auto
    have "run_post_hooks cfg w a code out err (post_command_hooks cfg) 0 st1 = (r, st')"
      using assms res res_eq by (simp add: run_command_def)
    then have eq: "(r, st') = (None, st1\<lparr>trace := trace st1
            @ post_hook_events cfg a code out err (post_command_hooks cfg) 0\<rparr>)"
      using run_post_hooks_softly[OF soft, of code out err 0 st1] by simp
    then show ?thesis using frame by simp
  qed
  show ?thesis using failed reached by blast
qed

subsection \<open>Exceptions that leave the execution of a command\<close>

lemma shlex_error_is_ValueError:
  "read_tokens s tok q cs = Inl e \<Longrightarrow>
     e = ValueError ''No closing quotation'' \<or> e = ValueError ''No escaped character''"
  by (induction s tok q cs rule: read_tokens.induct)
     (auto simp: emit_token_def split: if_splits sum.splits lex_state.splits)

lemma shlex_split_error_is_Exception: "shlex_split s = Inl e \<Longrightarrow> is_Exception e"
  unfolding shlex_split_def by (drule shlex_error_is_ValueError) auto

lemma run_child_exn:
  assumes "raises_only_Exceptions cfg w" and "output_succeeds cfg w lg"
    and "run_child cfg w lg full st = (Inl e, st')"
  shows "is_Exception e"
proof (cases "shlex_split full")
  case (Inl e')
  then show ?thesis using assms(3) shlex_split_error_is_Exception[OF Inl]
    by (simp add: run_child_def)
next
  case (Inr argv)
  note quiet = output_succeeds_console[OF assms(2)]
  have nolog: "\<And>text e. lg \<Longrightarrow> log_write w text \<noteq> Some e"
    using assms(2) by (auto simp: output_succeeds_def loggable_def)
  show ?thesis
  proof (cases "popen w argv")
    case (Inl e')
    then show ?thesis using assms Inr by (auto simp: run_child_def raises_only_Exceptions_def)
  next
    case p: (Inr p)
    obtain r1 st1 where w1: "wait_for_command cfg w p (emit (PopenCalled argv) st) = (r1, st1)"
      by (cases "wait_for_command cfg w p (emit (PopenCalled argv) st)") auto
    show ?thesis
    proof (cases r1)
      case (Inl e')
      then have "e' = e" using assms(3) Inr p w1 by (simp add: run_child_def)
      then have "wait_raises p = Some e \<or> (e = TimeoutExpired \<and> wait_raises p = None)"
        using wait_for_command_exn w1 Inl quiet by blast
      moreover have "\<forall>e. wait_raises p = Some e \<longrightarrow> is_Exception e"
        using assms(1) p by (auto simp: raises_only_Exceptions_def)
      ultimately show ?thesis by auto
    next
      case res: (Inr res)
      obtain out err rc where res_eq: "res = (out, err, rc)" by (cases res) auto
      obtain r2 st2 where h1: "handle_output w lg (stdout_callback cfg) StdoutCallback out st1 = (r2, st2)"
        by (cases "handle_output w lg (stdout_callback cfg) StdoutCallback out st1") auto
      show ?thesis
      proof (cases r2)
        case (Some e')
        then have "e' = e" using assms(3) Inr p w1 res res_eq h1 by (simp add: run_child_def)
        then have "stdout_callback cfg out = Some e \<or> decode w out = Inl e"
          using handle_output_exn h1 Some nolog by blast
        then show ?thesis using assms(1)
          by (auto simp: raises_only_Exceptions_def)
      next
        case None
        obtain r3 st3 where h2: "handle_output w lg (stderr_callback cfg) StderrCallback err st2 = (r3, st3)"
          by (cases "handle_output w lg (stderr_callback cfg) StderrCallback err st2") auto
        show ?thesis
        proof (cases r3)
          case (Some e')
          then have "e' = e" using assms(3) Inr p w1 res res_eq h1 None h2
            by (simp add: run_child_def)
          then have "stderr_callback cfg err = Some e \<or> decode w err = Inl e"
            using handle_output_exn h2 Some nolog by blast
          then show ?thesis using assms(1)
            by (auto simp: raises_only_Exceptions_def)
        next
          case n3: None
          then show ?thesis
            using assms(3) Inr p w1 res res_eq h1 None h2 output_succeeds_print[OF assms(2)]
            by (auto simp: run_child_def split: if_splits)
        qed
      qed
    qed
  qed
qed

lemma run_command_exn:
  assumes "raises_only_Exceptions cfg w" and "output_succeeds cfg w lg"
    and "run_command cfg w lg full a st = (Some e, st')"
  shows "is_Exception e"
proof -
  obtain r1 st1 where c: "run_child cfg w lg full st = (r1, st1)"
    by (cases "run_child cfg w lg full st") auto
  show ?thesis
  proof (cases r1)
    case (Inl e')
    then have "e' = e" using assms(3) c by (simp add: run_command_def)
    then show ?thesis using run_child_exn[OF assms(1,2)] c Inl by blast
  next
    case (Inr res)
    obtain out err rc where res_eq: "res = (out, err, rc)" by (cases res) auto
    have soft: "post_hooks_fail_softly cfg w a"
      using assms(1,2)
      by (auto simp: post_hooks_fail_softly_def raises_only_Exceptions_def output_succeeds_def)
    have "run_post_hooks cfg w a rc out err (post_command_hooks cfg) 0 st1 = (Some e, st')"
      using assms(3) c Inr res_eq by (simp add: run_command_def)
    then show ?thesis using run_post_hooks_softly[OF soft, of rc out err 0 st1] by simp
  qed
qed

lemma report_and_count_cases:
  "report_and_count cfg w m st = Continue st' \<Longrightarrow>
     command_counter st' = command_counter st + 1 \<and> session_history st' = session_history st \<and>
     trace st' = trace st @ [Shown m]"
  "report_and_count cfg w m st = Raise e st' \<Longrightarrow> st' = st \<and> console_raises cfg w e"
  "report_and_count cfg w m st \<noteq> Break st'"
  by (auto simp: report_and_count_def print_message_def console_raises_def
      split: prod.splits option.splits if_splits)

lemma report_and_count_printable:
  "printable cfg w m \<Longrightarrow>
   report_and_count cfg w m st = Continue (increment_counter (emit (Shown m) st))"
  by (simp add: report_and_count_def print_message_printable)

text \<open>
  Every way through the execution of a command: the outcome, the session at the end of the
  body of the \<^verbatim>\<open>try\<close>, and what was added to the trace up to there.
\<close>

lemma execute_command_cases:
  obtains
    (hooks) e st1 where
      "run_pre_hooks cfg w a (pre_command_hooks cfg) 0
         (st\<lparr>session_history := session_history st @ [a]\<rparr>) = (Some e, st1)"
      "execute_command cfg w lg st a = Raise e st1"
  | (returned) st1 st2 where
      "run_pre_hooks cfg w a (pre_command_hooks cfg) 0
         (st\<lparr>session_history := session_history st @ [a]\<rparr>) = (None, st1)"
      "run_command cfg w lg (command cfg @ '' '' @ a) a st1 = (None, st2)"
      "execute_command cfg w lg st a = Continue (increment_counter st2)"
  | (caught) st1 e st2 m where
      "run_pre_hooks cfg w a (pre_command_hooks cfg) 0
         (st\<lparr>session_history := session_history st @ [a]\<rparr>) = (None, st1)"
      "run_command cfg w lg (command cfg @ '' '' @ a) a st1 = (Some e, st2)"
      "is_Exception e"
      "m = (if is_FileNotFoundError e then CommandNotFound (command cfg @ '' '' @ a)
            else ErrorExecuting e)"
      "execute_command cfg w lg st a = report_and_count cfg w m st2"
  | (escaped) st1 e st2 where
      "run_pre_hooks cfg w a (pre_command_hooks cfg) 0
         (st\<lparr>session_history := session_history st @ [a]\<rparr>) = (None, st1)"
      "run_command cfg w lg (command cfg @ '' '' @ a) a st1 = (Some e, st2)"
      "\<not> is_Exception e"
      "execute_command cfg w lg st a = Raise e st2"
proof -
  obtain r1 st1 where pre: "run_pre_hooks cfg w a (pre_command_hooks cfg) 0
       (st\<lparr>session_history := session_history st @ [a]\<rparr>) = (r1, st1)"
    by (cases "run_pre_hooks cfg w a (pre_command_hooks cfg) 0
       (st\<lparr>session_history := session_history st @ [a]\<rparr>)") auto
  obtain r2 st2 where rc: "run_command cfg w lg (command cfg @ '' '' @ a) a st1 = (r2, st2)"
    by (cases "run_command cfg w lg (command cfg @ '' '' @ a) a st1") auto
  show ?thesis
  proof (cases r1)
    case (Some e)
    then show ?thesis using pre hooks by (simp add: execute_command_def)
  next
    case None
    show ?thesis
    proof (cases r2)
      case n2: None
      then show ?thesis using pre None rc returned by (simp add: execute_command_def Let_def)
    next
      case (Some e)
      show ?thesis
      proof (cases "is_Exception e")
        case True
        then show ?thesis
          using pre None rc Some caught[of st1 e st2]
          by (auto simp: execute_command_def Let_def is_FileNotFoundError_def)
      next
        case False
        then have "\<not> is_FileNotFoundError e" by (auto simp: is_FileNotFoundError_def)
        then show ?thesis
          using pre None rc Some False escaped[of st1 e st2]
          by (simp add: execute_command_def Let_def)
      qed
    qed
  qed
qed

lemma execute_command_frame:
  "session_history (outcome_session (execute_command cfg w lg st a)) = session_history st @ [a] \<and>
   command_counter (outcome_session (execute_command cfg w lg st a)) =
     (case execute_command cfg w lg st a of
        Continue _ \<Rightarrow> command_counter st + 1 | _ \<Rightarrow> command_counter st)"
proof (cases rule: execute_command_cases[of cfg w a st lg])
  case (hooks e st1)
  then show ?thesis
    using extends_with_history[OF run_pre_hooks_frame[OF hooks(1)]] by simp
next
  case (returned st1 st2)
  obtain p where "extends_with st1 st2 (case shlex_split (command cfg @ '' '' @ a) of
      Inl e \<Rightarrow> [] | Inr argv \<Rightarrow> [argv]) p"
    using run_command_frame[OF returned(2)] by blast
  from extends_with_quiet_trans[OF run_pre_hooks_frame[OF returned(1)] this]
  show ?thesis using returned(3) by (auto dest: extends_with_history)
next
  case (caught st1 e st2 m)
  obtain p where "extends_with st1 st2 (case shlex_split (command cfg @ '' '' @ a) of
      Inl e \<Rightarrow> [] | Inr argv \<Rightarrow> [argv]) p"
    using run_command_frame[OF caught(2)] by blast
  from extends_with_quiet_trans[OF run_pre_hooks_frame[OF caught(1)] this]
  have st2: "command_counter st2 = command_counter st" "session_history st2 = session_history st @ [a]"
    by (auto dest: extends_with_history)
  show ?thesis
    using report_and_count_cases[of cfg w m st2] caught(5) st2
    by (cases "report_and_count cfg w m st2") auto
next
  case (escaped st1 e st2)
  obtain p where "extends_with st1 st2 (case shlex_split (command cfg @ '' '' @ a) of
      Inl e \<Rightarrow> [] | Inr argv \<Rightarrow> [argv]) p"
    using run_command_frame[OF escaped(2)] by blast
  from extends_with_quiet_trans[OF run_pre_hooks_frame[OF escaped(1)] this]
  show ?thesis using escaped(4) by (auto dest: extends_with_history)
qed

lemma execute_command_history:
  "session_history (outcome_session (execute_command cfg w lg st a)) = session_history st @ [a]"
  using execute_command_frame by blast

lemma execute_command_counter:
  "command_counter (outcome_session (execute_command cfg w lg st a)) =
     (case execute_command cfg w lg st a of
        Continue _ \<Rightarrow> command_counter st + 1 | _ \<Rightarrow> command_counter st)"
  using execute_command_frame by blast

lemma execute_command_not_Break: "execute_command cfg w lg st a \<noteq> Break st'"
  by (cases rule: execute_command_cases[of cfg w a st lg])
     (auto simp: report_and_count_cases(3))

lemma execute_command_Raise:
  assumes "execute_command cfg w lg st a = Raise e st'"
  shows "\<not> is_Exception e \<or> console_raises cfg w e"
proof (cases rule: execute_command_cases[of cfg w a st lg])
  case (hooks e1 st1)
  then show ?thesis using assms run_pre_hooks_exn[of cfg w a _ 0 _ e1 st1] by auto
next
  case (returned st1 st2)
  then show ?thesis using assms by simp
next
  case (caught st1 e1 st2 m)
  then show ?thesis using assms report_and_count_cases(2)[of cfg w m st2 e st'] by simp
next
  case (escaped st1 e1 st2)
  then show ?thesis using assms by simp
qed

lemma execute_command_Continue:
  assumes "raises_only_Exceptions cfg w" and "output_succeeds cfg w lg"
  shows "\<exists>st'. execute_command cfg w lg st a = Continue st'"
proof -
  have soft: "pre_hooks_fail_softly cfg w a"
    using assms
    by (auto simp: pre_hooks_fail_softly_def raises_only_Exceptions_def output_succeeds_def)
  show ?thesis
  proof (cases rule: execute_command_cases[of cfg w a st lg])
    case (hooks e st1)
    then show ?thesis using run_pre_hooks_softly[OF soft, of 0] by simp
  next
    case (returned st1 st2)
    then show ?thesis by simp
  next
    case (caught st1 e st2 m)
    then show ?thesis
      using report_and_count_printable[of cfg w m st2] assms(2)
      by (simp add: output_succeeds_def)
  next
    case (escaped st1 e st2)
    then show ?thesis using run_command_exn[OF assms escaped(2)] by simp
  qed
qed

lemma execute_command_popen_calls:
  "popen_calls (trace (outcome_session (execute_command cfg w lg st a))) =
     popen_calls (trace st)
       @ (case fst (run_pre_hooks cfg w a (pre_command_hooks cfg) 0
                      (st\<lparr>session_history := session_history st @ [a]\<rparr>)) of
            Some e \<Rightarrow> []
          | None \<Rightarrow>
              (case shlex_split (command cfg @ '' '' @ a) of Inl e \<Rightarrow> [] | Inr argv \<Rightarrow> [argv]))"
proof (cases rule: execute_command_cases[of cfg w a st lg])
  case (hooks e st1)
  then show ?thesis
    using extends_with_history[OF run_pre_hooks_frame[OF hooks(1)]] by simp
next
  case (returned st1 st2)
  obtain p where "extends_with st1 st2 (case shlex_split (command cfg @ '' '' @ a) of
      Inl e \<Rightarrow> [] | Inr argv \<Rightarrow> [argv]) p"
    using run_command_frame[OF returned(2)] by blast
  from extends_with_quiet_trans[OF run_pre_hooks_frame[OF returned(1)] this]
  show ?thesis using returned(1,3) by (auto dest: extends_with_history)
next
  case (caught st1 e st2 m)
  obtain p where "extends_with st1 st2 (case shlex_split (command cfg @ '' '' @ a) of
      Inl e \<Rightarrow> [] | Inr argv \<Rightarrow> [argv]) p"
    using run_command_frame[OF caught(2)] by blast
  from extends_with_quiet_trans[OF run_pre_hooks_frame[OF caught(1)] this]
  have st2: "popen_calls (trace st2) = popen_calls (trace st)
      @ (case shlex_split (command cfg @ '' '' @ a) of Inl e \<Rightarrow> [] | Inr argv \<Rightarrow> [argv])"
    by (auto dest: extends_with_history)
  have "popen_calls (trace (outcome_session (report_and_count cfg w m st2)))
      = popen_calls (trace st2)"
    using report_and_count_cases(1,2)[of cfg w m st2] report_and_count_cases(3)[of cfg w m st2]
    by (cases "report_and_count cfg w m st2") auto
  then show ?thesis using caught(1,5) st2 by simp
next
  case (escaped st1 e st2)
  obtain p where "extends_with st1 st2 (case shlex_split (command cfg @ '' '' @ a) of
      Inl e \<Rightarrow> [] | Inr argv \<Rightarrow> [argv]) p"
    using run_command_frame[OF escaped(2)] by blast
  from extends_with_quiet_trans[OF run_pre_hooks_frame[OF escaped(1)] this]
  show ?thesis using escaped(1,4) by (auto dest: extends_with_history)
qed

subsection \<open>Tokens of a command line, and integers\<close>

lemma emit_token_Inl [simp]: "emit_token tok quoted (Inl e) = Inl e"
  by (simp add: emit_token_def)

lemma read_tokens_then_space:
  "read_tokens s tok q xs = Inr ts \<Longrightarrow>
   read_tokens s tok q (xs @ CHR '' '' # ys) =
     (case read_tokens InSpace [] False ys of Inl e \<Rightarrow> Inl e | Inr us \<Rightarrow> Inr (ts @ us))"
proof (induction s tok q xs arbitrary: ts rule: read_tokens.induct)
  case (1 tok quoted)
  then show ?case
    by (auto simp: emit_token_def shlex_whitespace_def split: if_splits sum.splits)
next
  case (2 tok quoted)
  then show ?case
    by (auto simp: emit_token_def shlex_whitespace_def split: if_splits sum.splits)
next
  case (3 q tok quoted)
  then show ?case by simp
next
  case (4 es tok quoted)
  then show ?case by simp
next
  case (5 tok quoted c cs)
  then show ?case
    by (auto simp: emit_token_def split: if_splits sum.splits)
next
  case (6 tok quoted c cs)
  then show ?case
    by (auto simp: emit_token_def split: if_splits sum.splits)
next
  case (7 q tok quoted c cs)
  then show ?case by (auto split: if_splits)
next
  case (8 es tok quoted c cs)
  show ?case
  proof (cases es)
    case (InQuote x)
    show ?thesis
    proof (cases "c \<noteq> CHR 0x5C \<and> c \<noteq> x")
      case True
      then show ?thesis using "8.IH"(3)[OF InQuote, of ts] "8.prems" InQuote by simp
    next
      case False
      then show ?thesis using "8.IH"(3)[OF InQuote, of ts] "8.prems" InQuote by auto
    qed
  qed (use 8 in auto)
qed

lemma shlex_split_command_line:
  assumes "shlex_split base = Inr bs"
  shows "shlex_split (base @ '' '' @ a) =
     (case shlex_split a of Inl e \<Rightarrow> Inl e | Inr us \<Rightarrow> Inr (bs @ us))"
  using read_tokens_then_space[of InSpace "[]" False base bs a] assms
  by (simp add: shlex_split_def)

text \<open>
  The lexer fails exactly when the input ends inside a quote or right after a backslash, and
  the error says which.
\<close>

lemma read_tokens_lexer_state:
  "case lexer_state s cs of
     InQuote q \<Rightarrow> read_tokens s tok quoted cs = Inl (ValueError ''No closing quotation'')
   | InEscape es \<Rightarrow> read_tokens s tok quoted cs = Inl (ValueError ''No escaped character'')
   | _ \<Rightarrow> (\<exists>ts. read_tokens s tok quoted cs = Inr ts)"
proof (induction s tok quoted cs rule: read_tokens.induct)
  case (1 tok quoted)
  then show ?case by (simp add: emit_token_def)
next
  case (2 tok quoted)
  then show ?case by (simp add: emit_token_def)
next
  case (3 q tok quoted)
  then show ?case by simp
next
  case (4 es tok quoted)
  then show ?case by simp
next
  case (5 tok quoted c cs)
  show ?case
  proof (cases "shlex_whitespace c")
    case True
    then show ?thesis using "5.IH"(1,2)
      by (auto simp: emit_token_def split: lex_state.splits)
  next
    case ws: False
    show ?thesis
    proof (cases "shlex_escape c")
      case True
      then show ?thesis using ws "5.IH"(3) by (auto split: lex_state.splits)
    next
      case esc: False
      show ?thesis
      proof (cases "shlex_quote c")
        case True
        then show ?thesis using ws esc "5.IH"(4) by (auto split: lex_state.splits)
      next
        case False
        then show ?thesis using ws esc "5.IH"(5) by (auto split: lex_state.splits)
      qed
    qed
  qed
next
  case (6 tok quoted c cs)
  show ?case
  proof (cases "shlex_whitespace c")
    case True
    then show ?thesis using "6.IH"(1,2)
      by (auto simp: emit_token_def split: lex_state.splits)
  next
    case ws: False
    show ?thesis
    proof (cases "shlex_quote c")
      case True
      then show ?thesis using ws "6.IH"(3) by (auto split: lex_state.splits)
    next
      case qu: False
      show ?thesis
      proof (cases "shlex_escape c")
        case True
        then show ?thesis using ws qu "6.IH"(4) by (auto split: lex_state.splits)
      next
        case False
        then show ?thesis using ws qu "6.IH"(5) by (auto split: lex_state.splits)
      qed
    qed
  qed
next
  case (7 q tok quoted c cs)
  show ?case
  proof (cases "c = q")
    case True
    then show ?thesis using "7.IH"(1) by (auto split: lex_state.splits)
  next
    case nq: False
    show ?thesis
    proof (cases "shlex_escape c \<and> q = CHR 0x22")
      case True
      then show ?thesis using nq "7.IH"(2) by (auto split: lex_state.splits)
    next
      case False
      then show ?thesis using nq "7.IH"(3) by (auto split: lex_state.splits)
    qed
  qed
next
  case (8 es tok quoted c cs)
  show ?case
  proof (cases es)
    case (InQuote x)
    show ?thesis
    proof (cases "c \<noteq> CHR 0x5C \<and> c \<noteq> x")
      case True
      then show ?thesis using "8.IH"(3)[OF InQuote] InQuote
        by (auto split: lex_state.splits)
    next
      case False
      then show ?thesis using "8.IH"(3)[OF InQuote] InQuote
        by (auto split: lex_state.splits)
    qed
  next
    case InSpace
    then show ?thesis using "8.IH"(1) by (auto split: lex_state.splits)
  next
    case InWord
    then show ?thesis using "8.IH"(2) by (auto split: lex_state.splits)
  next
    case (InEscape x)
    then show ?thesis using "8.IH"(4) by (auto split: lex_state.splits)
  qed
qed

lemma unterminated_quote_fails:
  assumes "unterminated_quote s"
  shows "\<exists>msg. shlex_split s = Inl (ValueError msg)"
proof (cases "lexer_state InSpace s")
  case (InQuote q)
  then show ?thesis
    using read_tokens_lexer_state[where s = InSpace and cs = s and tok = "[]" and quoted = False] by (simp add: shlex_split_def)
next
  case (InEscape es)
  then show ?thesis
    using read_tokens_lexer_state[where s = InSpace and cs = s and tok = "[]" and quoted = False] by (simp add: shlex_split_def)
qed (use assms in \<open>simp_all add: unterminated_quote_def\<close>)

lemma open_quote_unterminated:
  "lexer_state InSpace s = InQuote q \<Longrightarrow>
   shlex_split s = Inl (ValueError ''No closing quotation'')"
  using read_tokens_lexer_state[where s = InSpace and cs = s and tok = "[]" and quoted = False] by (simp add: shlex_split_def)

lemma more_digits_chars:
  "more_digits acc s = Some n \<Longrightarrow> \<forall>c\<in>set s. is_digit c \<or> c = CHR ''_''"
  by (induction acc s rule: more_digits.induct) (auto split: if_splits)

lemma decimal_chars: "decimal s = Some n \<Longrightarrow> \<forall>c\<in>set s. is_digit c \<or> c = CHR ''_''"
  by (auto simp: decimal_def split: list.splits if_splits dest: more_digits_chars)

lemma more_digits_all_digits:
  "\<forall>c\<in>set s. is_digit c \<Longrightarrow> \<exists>n. more_digits acc s = Some n"
  by (induction acc s rule: more_digits.induct) auto

lemma decimal_all_digits: "s \<noteq> [] \<Longrightarrow> \<forall>c\<in>set s. is_digit c \<Longrightarrow> \<exists>n. decimal s = Some n"
  by (cases s) (auto simp: decimal_def more_digits_all_digits)

lemma digit_not_space: "is_digit c \<Longrightarrow> \<not> int_isspace c \<and> \<not> py_isspace c \<and> c \<noteq> CHR ''+'' \<and> c \<noteq> CHR ''-''"
  by (auto simp: is_digit_def int_isspace_def py_isspace_def)

lemma int_isspace_py_isspace: "int_isspace c \<Longrightarrow> py_isspace c"
  by (auto simp: int_isspace_def py_isspace_def)

lemma py_isspace_not_digit: "py_isspace c \<Longrightarrow> \<not> is_digit c \<and> c \<noteq> CHR ''_''"
  by (auto simp: is_digit_def py_isspace_def)

lemma py_int_of_digits:
  assumes "ds \<noteq> []" "\<forall>c\<in>set ds. is_digit c"
  shows "py_int lim ds = map_option int (limited_decimal lim ds)"
proof -
  obtain d ds' where ds: "ds = d # ds'" using assms(1) by (cases ds) auto
  have d: "is_digit d" using assms(2) ds by simp
  have "is_digit (last (d # ds'))" using assms ds by (metis last_in_set)
  then have "rev (dropWhile int_isspace (rev (dropWhile int_isspace (d # ds')))) = d # ds'"
    using d by (intro strip_unchanged) (simp_all add: digit_not_space)
  then show ?thesis
    using ds d by (simp add: py_int_def digit_not_space)
qed

lemma py_int_digits:
  assumes "ds \<noteq> []" "\<forall>c\<in>set ds. is_digit c" "\<not> exceeds_digit_limit lim ds"
  shows "\<exists>k. py_int lim ds = Some k \<and> 0 \<le> k"
proof -
  obtain n where n: "decimal ds = Some n"
    using decimal_all_digits[OF assms(1,2)] by blast
  then show ?thesis
    using py_int_of_digits[OF assms(1,2), of lim] assms(3) by (simp add: limited_decimal_def)
qed

lemma py_int_over_limit:
  assumes "\<forall>c\<in>set ds. is_digit c" "exceeds_digit_limit lim ds"
  shows "py_int lim ds = None"
proof -
  have "ds \<noteq> []" using assms(2) by (auto simp: exceeds_digit_limit_def)
  then show ?thesis
    using py_int_of_digits[OF _ assms(1), of lim] assms(2) by (simp add: limited_decimal_def)
qed

lemma exceeds_digit_limit_digits:
  "\<forall>c\<in>set ds. is_digit c \<Longrightarrow>
   exceeds_digit_limit lim ds \<longleftrightarrow> 640 < length ds \<and> 0 < lim \<and> lim < length ds"
  by (simp add: exceeds_digit_limit_def)

lemma py_int_None_inner_space:
  assumes "ds \<noteq> []" "\<forall>c\<in>set ds. is_digit c" "py_isspace sp" "rest \<noteq> []"
    "\<not> py_isspace (last rest)"
  shows "py_int lim (ds @ sp # rest) = None"
proof -
  obtain d ds' where ds: "ds = d # ds'" using assms(1) by (cases ds) auto
  have d: "is_digit d" using assms(2) ds by simp
  let ?s = "ds @ sp # rest"
  have "last ?s = last rest" using assms(4) by simp
  then have "\<not> int_isspace (last (d # ds' @ sp # rest))"
    using assms(5) int_isspace_py_isspace ds by auto
  then have strip: "rev (dropWhile int_isspace (rev (dropWhile int_isspace (d # ds' @ sp # rest))))
      = d # ds' @ sp # rest"
    using d by (intro strip_unchanged) (simp_all add: digit_not_space)
  have "decimal ?s = None"
  proof (cases "decimal ?s")
    case (Some n)
    from decimal_chars[OF this] have "is_digit sp \<or> sp = CHR ''_''" by simp
    then show ?thesis using py_isspace_not_digit[OF assms(3)] by simp
  qed simp
  then show ?thesis
    using strip ds d by (simp add: py_int_def limited_decimal_def digit_not_space)
qed

subsection \<open>The dispatcher\<close>

lemma handle_builtin_command_bang:
  assumes "py_split a = (CHR ''!'' # n) # ws" "n \<noteq> []"
  shows "handle_builtin_command cfg w st a =
     (case py_int (int_max_str_digits w) n of
        Some index \<Rightarrow> (Inr False, st)
      | None \<Rightarrow> handled (print_message cfg w (InvalidHistoryReference (CHR ''!'' # n)) st))"
  using assms by (auto simp: handle_builtin_command_def startswith_bang_def split: option.splits)

lemma history_reference_frame:
  "extends_with st (dispatch_session (history_reference cfg w st a)) [] []"
  by (auto simp: history_reference_def split: option.splits prod.splits
      dest: print_message_frame)

lemma history_reference_Fails:
  "history_reference cfg w st a = Fails e s \<Longrightarrow> console_raises cfg w e"
  by (auto simp: history_reference_def split: if_splits option.splits prod.splits
      dest: print_message_exn)

lemma history_reference_not_Exit: "history_reference cfg w st a \<noteq> Exit s"
  by (auto simp: history_reference_def split: option.splits prod.splits)

lemma dispatch_line_unfold:
  assumes "py_strip raw = a" and "a \<noteq> []"
    and "write_log w lg (p @ a @ [CHR 0x0A]) st = (r1, st1)"
    and "handle_builtin_command cfg w st1 a = (h, st2)"
  shows "dispatch_line cfg w lg st p raw =
     (case r1 of
        Some e \<Rightarrow> Fails e st1
      | None \<Rightarrow>
          if first_word a \<in> set (exit_commands cfg) then Exit st1
          else (case h of
                  Inl e \<Rightarrow> Fails e st2
                | Inr b \<Rightarrow> if b then Skip st2 else history_reference cfg w st2 a))"
  using assms
  by (cases r1; cases h) (auto simp: dispatch_line_def Let_def)

lemma dispatch_line_frame:
  "extends_with st (dispatch_session (dispatch_line cfg w lg st p raw)) [] []"
proof (cases "py_strip raw = []")
  case True
  then show ?thesis by (simp add: dispatch_line_def)
next
  case False
  define a where "a = py_strip raw"
  obtain r1 st1 where l: "write_log w lg (p @ a @ [CHR 0x0A]) st = (r1, st1)"
    by (cases "write_log w lg (p @ a @ [CHR 0x0A]) st") auto
  note f1 = write_log_frame[OF l]
  obtain h st2 where hb: "handle_builtin_command cfg w st1 a = (h, st2)"
    by (cases "handle_builtin_command cfg w st1 a") auto
  note f2 = extends_with_quiet_trans[OF f1 handle_builtin_command_frame[OF hb]]
  note f3 = extends_with_quiet_trans[OF f2 history_reference_frame[of st2 cfg w a]]
  note eq = dispatch_line_unfold[OF a_def[symmetric] False[folded a_def] l hb]
  show ?thesis
    unfolding eq using f1 f2 f3
    by (cases r1; cases h) auto
qed

lemma dispatch_line_Fails:
  assumes "dispatch_line cfg w lg st p raw = Fails e s"
  shows "(lg \<and> log_write w (p @ py_strip raw @ [CHR 0x0A]) = Some e) \<or> console_raises cfg w e"
proof -
  define a where "a = py_strip raw"
  have ne: "a \<noteq> []" using assms by (auto simp: dispatch_line_def a_def)
  obtain r1 st1 where l: "write_log w lg (p @ a @ [CHR 0x0A]) st = (r1, st1)"
    by (cases "write_log w lg (p @ a @ [CHR 0x0A]) st") auto
  obtain h st2 where hb: "handle_builtin_command cfg w st1 a = (h, st2)"
    by (cases "handle_builtin_command cfg w st1 a") auto
  note eq = dispatch_line_unfold[OF a_def[symmetric] ne l hb]
  show ?thesis
  proof (cases r1)
    case (Some e')
    then have "e' = e" using assms eq by simp
    then have "write_log w lg (p @ a @ [CHR 0x0A]) st = (Some e, st1)"
      using l Some by simp
    from write_log_exn[OF this] show ?thesis by (simp add: a_def)
  next
    case None
    have nx: "first_word a \<notin> set (exit_commands cfg)"
      using assms eq None by (auto split: if_splits)
    show ?thesis
    proof (cases h)
      case (Inl e')
      then have "e' = e" using assms eq None nx by simp
      then show ?thesis using handle_builtin_command_exn hb Inl by blast
    next
      case (Inr b)
      then have "history_reference cfg w st2 a = Fails e s"
        using assms eq None nx by (cases b) simp_all
      then show ?thesis using history_reference_Fails by blast
    qed
  qed
qed

lemma dispatch_line_Exit:
  assumes "dispatch_line cfg w lg st p raw = Exit s"
  shows "first_word (py_strip raw) \<in> set (exit_commands cfg)"
proof -
  define a where "a = py_strip raw"
  have ne: "a \<noteq> []" using assms by (auto simp: dispatch_line_def a_def)
  obtain r1 st1 where l: "write_log w lg (p @ a @ [CHR 0x0A]) st = (r1, st1)"
    by (cases "write_log w lg (p @ a @ [CHR 0x0A]) st") auto
  obtain h st2 where hb: "handle_builtin_command cfg w st1 a = (h, st2)"
    by (cases "handle_builtin_command cfg w st1 a") auto
  note eq = dispatch_line_unfold[OF a_def[symmetric] ne l hb]
  show ?thesis
    using assms history_reference_not_Exit[of cfg w st2 a s] unfolding eq a_def[symmetric]
    by (cases r1; cases h) (auto split: if_splits)
qed

lemma dispatch_line_exit_word:
  assumes "first_word (py_strip raw) \<in> set (exit_commands cfg)"
  shows "dispatch_line cfg w lg st p raw \<noteq> Execute a s"
proof (cases "py_strip raw = []")
  case True
  then show ?thesis by (simp add: dispatch_line_def)
next
  case False
  obtain r1 st1 where l: "write_log w lg (p @ py_strip raw @ [CHR 0x0A]) st = (r1, st1)"
    by (cases "write_log w lg (p @ py_strip raw @ [CHR 0x0A]) st") auto
  obtain h st2 where hb: "handle_builtin_command cfg w st1 (py_strip raw) = (h, st2)"
    by (cases "handle_builtin_command cfg w st1 (py_strip raw)") auto
  show ?thesis
    unfolding dispatch_line_unfold[OF refl False l hb] using assms
    by (cases r1) auto
qed

lemma dispatch_line_exit_word_Break:
  assumes "py_strip raw \<noteq> []" and "first_word (py_strip raw) \<in> set (exit_commands cfg)"
    and "loggable w lg (p @ py_strip raw @ [CHR 0x0A])"
  shows "dispatch_line cfg w lg st p raw
     = Exit (if lg then emit (LogWritten (p @ py_strip raw @ [CHR 0x0A])) st else st)"
  using assms(1,2) write_log_loggable[OF assms(3), of st]
  by (simp add: dispatch_line_def Let_def)

lemma dispatch_line_blank:
  assumes "py_strip raw = []"
  shows "dispatch_line cfg w lg st p raw = Skip st"
  using assms by (simp add: dispatch_line_def)

lemma dispatch_line_builtin_word:
  assumes "first_word (py_strip raw) \<in> set [''help'', ''?'', ''history'', ''clear'']"
  shows "dispatch_line cfg w lg st p raw \<noteq> Execute a s"
proof -
  define b where "b = py_strip raw"
  have fw: "first_word b \<in> set [''help'', ''?'', ''history'', ''clear'']"
    using assms by (simp add: b_def)
  then obtain cmd ws where split: "py_split b = cmd # ws"
    and cmd: "cmd \<in> set [''help'', ''?'', ''history'', ''clear'']"
    by (cases "py_split b") (auto simp: first_word_def)
  have ne: "b \<noteq> []" using split by (auto simp: py_split_def)
  obtain r1 st1 where l: "write_log w lg (p @ b @ [CHR 0x0A]) st = (r1, st1)"
    by (cases "write_log w lg (p @ b @ [CHR 0x0A]) st") auto
  obtain h st2 where hb: "handle_builtin_command cfg w st1 b = (h, st2)"
    by (cases "handle_builtin_command cfg w st1 b") auto
  have "h \<noteq> Inr False"
    using hb split cmd
    by (auto simp: handle_builtin_command_def handled_def split: prod.splits option.splits)
  then show ?thesis
    unfolding dispatch_line_unfold[OF b_def[symmetric] ne l hb]
    by (cases r1; cases h) auto
qed

lemma bang_word_nospace:
  assumes "\<forall>c\<in>set n. \<not> py_isspace c"
  shows "\<forall>c\<in>set (CHR ''!'' # n). \<not> py_isspace c"
  using assms by (simp add: py_isspace_def)

lemma dispatch_line_bang:
  assumes "py_strip raw = CHR ''!'' # n" and "n \<noteq> []" and "\<forall>c\<in>set n. \<not> py_isspace c"
    and "CHR ''!'' # n \<notin> set (exit_commands cfg)"
    and "write_log w lg (p @ (CHR ''!'' # n) @ [CHR 0x0A]) st = (None, st1)"
  shows "dispatch_line cfg w lg st p raw =
     (case py_int (int_max_str_digits w) n of
        None \<Rightarrow>
          (case print_message cfg w (InvalidHistoryReference (CHR ''!'' # n)) st1 of
             (Some e, st2) \<Rightarrow> Fails e st2
           | (None, st2) \<Rightarrow> Skip st2)
      | Some k \<Rightarrow>
          if 0 \<le> k \<and> k < int (length (session_history st))
          then (case print_message cfg w (ReRunning (session_history st ! nat k)) st1 of
                  (Some e, st2) \<Rightarrow> Fails e st2
                | (None, st2) \<Rightarrow> Execute (session_history st ! nat k) st2)
          else (case print_message cfg w (HistoryIndexOutOfRange k) st1 of
                  (Some e, st2) \<Rightarrow> Fails e st2
                | (None, st2) \<Rightarrow> Skip st2))"
proof -
  define a where "a = CHR ''!'' # n"
  have nospace: "\<forall>c\<in>set a. \<not> py_isspace c"
    unfolding a_def using assms(3) by (rule bang_word_nospace)
  have ne: "a \<noteq> []" by (simp add: a_def)
  have fw: "first_word a = a"
    using nospace ne by (intro first_word_nospace) simp_all
  have split: "py_split a = (CHR ''!'' # n) # []"
    using py_split_from_nospace[OF nospace, of "[]" "[]"] ne by (simp add: py_split_def a_def)
  have hist: "session_history st1 = session_history st"
    using extends_with_fields(2)[OF write_log_frame[OF assms(5)]] .
  have bang: "startswith_bang a \<and> length a > 1" "tl a = n"
    using assms(2) by (simp_all add: a_def startswith_bang_def)
  obtain h st2 where hb: "handle_builtin_command cfg w st1 a = (h, st2)"
    by (cases "handle_builtin_command cfg w st1 a") auto
  note hb_eq = handle_builtin_command_bang[OF split assms(2), of cfg w st1]
  note eq = dispatch_line_unfold[OF assms(1)[folded a_def] ne assms(5)[folded a_def] hb]
  have nx: "first_word a \<notin> set (exit_commands cfg)"
    using fw assms(4) by (simp add: a_def)
  show ?thesis
  proof (cases "py_int (int_max_str_digits w) n")
    case None
    obtain r2 s2 where pm: "print_message cfg w (InvalidHistoryReference a) st1 = (r2, s2)"
      by (cases "print_message cfg w (InvalidHistoryReference a) st1") auto
    have "(h, st2) = (case r2 of None \<Rightarrow> (Inr True, s2) | Some e \<Rightarrow> (Inl e, s2))"
      using hb hb_eq None pm by (cases r2) (simp_all add: handled_def a_def)
    then show ?thesis
      unfolding eq using nx None pm
      by (cases r2) (simp_all add: a_def[symmetric])
  next
    case (Some k)
    then have "h = Inr False" "st2 = st1"
      using hb hb_eq by simp_all
    then show ?thesis
      unfolding eq using nx Some bang hist
      by (auto simp: a_def[symmetric] history_reference_def split: prod.splits option.splits)
  qed
qed

lemmas string_eval = py_strip_def py_isspace_def py_int_def int_isspace_def decimal_def
  is_digit_def digit_val_def limited_decimal_def exceeds_digit_limit_def

lemmas dispatch_eval = dispatch_line_def history_reference_def handle_builtin_command_def
  first_word_def py_split_def startswith_bang_def write_log_def print_message_def handled_def
  Let_def

lemmas shlex_eval = shlex_split_def shlex_whitespace_def shlex_quote_def shlex_escape_def
  emit_token_def

lemmas run_eval = process_line_def execute_command_def run_command_def run_child_def
  wait_for_command_def communicate_def handle_output_def increment_counter_def emit_def
  is_FileNotFoundError_def is_TimeoutError_def decode_and_print_def report_and_count_def
  print_message_def write_log_def

lemmas world_eval = default_config_def rich_config_def example_world_def example_process_def
  missing_world_def interrupted_world_def unwritable_world_def full_disk_world_def
  rich_world_def rich_missing_world_def initial_session_def get_prompt_def exit_or_propagate_def

subsection \<open>Lines and the loop\<close>

lemma process_line_Execute:
  "dispatch_line cfg w lg st p raw = Execute a st1 \<Longrightarrow>
   process_line cfg w lg st p raw = execute_command cfg w lg st1 a"
  by (simp add: process_line_def)

lemma dispatch_line_Execute_frame:
  assumes "dispatch_line cfg w lg st p raw = Execute a st1"
  shows "command_counter st1 = command_counter st \<and> session_history st1 = session_history st \<and>
         popen_calls (trace st1) = popen_calls (trace st) \<and>
         post_hook_calls (trace st1) = post_hook_calls (trace st)"
  using extends_with_fields[OF dispatch_line_frame[of st cfg w lg p raw]] assms by simp

lemma process_line_not_executed:
  assumes "\<forall>a s. dispatch_line cfg w lg st p raw \<noteq> Execute a s"
  shows "command_counter (outcome_session (process_line cfg w lg st p raw)) = command_counter st \<and>
         session_history (outcome_session (process_line cfg w lg st p raw)) = session_history st \<and>
         popen_calls (trace (outcome_session (process_line cfg w lg st p raw)))
           = popen_calls (trace st)"
  using extends_with_fields[OF dispatch_line_frame[of st cfg w lg p raw]] assms
  by (cases "dispatch_line cfg w lg st p raw") (auto simp: process_line_def)

lemma run_repl_loop_Line:
  assumes "get_prompt cfg w st = Inr p"
  shows "run_repl_loop cfg w lg st (Line raw # rs) =
     (case process_line cfg w lg st p raw of
        Continue st1 \<Rightarrow> run_repl_loop cfg w lg st1 rs
      | Break st1 \<Rightarrow> Ended st1
      | Raise e st1 \<Rightarrow> exit_or_propagate cfg st1 e)"
  using assms by simp

lemma run_repl_loop_Continue:
  assumes "get_prompt cfg w st = Inr p" and "process_line cfg w lg st p raw = Continue st'"
  shows "run_repl_loop cfg w lg st (Line raw # rs) = run_repl_loop cfg w lg st' rs"
  using assms by simp

lemma run_repl_loop_Break:
  assumes "get_prompt cfg w st = Inr p" and "process_line cfg w lg st p raw = Break st'"
  shows "run_repl_loop cfg w lg st (Line raw # rs) = Ended st'"
  using assms by simp

lemma run_repl_loop_Raise:
  assumes "get_prompt cfg w st = Inr p" and "process_line cfg w lg st p raw = Raise e st'"
  shows "run_repl_loop cfg w lg st (Line raw # rs) = exit_or_propagate cfg st' e"
  using assms by simp

lemma run_repl_loop_prompt_fails:
  assumes "get_prompt cfg w st = Inl e"
  shows "run_repl_loop cfg w lg st rs = exit_or_propagate cfg st e"
  using assms by (cases rs) simp_all

lemma prompt_renders_get_prompt:
  "prompt_renders cfg w \<Longrightarrow> \<exists>p. get_prompt cfg w st = Inr p"
  by (simp add: prompt_renders_def get_prompt_def)

lemma process_line_Break:
  assumes "process_line cfg w lg st p raw = Break st'"
  shows "first_word (py_strip raw) \<in> set (exit_commands cfg)"
proof (cases "dispatch_line cfg w lg st p raw")
  case (Exit s)
  then show ?thesis by (rule dispatch_line_Exit)
next
  case (Execute a s)
  then show ?thesis using assms execute_command_not_Break by (simp add: process_line_def)
qed (use assms in \<open>simp_all add: process_line_def\<close>)

lemma process_line_Raise:
  assumes "process_line cfg w lg st p raw = Raise e st'"
  shows "\<not> is_Exception e \<or> (lg \<and> log_write w (p @ py_strip raw @ [CHR 0x0A]) = Some e) \<or>
         console_raises cfg w e"
proof (cases "dispatch_line cfg w lg st p raw")
  case (Execute a s)
  then have "execute_command cfg w lg s a = Raise e st'"
    using assms by (simp add: process_line_def)
  then show ?thesis using execute_command_Raise by blast
next
  case (Fails e' s)
  then have "e' = e" using assms by (simp add: process_line_def)
  then show ?thesis using dispatch_line_Fails[of cfg w lg st p raw e s] Fails by simp
qed (use assms in \<open>simp_all add: process_line_def\<close>)

lemma process_line_survives:
  assumes "raises_only_Exceptions cfg w" and "output_succeeds cfg w lg"
    and "first_word (py_strip raw) \<notin> set (exit_commands cfg)"
  shows "\<exists>st'. process_line cfg w lg st p raw = Continue st'"
proof (cases "dispatch_line cfg w lg st p raw")
  case (Skip s)
  then show ?thesis by (simp add: process_line_def)
next
  case (Exit s)
  then show ?thesis using dispatch_line_Exit assms(3) by blast
next
  case (Execute a s)
  then show ?thesis
    using execute_command_Continue[OF assms(1,2), of s a] by (simp add: process_line_def)
next
  case (Fails e s)
  have "\<not> console_raises cfg w e"
    using output_succeeds_console[OF assms(2)] .
  moreover have "\<not> (lg \<and> log_write w (p @ py_strip raw @ [CHR 0x0A]) = Some e)"
    using assms(2) by (auto simp: output_succeeds_def loggable_def)
  ultimately show ?thesis using dispatch_line_Fails[OF Fails] by blast
qed

lemma run_repl_loop_survives:
  assumes "raises_only_Exceptions cfg w" and "output_succeeds cfg w lg" and "prompt_renders cfg w"
    and "\<forall>l\<in>set lines. first_word (py_strip l) \<notin> set (exit_commands cfg)"
  shows "\<exists>st'. run_repl_loop cfg w lg st (map Line lines @ rs) = run_repl_loop cfg w lg st' rs"
  using assms(4)
proof (induction lines arbitrary: st)
  case Nil
  then show ?case by auto
next
  case (Cons l lines)
  obtain p where p: "get_prompt cfg w st = Inr p"
    using prompt_renders_get_prompt[OF assms(3)] by blast
  obtain st1 where st1: "process_line cfg w lg st p l = Continue st1"
    using process_line_survives[OF assms(1,2), of l st p] Cons.prems by auto
  obtain st' where "run_repl_loop cfg w lg st1 (map Line lines @ rs) = run_repl_loop cfg w lg st' rs"
    using Cons.IH Cons.prems by auto
  then show ?case
    using run_repl_loop_Continue[OF p st1] by auto
qed

lemma process_line_executed:
  assumes "dispatch_line cfg w lg st p raw = Execute a s" and "raises_only_Exceptions cfg w"
    and "output_succeeds cfg w lg"
  shows "\<exists>st'. process_line cfg w lg st p raw = Continue st' \<and>
           command_counter st' = command_counter st + 1 \<and>
           session_history st' = session_history st @ [a] \<and>
           popen_calls (trace st') = popen_calls (trace st)
             @ (case shlex_split (command cfg @ '' '' @ a) of Inl e \<Rightarrow> [] | Inr argv \<Rightarrow> [argv])"
proof -
  obtain st' where c: "execute_command cfg w lg s a = Continue st'"
    using execute_command_Continue[OF assms(2,3)] by blast
  have soft: "pre_hooks_fail_softly cfg w a"
    using assms(2,3)
    by (auto simp: pre_hooks_fail_softly_def raises_only_Exceptions_def output_succeeds_def)
  have "command_counter st' = command_counter s + 1"
    using execute_command_counter[of cfg w lg s a] c by simp
  moreover have "session_history st' = session_history s @ [a]"
    using execute_command_history[of cfg w lg s a] c by simp
  moreover have "popen_calls (trace st') = popen_calls (trace s)
      @ (case shlex_split (command cfg @ '' '' @ a) of Inl e \<Rightarrow> [] | Inr argv \<Rightarrow> [argv])"
    using execute_command_popen_calls[of cfg w lg s a] c run_pre_hooks_softly[OF soft, of 0]
    by simp
  ultimately show ?thesis
    using c process_line_Execute[OF assms(1)] dispatch_line_Execute_frame[OF assms(1)]
    by simp
qed

subsection \<open>History references\<close>

text \<open>
  C4, as stated, fails in two ways. Exit words are tested before history references, so a
  line \<^verbatim>\<open>!q\<close> that is configured as an exit word ends the loop, and the following line
  is never read. And under the rich console the report of an invalid reference is printed with
  the line interpolated into console markup: for the line \<^verbatim>\<open>![/x]\<close> the console raises
  \<^verbatim>\<open>MarkupError\<close>, which no handler inside the loop catches, and the exception
  propagates to the caller of \<^verbatim>\<open>replize\<close>.
\<close>

theorem history_reference_exits_or_throws_counterexample:
  "run_repl_loop ((default_config example_world ''ls'')\<lparr>exit_commands := [''exit'', ''quit'', ''!q'']\<rparr>)
       example_world False initial_session [Line ''!q'', Line ''-l'']
     = Ended initial_session \<and>
   run_repl_loop (rich_config rich_world ''ls'') rich_world False initial_session
       [Line ''![/x]'', Line ''-l'']
     = Propagated MarkupError initial_session"
proof -
  let ?cfg = "(default_config example_world ''ls'')\<lparr>exit_commands := [''exit'', ''quit'', ''!q'']\<rparr>"
  let ?rich = "rich_config rich_world ''ls''"
  have g1: "get_prompt ?cfg example_world initial_session = Inr ''ls >>> ''"
    by (simp add: world_eval)
  have p1: "process_line ?cfg example_world False initial_session ''ls >>> '' ''!q''
      = Break initial_session"
    by (simp add: process_line_def dispatch_eval string_eval default_config_def)
  have g2: "get_prompt ?rich rich_world initial_session = Inr ''ls >>> ''"
    by (simp add: world_eval)
  have p2: "process_line ?rich rich_world False initial_session ''ls >>> '' ''![/x]''
      = Raise MarkupError initial_session"
    by (simp add: process_line_def dispatch_eval string_eval world_eval)
  show ?thesis
    using run_repl_loop_Break[OF g1 p1] run_repl_loop_Raise[OF g2 p2]
    by (simp add: world_eval)
qed

text \<open>
  C4, amended. A stripped line of the form \<^verbatim>\<open>!n\<close>, where \<open>n\<close> is not empty and has no
  whitespace, which is not itself configured as an exit word, and for which the input can be
  written to the log and the one message that the line produces can be printed. When \<open>n\<close> is not a number
  (which includes a string of more digits than the interpreter converts), the only effect is
  the message "Invalid history reference"; when it is a number outside
  \<open>[0, len(session_history))\<close>, the only effect is the message "History index out of
  range". In both cases the loop goes on with the next prompt: \<^verbatim>\<open>Popen\<close> is not called,
  nothing is appended to the history, the counter is unchanged and no exception is raised.
  When \<open>n\<close> is a number inside the range, the line is replaced by the stored entry at position
  \<open>n\<close>, the replacement is announced and that entry is executed; the loop then does what the
  execution of that entry makes it do.
\<close>

theorem history_reference_resolution:
  assumes "py_strip raw = CHR ''!'' # n" and "n \<noteq> []" and "\<forall>c\<in>set n. \<not> py_isspace c"
    and "CHR ''!'' # n \<notin> set (exit_commands cfg)"
    and "loggable w log_file_handle (prompt_str @ CHR ''!'' # n @ [CHR 0x0A])"
    and "printable cfg w
           (case py_int (int_max_str_digits w) n of
              None \<Rightarrow> InvalidHistoryReference (CHR ''!'' # n)
            | Some k \<Rightarrow>
                if 0 \<le> k \<and> k < int (length (session_history st))
                then ReRunning (session_history st ! nat k)
                else HistoryIndexOutOfRange k)"
  shows "process_line cfg w log_file_handle st prompt_str raw =
     (let st1 = (if log_file_handle
                 then emit (LogWritten (prompt_str @ CHR ''!'' # n @ [CHR 0x0A])) st else st)
      in case py_int (int_max_str_digits w) n of
           None \<Rightarrow> Continue (emit (Shown (InvalidHistoryReference (CHR ''!'' # n))) st1)
         | Some k \<Rightarrow>
             if 0 \<le> k \<and> k < int (length (session_history st))
             then execute_command cfg w log_file_handle
                    (emit (Shown (ReRunning (session_history st ! nat k))) st1)
                    (session_history st ! nat k)
             else Continue (emit (Shown (HistoryIndexOutOfRange k)) st1)) \<and>
     (get_prompt cfg w st = Inr prompt_str \<longrightarrow>
        run_repl_loop cfg w log_file_handle st (Line raw # rs) =
          (let st1 = (if log_file_handle
                      then emit (LogWritten (prompt_str @ CHR ''!'' # n @ [CHR 0x0A])) st else st)
           in case py_int (int_max_str_digits w) n of
                None \<Rightarrow>
                  run_repl_loop cfg w log_file_handle
                    (emit (Shown (InvalidHistoryReference (CHR ''!'' # n))) st1) rs
              | Some k \<Rightarrow>
                  if 0 \<le> k \<and> k < int (length (session_history st))
                  then (case execute_command cfg w log_file_handle
                               (emit (Shown (ReRunning (session_history st ! nat k))) st1)
                               (session_history st ! nat k) of
                          Continue st2 \<Rightarrow> run_repl_loop cfg w log_file_handle st2 rs
                        | Break st2 \<Rightarrow> Ended st2
                        | Raise e st2 \<Rightarrow> exit_or_propagate cfg st2 e)
                  else run_repl_loop cfg w log_file_handle
                         (emit (Shown (HistoryIndexOutOfRange k)) st1) rs))"
proof -
  define st1 where "st1 = (if log_file_handle
      then emit (LogWritten (prompt_str @ CHR ''!'' # n @ [CHR 0x0A])) st else st)"
  have lg: "write_log w log_file_handle (prompt_str @ (CHR ''!'' # n) @ [CHR 0x0A]) st = (None, st1)"
    using write_log_loggable[OF assms(5), of st] by (simp add: st1_def)
  have d: "dispatch_line cfg w log_file_handle st prompt_str raw =
     (case py_int (int_max_str_digits w) n of
        None \<Rightarrow> Skip (emit (Shown (InvalidHistoryReference (CHR ''!'' # n))) st1)
      | Some k \<Rightarrow>
          if 0 \<le> k \<and> k < int (length (session_history st))
          then Execute (session_history st ! nat k)
                 (emit (Shown (ReRunning (session_history st ! nat k))) st1)
          else Skip (emit (Shown (HistoryIndexOutOfRange k)) st1))"
  proof (cases "py_int (int_max_str_digits w) n")
    case None
    then have "printable cfg w (InvalidHistoryReference (CHR ''!'' # n))"
      using assms(6) by simp
    then show ?thesis
      unfolding dispatch_line_bang[OF assms(1,2,3,4) lg]
      using None by (simp add: print_message_printable)
  next
    case (Some k)
    show ?thesis
    proof (cases "0 \<le> k \<and> k < int (length (session_history st))")
      case True
      then have "printable cfg w (ReRunning (session_history st ! nat k))"
        using assms(6) Some by simp
      then show ?thesis
        unfolding dispatch_line_bang[OF assms(1,2,3,4) lg]
        using Some True by (simp add: print_message_printable)
    next
      case False
      then have "printable cfg w (HistoryIndexOutOfRange k)"
        using assms(6) Some by (auto split: if_splits)
      then show ?thesis
        unfolding dispatch_line_bang[OF assms(1,2,3,4) lg]
        using Some False by (auto simp: print_message_printable)
    qed
  qed
  have line: "process_line cfg w log_file_handle st prompt_str raw =
     (case py_int (int_max_str_digits w) n of
           None \<Rightarrow> Continue (emit (Shown (InvalidHistoryReference (CHR ''!'' # n))) st1)
         | Some k \<Rightarrow>
             if 0 \<le> k \<and> k < int (length (session_history st))
             then execute_command cfg w log_file_handle
                    (emit (Shown (ReRunning (session_history st ! nat k))) st1)
                    (session_history st ! nat k)
             else Continue (emit (Shown (HistoryIndexOutOfRange k)) st1))"
    unfolding process_line_def d by (simp split: option.splits)
  have loop: "run_repl_loop cfg w log_file_handle st (Line raw # rs) =
     (case py_int (int_max_str_digits w) n of
                None \<Rightarrow>
                  run_repl_loop cfg w log_file_handle
                    (emit (Shown (InvalidHistoryReference (CHR ''!'' # n))) st1) rs
              | Some k \<Rightarrow>
                  if 0 \<le> k \<and> k < int (length (session_history st))
                  then (case execute_command cfg w log_file_handle
                               (emit (Shown (ReRunning (session_history st ! nat k))) st1)
                               (session_history st ! nat k) of
                          Continue st2 \<Rightarrow> run_repl_loop cfg w log_file_handle st2 rs
                        | Break st2 \<Rightarrow> Ended st2
                        | Raise e st2 \<Rightarrow> exit_or_propagate cfg st2 e)
                  else run_repl_loop cfg w log_file_handle
                         (emit (Shown (HistoryIndexOutOfRange k)) st1) rs)"
    if "get_prompt cfg w st = Inr prompt_str"
    unfolding run_repl_loop_Line[OF that] line by (simp split: option.splits)
  show ?thesis
    using line loop unfolding Let_def st1_def by blast
qed

theorem history_reference_resolution_witness:
  "process_line (default_config example_world ''ls'') example_world False
       (initial_session\<lparr>session_history := [''-l'']\<rparr>) ''ls >>> '' ''!x''
     = Continue (emit (Shown (InvalidHistoryReference ''!x''))
         (initial_session\<lparr>session_history := [''-l'']\<rparr>)) \<and>
   run_repl_loop (default_config example_world ''ls'') example_world False
       (initial_session\<lparr>session_history := [''-l'']\<rparr>) [Line ''!7'', Line ''exit'']
     = Ended (emit (Shown (HistoryIndexOutOfRange 7))
         (initial_session\<lparr>session_history := [''-l'']\<rparr>)) \<and>
   process_line (default_config example_world ''ls'') example_world False
       (initial_session\<lparr>session_history := [''-l'']\<rparr>) ''ls >>> '' ''!0''
     = execute_command (default_config example_world ''ls'') example_world False
         (emit (Shown (ReRunning ''-l'')) (initial_session\<lparr>session_history := [''-l'']\<rparr>)) ''-l''"
proof -
  let ?cfg = "default_config example_world ''ls''"
  let ?st = "initial_session\<lparr>session_history := [''-l'']\<rparr>"
  have exits: "\<And>n. CHR ''!'' # n \<notin> set (exit_commands ?cfg)"
    by (simp add: default_config_def)
  have out: "\<And>t. loggable example_world False t" "\<And>m. printable ?cfg example_world m"
    by (simp_all add: loggable_def printable_def default_config_def)
  have lim: "int_max_str_digits example_world = 4300"
    by (simp add: example_world_def)
  have x: "py_strip ''!x'' = CHR ''!'' # ''x''" "''x'' \<noteq> []" "\<forall>c\<in>set ''x''. \<not> py_isspace c"
    "py_int 4300 ''x'' = None"
    by (simp_all add: string_eval)
  have seven: "py_strip ''!7'' = CHR ''!'' # ''7''" "''7'' \<noteq> []" "\<forall>c\<in>set ''7''. \<not> py_isspace c"
    "py_int 4300 ''7'' = Some 7"
    by (simp_all add: string_eval)
  have zero: "py_strip ''!0'' = CHR ''!'' # ''0''" "''0'' \<noteq> []" "\<forall>c\<in>set ''0''. \<not> py_isspace c"
    "py_int 4300 ''0'' = Some 0"
    by (simp_all add: string_eval)
  have prompt: "get_prompt ?cfg example_world ?st = Inr ''ls >>> ''"
    by (simp add: world_eval)
  have a: "process_line ?cfg example_world False ?st ''ls >>> '' ''!x''
      = Continue (emit (Shown (InvalidHistoryReference ''!x'')) ?st)"
    using history_reference_resolution [OF x(1,2,3) exits out(1) out(2), where st = ?st
        and prompt_str = "''ls >>> ''" and rs = "[]", THEN conjunct1] out(2) x(4) lim
    by (simp add: initial_session_def)
  have "run_repl_loop ?cfg example_world False ?st [Line ''!7'', Line ''exit'']
      = run_repl_loop ?cfg example_world False (emit (Shown (HistoryIndexOutOfRange 7)) ?st)
          [Line ''exit'']"
    using history_reference_resolution [OF seven(1,2,3) exits out(1) out(2), where st = ?st
        and prompt_str = "''ls >>> ''" and rs = "[Line ''exit'']", THEN conjunct2] out(2)
      seven(4) lim prompt
    by (simp add: initial_session_def del: run_repl_loop.simps)
  moreover have "run_repl_loop ?cfg example_world False (emit (Shown (HistoryIndexOutOfRange 7)) ?st)
          [Line ''exit''] = Ended (emit (Shown (HistoryIndexOutOfRange 7)) ?st)"
    by (simp add: world_eval process_line_def dispatch_eval string_eval)
  ultimately have b: "run_repl_loop ?cfg example_world False ?st [Line ''!7'', Line ''exit'']
      = Ended (emit (Shown (HistoryIndexOutOfRange 7)) ?st)"
    by simp
  have c: "process_line ?cfg example_world False ?st ''ls >>> '' ''!0''
      = execute_command ?cfg example_world False (emit (Shown (ReRunning ''-l'')) ?st) ''-l''"
    using history_reference_resolution [OF zero(1,2,3) exits out(1) out(2), where st = ?st
        and prompt_str = "''ls >>> ''" and rs = "[]", THEN conjunct1] out(2) zero(4) lim
    by (simp add: initial_session_def)
  show ?thesis using a b c by blast
qed

subsection \<open>A history reference followed by text\<close>

lemma dispatch_line_bang_text:
  assumes "py_strip raw = CHR ''!'' # ds @ sp # rest" and "ds \<noteq> []"
    and "\<forall>c\<in>set ds. is_digit c" and "py_isspace sp"
    and "CHR ''!'' # ds \<notin> set (exit_commands cfg)"
    and "write_log w lg (p @ py_strip raw @ [CHR 0x0A]) st = (None, st1)"
  shows "dispatch_line cfg w lg st p raw =
     (if exceeds_digit_limit (int_max_str_digits w) ds then
        (case print_message cfg w (InvalidHistoryReference (CHR ''!'' # ds)) st1 of
           (Some e, st2) \<Rightarrow> Fails e st2
         | (None, st2) \<Rightarrow> Skip st2)
      else Execute (py_strip raw) st1)"
proof -
  define a where "a = py_strip raw"
  let ?cmd = "CHR ''!'' # ds"
  have a: "a = ?cmd @ sp # rest" using assms(1) by (simp add: a_def)
  have ne: "a \<noteq> []" using a by simp
  have rest: "rest \<noteq> [] \<and> \<not> py_isspace (last rest)"
  proof (cases rest rule: rev_cases)
    case Nil
    then have "py_strip raw = ?cmd @ [sp]" using assms(1) by simp
    from py_strip_last[OF this] show ?thesis using assms(4) by simp
  next
    case (snoc xs x)
    then have "py_strip raw = (?cmd @ sp # xs) @ [x]" using assms(1) by simp
    from py_strip_last[OF this] show ?thesis using snoc by simp
  qed
  have nospace: "\<forall>c\<in>set ?cmd. \<not> py_isspace c"
    using assms(3) by (intro bang_word_nospace) (auto simp: digit_not_space)
  have fw: "first_word a = ?cmd"
    unfolding a using nospace assms(4) by (intro first_word_before_space) simp_all
  obtain ws where split: "py_split a = ?cmd # ws"
    unfolding a using py_split_hd_nospace[OF nospace _ assms(4), of rest] by auto
  obtain h st2 where hb: "handle_builtin_command cfg w st1 a = (h, st2)"
    by (cases "handle_builtin_command cfg w st1 a") auto
  note hb_eq = handle_builtin_command_bang[OF split assms(2), of cfg w st1]
  note eq = dispatch_line_unfold[OF a_def[symmetric] ne assms(6)[folded a_def] hb]
  have nx: "first_word a \<notin> set (exit_commands cfg)" using fw assms(5) by simp
  have none: "py_int (int_max_str_digits w) (tl a) = None"
    using py_int_None_inner_space[OF assms(2,3,4)] rest a by simp
  have href: "history_reference cfg w st1 a = Execute a st1"
    using none by (simp add: history_reference_def)
  show ?thesis
  proof (cases "exceeds_digit_limit (int_max_str_digits w) ds")
    case True
    have over: "py_int (int_max_str_digits w) ds = None"
      using py_int_over_limit[OF assms(3) True] .
    obtain r2 s2 where pm: "print_message cfg w (InvalidHistoryReference ?cmd) st1 = (r2, s2)"
      by (cases "print_message cfg w (InvalidHistoryReference ?cmd) st1") auto
    have "(h, st2) = (case r2 of None \<Rightarrow> (Inr True, s2) | Some e \<Rightarrow> (Inl e, s2))"
      using hb hb_eq over pm by (cases r2) (simp_all add: handled_def)
    then show ?thesis
      unfolding eq using nx True pm
      by (cases r2) (simp_all add: a_def[symmetric])
  next
    case False
    obtain k where k: "py_int (int_max_str_digits w) ds = Some k"
      using py_int_digits[OF assms(2,3) False] by blast
    then have "h = Inr False" "st2 = st1"
      using hb hb_eq by simp_all
    then show ?thesis
      unfolding eq using nx False href
      by (simp add: a_def[symmetric])
  qed
qed

text \<open>
  C10, as stated, fails for a long string of digits. CPython refuses to convert a string of
  more than 4300 digits to an integer (the limit can be changed), so
  \<^verbatim>\<open>_handle_builtin_command\<close> gets a \<^verbatim>\<open>ValueError\<close> for the first word, reports an
  invalid history reference and the line is skipped: it is neither appended to the history
  nor executed. It also fails when the first word is configured as an exit word: the loop
  ends.
\<close>

theorem bang_digits_skipped_counterexample:
  "process_line (default_config example_world ''ls'') example_world False initial_session
       ''ls >>> '' (CHR ''!'' # replicate 4301 (CHR ''9'') @ '' -a'')
     = Continue (emit (Shown (InvalidHistoryReference (CHR ''!'' # replicate 4301 (CHR ''9''))))
         initial_session) \<and>
   process_line ((default_config example_world ''ls'')\<lparr>exit_commands := [''!0'']\<rparr>) example_world
       False initial_session ''ls >>> '' ''!0 -a''
     = Break initial_session"
proof -
  let ?cfg = "default_config example_world ''ls''"
  let ?ds = "replicate 4301 (CHR ''9'')"
  let ?raw = "CHR ''!'' # ?ds @ '' -a''"
  have strip: "py_strip ?raw = CHR ''!'' # ?ds @ CHR '' '' # ''-a''"
    by (rule trans[OF py_strip_unchanged]) (simp_all add: py_isspace_def)
  have digits: "?ds \<noteq> []" "\<forall>c\<in>set ?ds. is_digit c"
    by (simp_all add: is_digit_def)
  have sp: "py_isspace (CHR '' '')" by (simp add: py_isspace_def)
  have nx: "CHR ''!'' # ?ds \<notin> set (exit_commands ?cfg)"
    by (simp add: default_config_def)
  have lg: "write_log example_world False (''ls >>> '' @ py_strip ?raw @ [CHR 0x0A])
      initial_session = (None, initial_session)"
    by (simp add: write_log_def)
  have over: "exceeds_digit_limit (int_max_str_digits example_world) ?ds"
    using digits(2) by (simp add: exceeds_digit_limit_digits example_world_def)
  have "dispatch_line ?cfg example_world False initial_session ''ls >>> '' ?raw
      = Skip (emit (Shown (InvalidHistoryReference (CHR ''!'' # ?ds))) initial_session)"
    unfolding dispatch_line_bang_text[OF strip digits sp nx lg]
    using over by (simp add: print_message_def default_config_def)
  then have a: "process_line ?cfg example_world False initial_session ''ls >>> '' ?raw
      = Continue (emit (Shown (InvalidHistoryReference (CHR ''!'' # ?ds))) initial_session)"
    by (simp add: process_line_def)
  have b: "process_line (?cfg\<lparr>exit_commands := [''!0'']\<rparr>) example_world
       False initial_session ''ls >>> '' ''!0 -a'' = Break initial_session"
    by (simp add: process_line_def dispatch_eval string_eval default_config_def)
  show ?thesis using a b by blast
qed

text \<open>
  C10, amended. A stripped line that begins with \<^verbatim>\<open>!\<close> and digits, followed by
  whitespace and further text (such as \<^verbatim>\<open>!0 -a\<close>), whose first word is not configured as
  an exit word and which can be written to the log. When the digits are not more than the
  interpreter converts to an integer, the line is never resolved as a history reference,
  whether or not the digits are a valid index: it is handed to the execution of a command as
  it stands, where it is appended verbatim to the session history and joined to the base
  command as the user's arguments, so that \<^verbatim>\<open>Popen\<close> is called with the tokens of the
  base command followed by the tokens of the line itself (when both tokenize and the
  pre-command hooks fail softly), and the loop does what that execution makes it do. When the
  digits are more than the interpreter converts, the line is reported as an invalid history
  reference and skipped.
\<close>

theorem bang_digits_then_text_is_literal:
  assumes "py_strip raw = CHR ''!'' # ds @ sp # rest" and "ds \<noteq> []"
    and "\<forall>c\<in>set ds. is_digit c" and "py_isspace sp"
    and "CHR ''!'' # ds \<notin> set (exit_commands cfg)"
    and "loggable w log_file_handle (prompt_str @ py_strip raw @ [CHR 0x0A])"
  shows "(\<not> exceeds_digit_limit (int_max_str_digits w) ds \<longrightarrow>
           process_line cfg w log_file_handle st prompt_str raw =
             execute_command cfg w log_file_handle
               (if log_file_handle
                then emit (LogWritten (prompt_str @ py_strip raw @ [CHR 0x0A])) st else st)
               (py_strip raw) \<and>
           session_history (outcome_session (process_line cfg w log_file_handle st prompt_str raw))
             = session_history st @ [py_strip raw] \<and>
           (shlex_split (command cfg) = Inr base \<and> shlex_split (py_strip raw) = Inr user \<and>
            pre_hooks_fail_softly cfg w (py_strip raw) \<longrightarrow>
              popen_calls (trace (outcome_session
                  (process_line cfg w log_file_handle st prompt_str raw)))
                = popen_calls (trace st) @ [base @ user]) \<and>
           (get_prompt cfg w st = Inr prompt_str \<longrightarrow>
              run_repl_loop cfg w log_file_handle st (Line raw # rs) =
                (case execute_command cfg w log_file_handle
                        (if log_file_handle
                         then emit (LogWritten (prompt_str @ py_strip raw @ [CHR 0x0A])) st
                         else st)
                        (py_strip raw) of
                   Continue st2 \<Rightarrow> run_repl_loop cfg w log_file_handle st2 rs
                 | Break st2 \<Rightarrow> Ended st2
                 | Raise e st2 \<Rightarrow> exit_or_propagate cfg st2 e))) \<and>
         (exceeds_digit_limit (int_max_str_digits w) ds \<and>
          printable cfg w (InvalidHistoryReference (CHR ''!'' # ds)) \<longrightarrow>
            process_line cfg w log_file_handle st prompt_str raw =
              Continue (emit (Shown (InvalidHistoryReference (CHR ''!'' # ds)))
                (if log_file_handle
                 then emit (LogWritten (prompt_str @ py_strip raw @ [CHR 0x0A])) st else st)))"
proof -
  define a where "a = py_strip raw"
  define st1 where "st1 = (if log_file_handle
      then emit (LogWritten (prompt_str @ a @ [CHR 0x0A])) st else st)"
  have lg: "write_log w log_file_handle (prompt_str @ py_strip raw @ [CHR 0x0A]) st = (None, st1)"
    using write_log_loggable[OF assms(6), of st] by (simp add: st1_def a_def)
  note d = dispatch_line_bang_text[OF assms(1,2,3,4,5) lg, folded a_def]
  have st1: "session_history st1 = session_history st" "popen_calls (trace st1) = popen_calls (trace st)"
    by (simp_all add: st1_def)
  have literal: "process_line cfg w log_file_handle st prompt_str raw
        = execute_command cfg w log_file_handle st1 a"
    if "\<not> exceeds_digit_limit (int_max_str_digits w) ds"
    using that d by (simp add: process_line_def)
  have hist: "session_history (outcome_session (execute_command cfg w log_file_handle st1 a))
      = session_history st @ [a]"
    using execute_command_history[of cfg w log_file_handle st1 a] st1 by simp
  have argv: "popen_calls (trace (outcome_session (execute_command cfg w log_file_handle st1 a)))
      = popen_calls (trace st) @ [base @ user]"
    if "shlex_split (command cfg) = Inr base" and "shlex_split a = Inr user"
      and "pre_hooks_fail_softly cfg w a"
  proof -
    have "shlex_split (command cfg @ '' '' @ a) = Inr (base @ user)"
      using shlex_split_command_line[OF that(1), of a] that(2) by simp
    then show ?thesis
      using execute_command_popen_calls[of cfg w log_file_handle st1 a]
        run_pre_hooks_softly[OF that(3), of 0] st1
      by simp
  qed
  have loop: "run_repl_loop cfg w log_file_handle st (Line raw # rs) =
      (case execute_command cfg w log_file_handle st1 a of
         Continue st2 \<Rightarrow> run_repl_loop cfg w log_file_handle st2 rs
       | Break st2 \<Rightarrow> Ended st2
       | Raise e st2 \<Rightarrow> exit_or_propagate cfg st2 e)"
    if "\<not> exceeds_digit_limit (int_max_str_digits w) ds" and "get_prompt cfg w st = Inr prompt_str"
    unfolding run_repl_loop_Line[OF that(2)] literal[OF that(1)] by simp
  have skipped: "process_line cfg w log_file_handle st prompt_str raw =
      Continue (emit (Shown (InvalidHistoryReference (CHR ''!'' # ds))) st1)"
    if "exceeds_digit_limit (int_max_str_digits w) ds"
      and "printable cfg w (InvalidHistoryReference (CHR ''!'' # ds))"
    using that d by (simp add: process_line_def print_message_printable)
  show ?thesis
    using literal hist argv loop skipped unfolding a_def st1_def by auto
qed

theorem bang_digits_then_text_is_literal_witness:
  "process_line (default_config example_world ''ls'') example_world False
       (initial_session\<lparr>session_history := [''-l'']\<rparr>) ''ls >>> '' ''!0 -a''
     = execute_command (default_config example_world ''ls'') example_world False
         (initial_session\<lparr>session_history := [''-l'']\<rparr>) ''!0 -a'' \<and>
   session_history (outcome_session
       (process_line (default_config example_world ''ls'') example_world False
          (initial_session\<lparr>session_history := [''-l'']\<rparr>) ''ls >>> '' ''!0 -a''))
     = [''-l'', ''!0 -a''] \<and>
   popen_calls (trace (outcome_session
       (process_line (default_config example_world ''ls'') example_world False
          (initial_session\<lparr>session_history := [''-l'']\<rparr>) ''ls >>> '' ''!0 -a'')))
     = [[''ls'', ''!0'', ''-a'']]"
proof -
  let ?cfg = "default_config example_world ''ls''"
  let ?st = "initial_session\<lparr>session_history := [''-l'']\<rparr>"
  have a: "py_strip ''!0 -a'' = CHR ''!'' # ''0'' @ CHR '' '' # ''-a''"
    by (simp add: string_eval)
  have b: "''0'' \<noteq> []" "\<forall>c\<in>set ''0''. is_digit c" "py_isspace (CHR '' '')"
    "CHR ''!'' # ''0'' \<notin> set (exit_commands ?cfg)"
    "loggable example_world False (''ls >>> '' @ py_strip ''!0 -a'' @ [CHR 0x0A])"
    by (simp_all add: string_eval default_config_def loggable_def)
  have c: "py_strip ''!0 -a'' = ''!0 -a''"
    by (simp add: string_eval)
  have within: "\<not> exceeds_digit_limit (int_max_str_digits example_world) ''0''"
    by (simp add: exceeds_digit_limit_def)
  note inst = bang_digits_then_text_is_literal [OF a b, where st = ?st and base = "[''ls'']" and user = "[''!0'', ''-a'']" and rs = "[]",
      THEN conjunct1, rule_format, OF within]
  have tokens: "shlex_split (command ?cfg) = Inr [''ls''] \<and>
      shlex_split (py_strip ''!0 -a'') = Inr [''!0'', ''-a''] \<and>
      pre_hooks_fail_softly ?cfg example_world (py_strip ''!0 -a'')"
    by (simp add: c default_config_def shlex_split_def shlex_whitespace_def shlex_quote_def
        shlex_escape_def emit_token_def pre_hooks_fail_softly_def)
  have "popen_calls (trace (outcome_session
       (process_line ?cfg example_world False ?st ''ls >>> '' ''!0 -a'')))
      = popen_calls (trace ?st) @ [[''ls''] @ [''!0'', ''-a'']]"
    using inst [THEN conjunct2, THEN conjunct2, THEN conjunct1] tokens by blast
  then have d: "popen_calls (trace (outcome_session
       (process_line ?cfg example_world False ?st ''ls >>> '' ''!0 -a'')))
      = [[''ls'', ''!0'', ''-a'']]"
    by (simp add: initial_session_def)
  have e: "process_line ?cfg example_world False ?st ''ls >>> '' ''!0 -a''
      = execute_command ?cfg example_world False ?st ''!0 -a''"
    using inst [THEN conjunct1] by (simp add: c)
  have f: "session_history (outcome_session
       (process_line ?cfg example_world False ?st ''ls >>> '' ''!0 -a'')) = [''-l'', ''!0 -a'']"
    using inst [THEN conjunct2, THEN conjunct1] by (simp add: c initial_session_def)
  show ?thesis using d e f by blast
qed

subsection \<open>The argument vector\<close>

text \<open>
  C8. For a line that the dispatcher hands to execution (as it is, or rewritten from the
  history), when the base command and the line both tokenize: if every failure of a
  pre-command hook on the line is an \<^verbatim>\<open>Exception\<close> whose report can be printed,
  \<^verbatim>\<open>Popen\<close> is called exactly once for the line, and its argument vector is the tokens
  of the base command followed by the tokens of the line; and in every case \<^verbatim>\<open>Popen\<close>
  is called with that argument vector once when the loop over the pre-command hooks comes
  to its end, and not at all when an exception leaves that loop. The source tokenizes the
  joined string \<^verbatim>\<open>f'{config.command} {arguments_str}'\<close>; the two agree because the base
  command tokenizes on its own. The witness is the base command \<^verbatim>\<open>echo\<close> with the input
  \<^verbatim>\<open>arg1\<close>.
\<close>

theorem argument_vector_is_base_then_user_tokens:
  assumes "dispatch_line cfg w log_file_handle st prompt_str raw = Execute a st1"
    and "shlex_split (command cfg) = Inr base" and "shlex_split a = Inr user"
  shows "((\<forall>hook\<in>set (pre_command_hooks cfg). \<forall>e. hook (command cfg) a = Some e \<longrightarrow>
             is_Exception e \<and> printable cfg w (PreHookError e)) \<longrightarrow>
          popen_calls (trace (outcome_session (process_line cfg w log_file_handle st prompt_str raw)))
            = popen_calls (trace st) @ [base @ user]) \<and>
         popen_calls (trace (outcome_session (process_line cfg w log_file_handle st prompt_str raw)))
           = popen_calls (trace st)
               @ (case fst (run_pre_hooks cfg w a (pre_command_hooks cfg) 0
                              (st1\<lparr>session_history := session_history st1 @ [a]\<rparr>)) of
                    None \<Rightarrow> [base @ user]
                  | Some e \<Rightarrow> [])"
proof -
  have "shlex_split (command cfg @ '' '' @ a) = Inr (base @ user)"
    using shlex_split_command_line[OF assms(2), of a] assms(3) by simp
  then have general: "popen_calls (trace (outcome_session (process_line cfg w log_file_handle st prompt_str raw)))
           = popen_calls (trace st)
               @ (case fst (run_pre_hooks cfg w a (pre_command_hooks cfg) 0
                              (st1\<lparr>session_history := session_history st1 @ [a]\<rparr>)) of
                    None \<Rightarrow> [base @ user]
                  | Some e \<Rightarrow> [])"
    using execute_command_popen_calls[of cfg w log_file_handle st1 a]
      process_line_Execute[OF assms(1)] dispatch_line_Execute_frame[OF assms(1)]
    by (simp split: option.splits)
  moreover have "fst (run_pre_hooks cfg w a (pre_command_hooks cfg) 0
                       (st1\<lparr>session_history := session_history st1 @ [a]\<rparr>)) = None"
    if "\<forall>hook\<in>set (pre_command_hooks cfg). \<forall>e. hook (command cfg) a = Some e \<longrightarrow>
          is_Exception e \<and> printable cfg w (PreHookError e)"
    using run_pre_hooks_all[OF that, of 0] by simp
  ultimately show ?thesis by simp
qed

theorem argument_vector_is_base_then_user_tokens_witness:
  "popen_calls (trace (outcome_session
      (process_line (default_config example_world ''echo'') example_world False initial_session
         ''echo >>> '' ''arg1'')))
     = [[''echo'', ''arg1'']]"
proof -
  let ?cfg = "default_config example_world ''echo''"
  have d: "dispatch_line ?cfg example_world False initial_session ''echo >>> '' ''arg1''
      = Execute ''arg1'' initial_session"
    by (simp add: dispatch_eval string_eval default_config_def)
  have b: "shlex_split (command ?cfg) = Inr [''echo'']"
    by (simp add: shlex_eval default_config_def)
  have u: "shlex_split ''arg1'' = Inr [''arg1'']"
    by (simp add: shlex_eval)
  have h: "\<forall>hook\<in>set (pre_command_hooks ?cfg). \<forall>e. hook (command ?cfg) ''arg1'' = Some e \<longrightarrow>
      is_Exception e \<and> printable ?cfg example_world (PreHookError e)"
    by (simp add: default_config_def)
  show ?thesis
    using argument_vector_is_base_then_user_tokens [OF d b u, THEN conjunct1] h
    by (simp add: initial_session_def)
qed

subsection \<open>Unterminated quotes\<close>

text \<open>
  C7, as stated, fails in two ways. The source tokenizes the base command and the line joined
  by a space, not the line: with the base command \<^verbatim>\<open>echo "\<close> the quote that the line
  \<^verbatim>\<open>hi"\<close> leaves open closes the quote of the base command, nothing is reported and a
  child is started with the arguments \<^verbatim>\<open>['echo', ' hi']\<close>. And a line is tokenized
  only when it is handed to execution: the line \<^verbatim>\<open>exit "abc\<close> ends the loop, because its
  first word is an exit word.
\<close>

theorem unterminated_quote_counterexample:
  "unterminated_quote (''hi'' @ [CHR 0x22]) \<and>
   run_repl_loop (default_config example_world (''echo '' @ [CHR 0x22])) example_world False
       initial_session [Line (''hi'' @ [CHR 0x22]), Line ''exit'']
     = Ended \<lparr>command_counter = 1, session_history = [''hi'' @ [CHR 0x22]],
         trace = [PopenCalled [''echo'', '' hi''], StdoutCallback ''done'']\<rparr> \<and>
   unterminated_quote (''exit '' @ CHR 0x22 # ''abc'') \<and>
   run_repl_loop (default_config example_world ''echo'') example_world False initial_session
       [Line (''exit '' @ CHR 0x22 # ''abc''), Line ''hi'']
     = Ended initial_session"
proof -
  let ?cfg = "default_config example_world (''echo '' @ [CHR 0x22])"
  let ?p = "''echo '' @ [CHR 0x22] @ '' >>> ''"
  let ?st1 = "\<lparr>command_counter = 1, session_history = [''hi'' @ [CHR 0x22]],
         trace = [PopenCalled [''echo'', '' hi''], StdoutCallback ''done'']\<rparr>"
  have u1: "unterminated_quote (''hi'' @ [CHR 0x22])"
    by (simp add: unterminated_quote_def shlex_whitespace_def shlex_quote_def shlex_escape_def)
  have u2: "unterminated_quote (''exit '' @ CHR 0x22 # ''abc'')"
    by (simp add: unterminated_quote_def shlex_whitespace_def shlex_quote_def shlex_escape_def)
  have g: "\<And>st. get_prompt ?cfg example_world st = Inr ?p"
    by (simp add: world_eval)
  have d1: "dispatch_line ?cfg example_world False initial_session ?p (''hi'' @ [CHR 0x22])
      = Execute (''hi'' @ [CHR 0x22]) initial_session"
    by (simp add: dispatch_eval string_eval default_config_def)
  have s1: "shlex_split ((''echo '' @ [CHR 0x22]) @ '' '' @ ''hi'' @ [CHR 0x22])
      = Inr [''echo'', '' hi'']"
    by (simp add: shlex_eval)
  have l1: "process_line ?cfg example_world False initial_session ?p (''hi'' @ [CHR 0x22])
      = Continue ?st1"
    using d1 s1 by (simp add: run_eval world_eval)
  have l2: "process_line ?cfg example_world False ?st1 ?p ''exit'' = Break ?st1"
    by (simp add: process_line_def dispatch_eval string_eval default_config_def)
  have a: "run_repl_loop ?cfg example_world False initial_session
      [Line (''hi'' @ [CHR 0x22]), Line ''exit''] = Ended ?st1"
    using run_repl_loop_Continue[OF g l1] run_repl_loop_Break[OF g l2] by simp
  let ?echo = "default_config example_world ''echo''"
  have g2: "get_prompt ?echo example_world initial_session = Inr ''echo >>> ''"
    by (simp add: world_eval)
  have l3: "process_line ?echo example_world False initial_session ''echo >>> ''
      (''exit '' @ CHR 0x22 # ''abc'') = Break initial_session"
    by (simp add: process_line_def dispatch_eval string_eval default_config_def)
  have b: "run_repl_loop ?echo example_world False initial_session
      [Line (''exit '' @ CHR 0x22 # ''abc''), Line ''hi''] = Ended initial_session"
    using run_repl_loop_Break[OF g2 l3] by simp
  show ?thesis using u1 a u2 b by blast
qed

text \<open>
  C7, amended. For a line with an unterminated quote that the dispatcher hands to execution
  (so not a line that begins with an exit word or a built-in command), when the base command
  tokenizes on its own, the pre-command hooks fail softly and the report can be printed: the
  tokenization of the line fails with a \<^verbatim>\<open>ValueError\<close> ("No closing quotation", or
  "No escaped character" when the line ends with a backslash inside the quote), the loop
  catches it, reports it as "Error executing command", does not call \<^verbatim>\<open>Popen\<close>, and
  goes on with the next prompt. The line is in the session history and the counter is
  incremented.
\<close>

theorem unterminated_quote_is_reported:
  assumes "dispatch_line cfg w log_file_handle st prompt_str raw = Execute a st1"
    and "shlex_split (command cfg) = Inr base"
    and "unterminated_quote a"
    and "pre_hooks_fail_softly cfg w a"
    and "printable cfg w (ErrorExecuting (ValueError ''No closing quotation''))"
    and "printable cfg w (ErrorExecuting (ValueError ''No escaped character''))"
  shows "\<exists>msg. (msg = ''No closing quotation'' \<or> msg = ''No escaped character'') \<and>
           shlex_split a = Inl (ValueError msg) \<and>
           process_line cfg w log_file_handle st prompt_str raw =
             Continue (increment_counter
               (emit (Shown (ErrorExecuting (ValueError msg)))
                  (st1\<lparr>session_history := session_history st1 @ [a],
                       trace := trace st1 @ pre_hook_events cfg a (pre_command_hooks cfg) 0\<rparr>))) \<and>
           (get_prompt cfg w st = Inr prompt_str \<longrightarrow>
              run_repl_loop cfg w log_file_handle st (Line raw # rs) =
                run_repl_loop cfg w log_file_handle
                  (increment_counter
                     (emit (Shown (ErrorExecuting (ValueError msg)))
                        (st1\<lparr>session_history := session_history st1 @ [a],
                             trace := trace st1
                               @ pre_hook_events cfg a (pre_command_hooks cfg) 0\<rparr>))) rs)"
proof -
  let ?st0 = "st1\<lparr>session_history := session_history st1 @ [a]\<rparr>"
  let ?st2 = "?st0\<lparr>trace := trace ?st0 @ pre_hook_events cfg a (pre_command_hooks cfg) 0\<rparr>"
  obtain msg where msg: "shlex_split a = Inl (ValueError msg)"
    using unterminated_quote_fails[OF assms(3)] by blast
  have which: "msg = ''No closing quotation'' \<or> msg = ''No escaped character''"
    using shlex_error_is_ValueError[of InSpace "[]" False a "ValueError msg"] msg
    by (simp add: shlex_split_def)
  have full: "shlex_split (command cfg @ '' '' @ a) = Inl (ValueError msg)"
    using shlex_split_command_line[OF assms(2), of a] msg by simp
  have pre: "run_pre_hooks cfg w a (pre_command_hooks cfg) 0 ?st0 = (None, ?st2)"
    by (rule run_pre_hooks_softly[OF assms(4)])
  have "printable cfg w (ErrorExecuting (ValueError msg))"
    using which assms(5,6) by blast
  then have "execute_command cfg w log_file_handle st1 a =
     Continue (increment_counter (emit (Shown (ErrorExecuting (ValueError msg))) ?st2))"
    using pre full
    by (simp add: execute_command_def Let_def run_command_def run_child_def
        is_FileNotFoundError_def report_and_count_printable)
  then have line: "process_line cfg w log_file_handle st prompt_str raw =
     Continue (increment_counter (emit (Shown (ErrorExecuting (ValueError msg))) ?st2))"
    using process_line_Execute[OF assms(1)] by simp
  have "run_repl_loop cfg w log_file_handle st (Line raw # rs) =
      run_repl_loop cfg w log_file_handle
        (increment_counter (emit (Shown (ErrorExecuting (ValueError msg))) ?st2)) rs"
    if "get_prompt cfg w st = Inr prompt_str"
    using run_repl_loop_Continue[OF that line] .
  then show ?thesis using msg which line by auto
qed

theorem unterminated_quote_is_reported_witness:
  "run_repl_loop (default_config example_world ''echo'') example_world False initial_session
       [Line (CHR 0x22 # ''abc''), Line ''exit'']
     = Ended \<lparr>command_counter = 1, session_history = [CHR 0x22 # ''abc''],
         trace = [Shown (ErrorExecuting (ValueError ''No closing quotation''))]\<rparr>"
proof -
  let ?cfg = "default_config example_world ''echo''"
  let ?st1 = "\<lparr>command_counter = 1, session_history = [CHR 0x22 # ''abc''],
         trace = [Shown (ErrorExecuting (ValueError ''No closing quotation''))]\<rparr>"
  have d: "dispatch_line ?cfg example_world False initial_session ''echo >>> '' (CHR 0x22 # ''abc'')
      = Execute (CHR 0x22 # ''abc'') initial_session"
    by (simp add: dispatch_eval string_eval default_config_def)
  have b: "shlex_split (command ?cfg) = Inr [''echo'']"
    by (simp add: shlex_eval default_config_def)
  have u: "unterminated_quote (CHR 0x22 # ''abc'')"
    by (simp add: unterminated_quote_def shlex_whitespace_def shlex_quote_def shlex_escape_def)
  have s: "shlex_split (CHR 0x22 # ''abc'') = Inl (ValueError ''No closing quotation'')"
    by (simp add: shlex_eval)
  have h: "pre_hooks_fail_softly ?cfg example_world (CHR 0x22 # ''abc'')"
    by (simp add: pre_hooks_fail_softly_def default_config_def)
  have pr: "\<And>m. printable ?cfg example_world m"
    by (simp add: printable_def default_config_def)
  have g: "get_prompt ?cfg example_world initial_session = Inr ''echo >>> ''"
    by (simp add: world_eval)
  obtain msg where m: "shlex_split (CHR 0x22 # ''abc'') = Inl (ValueError msg)"
    and loop: "get_prompt ?cfg example_world initial_session = Inr ''echo >>> '' \<longrightarrow>
      run_repl_loop ?cfg example_world False initial_session
          [Line (CHR 0x22 # ''abc''), Line ''exit'']
        = run_repl_loop ?cfg example_world False
            (increment_counter
               (emit (Shown (ErrorExecuting (ValueError msg)))
                  (initial_session\<lparr>session_history := session_history initial_session
                        @ [CHR 0x22 # ''abc''],
                     trace := trace initial_session
                        @ pre_hook_events ?cfg (CHR 0x22 # ''abc'') (pre_command_hooks ?cfg) 0\<rparr>)))
            [Line ''exit'']"
    using unterminated_quote_is_reported [OF d b u h pr pr, where rs = "[Line ''exit'']"] by blast
  have msg: "msg = ''No closing quotation''" using m s by simp
  have st: "increment_counter
               (emit (Shown (ErrorExecuting (ValueError msg)))
                  (initial_session\<lparr>session_history := session_history initial_session
                        @ [CHR 0x22 # ''abc''],
                     trace := trace initial_session
                        @ pre_hook_events ?cfg (CHR 0x22 # ''abc'') (pre_command_hooks ?cfg) 0\<rparr>))
      = ?st1"
    by (simp add: msg initial_session_def default_config_def increment_counter_def emit_def)
  have "run_repl_loop ?cfg example_world False ?st1 [Line ''exit''] = Ended ?st1"
    by (simp add: world_eval process_line_def dispatch_eval string_eval)
  then show ?thesis using loop g st by (simp del: run_repl_loop.simps)
qed

subsection \<open>The command counter\<close>

lemma raises_only_Exceptions_missing:
  "raises_only_Exceptions (default_config missing_world c) missing_world"
  by (simp add: raises_only_Exceptions_def default_config_def missing_world_def
      example_world_def decode_and_print_def)

lemma callbacks_default:
  "\<forall>data e. decode w data = Inl e \<longrightarrow> is_Exception e \<longrightarrow> e \<noteq> EOFError \<Longrightarrow>
   callbacks_raise_no_exit_Exception (default_config w c)"
  by (auto simp: callbacks_raise_no_exit_Exception_def default_config_def decode_and_print_def
      split: sum.splits)

lemma output_succeeds_plain: "output_succeeds (default_config w c) example_world False"
  by (simp add: output_succeeds_def printable_def loggable_def default_config_def)

lemma output_succeeds_missing: "output_succeeds (default_config w c) missing_world False"
  by (simp add: output_succeeds_def printable_def loggable_def default_config_def)

text \<open>
  C5, as stated, fails: the counter is incremented after the \<^verbatim>\<open>try\<close> that executes the
  command, so a command that reaches \<^verbatim>\<open>Popen\<close> is counted only when the body of the loop
  gets that far. Here the wait for the child is interrupted from the keyboard: \<^verbatim>\<open>Popen\<close>
  has been called, and the exception leaves the body of the loop with the counter still 0.
  The same happens under the rich console when the report of a command that was not found
  cannot be printed: the exception of the console is raised inside the \<^verbatim>\<open>except\<close> clause.
\<close>

theorem executed_command_not_counted_counterexample:
  "process_line (default_config interrupted_world ''sleep'') interrupted_world False
       initial_session ''sleep >>> '' ''100''
     = Raise KeyboardInterrupt \<lparr>command_counter = 0, session_history = [''100''],
         trace = [PopenCalled [''sleep'', ''100'']]\<rparr> \<and>
   process_line (rich_config rich_missing_world ''nosuch'') rich_missing_world False
       initial_session ''nosuch >>> '' ''[/x]''
     = Raise MarkupError \<lparr>command_counter = 0, session_history = [''[/x]''],
         trace = [PopenCalled [''nosuch'', ''[/x]'']]\<rparr>"
proof -
  let ?cfg = "default_config interrupted_world ''sleep''"
  let ?rich = "rich_config rich_missing_world ''nosuch''"
  have d: "dispatch_line ?cfg interrupted_world False initial_session ''sleep >>> '' ''100''
      = Execute ''100'' initial_session"
    by (simp add: dispatch_eval string_eval default_config_def)
  have s: "shlex_split ''sleep 100'' = Inr [''sleep'', ''100'']"
    by (simp add: shlex_eval)
  have a: "process_line ?cfg interrupted_world False initial_session ''sleep >>> '' ''100''
     = Raise KeyboardInterrupt \<lparr>command_counter = 0, session_history = [''100''],
         trace = [PopenCalled [''sleep'', ''100'']]\<rparr>"
    using d s by (simp add: run_eval world_eval)
  have d2: "dispatch_line ?rich rich_missing_world False initial_session ''nosuch >>> '' ''[/x]''
      = Execute ''[/x]'' initial_session"
    by (simp add: dispatch_eval string_eval world_eval)
  have s2: "shlex_split ''nosuch [/x]'' = Inr [''nosuch'', ''[/x]'']"
    by (simp add: shlex_eval)
  have b: "process_line ?rich rich_missing_world False initial_session ''nosuch >>> '' ''[/x]''
     = Raise MarkupError \<lparr>command_counter = 0, session_history = [''[/x]''],
         trace = [PopenCalled [''nosuch'', ''[/x]'']]\<rparr>"
    using d2 s2 by (simp add: run_eval world_eval)
  show ?thesis using a b by blast
qed

text \<open>
  C5, amended. A line that the dispatcher does not hand to execution leaves the counter as it
  is; blank lines, lines whose first word is an exit word, the built-in commands
  \<^verbatim>\<open>help\<close>, \<^verbatim>\<open>?\<close>, \<^verbatim>\<open>history\<close> and \<^verbatim>\<open>clear\<close>, and history references
  \<^verbatim>\<open>!n\<close> that are not numbers or are out of range are such lines. For a line that is
  handed to execution, the counter is incremented by exactly one whenever the loop goes on to
  the next prompt, and it is left as it is when an exception leaves the body of the loop. The
  loop goes on, with the counter incremented, whatever the outcome of the command is, as long
  as that outcome is an instance of \<^verbatim>\<open>Exception\<close> and its report can be printed:
  \<^verbatim>\<open>FileNotFoundError\<close> (command not found), a timeout, a tokenization error and any
  other execution error are all counted.
\<close>

theorem counter_counts_executed_commands:
  "((\<forall>a s. dispatch_line cfg w log_file_handle st prompt_str raw \<noteq> Execute a s) \<longrightarrow>
      command_counter (outcome_session (process_line cfg w log_file_handle st prompt_str raw))
        = command_counter st) \<and>
   (py_strip raw = [] \<or>
    first_word (py_strip raw) \<in> set (exit_commands cfg) \<or>
    first_word (py_strip raw) \<in> set [''help'', ''?'', ''history'', ''clear''] \<or>
    (\<exists>n. py_strip raw = CHR ''!'' # n \<and> n \<noteq> [] \<and> (\<forall>c\<in>set n. \<not> py_isspace c) \<and>
         (case py_int (int_max_str_digits w) n of
            None \<Rightarrow> True
          | Some k \<Rightarrow> \<not> (0 \<le> k \<and> k < int (length (session_history st))))) \<longrightarrow>
      (\<forall>a s. dispatch_line cfg w log_file_handle st prompt_str raw \<noteq> Execute a s)) \<and>
   (\<forall>a s. dispatch_line cfg w log_file_handle st prompt_str raw = Execute a s \<longrightarrow>
      (\<forall>st'. process_line cfg w log_file_handle st prompt_str raw = Continue st' \<longrightarrow>
         command_counter st' = command_counter st + 1) \<and>
      (\<forall>e st'. process_line cfg w log_file_handle st prompt_str raw = Raise e st' \<longrightarrow>
         command_counter st' = command_counter st) \<and>
      (raises_only_Exceptions cfg w \<and> callbacks_raise_no_exit_Exception cfg \<and>
       output_succeeds cfg w log_file_handle \<longrightarrow>
         (\<exists>st'. process_line cfg w log_file_handle st prompt_str raw = Continue st' \<and>
                command_counter st' = command_counter st + 1 \<and>
                (get_prompt cfg w st = Inr prompt_str \<longrightarrow>
                   run_repl_loop cfg w log_file_handle st (Line raw # rs)
                     = run_repl_loop cfg w log_file_handle st' rs))))"
proof (intro conjI impI allI)
  assume "\<forall>a s. dispatch_line cfg w log_file_handle st prompt_str raw \<noteq> Execute a s"
  then show "command_counter (outcome_session (process_line cfg w log_file_handle st prompt_str raw))
      = command_counter st"
    using process_line_not_executed by blast
next
  fix a s
  assume classes: "py_strip raw = [] \<or>
    first_word (py_strip raw) \<in> set (exit_commands cfg) \<or>
    first_word (py_strip raw) \<in> set [''help'', ''?'', ''history'', ''clear''] \<or>
    (\<exists>n. py_strip raw = CHR ''!'' # n \<and> n \<noteq> [] \<and> (\<forall>c\<in>set n. \<not> py_isspace c) \<and>
         (case py_int (int_max_str_digits w) n of
            None \<Rightarrow> True
          | Some k \<Rightarrow> \<not> (0 \<le> k \<and> k < int (length (session_history st)))))"
  show "dispatch_line cfg w log_file_handle st prompt_str raw \<noteq> Execute a s"
  proof -
    consider (blank) "py_strip raw = []"
      | (exit) "first_word (py_strip raw) \<in> set (exit_commands cfg)"
      | (builtin) "first_word (py_strip raw) \<in> set [''help'', ''?'', ''history'', ''clear'']"
      | (reference) n where "py_strip raw = CHR ''!'' # n" "n \<noteq> []" "\<forall>c\<in>set n. \<not> py_isspace c"
          "case py_int (int_max_str_digits w) n of None \<Rightarrow> True
           | Some k \<Rightarrow> \<not> (0 \<le> k \<and> k < int (length (session_history st)))"
          "first_word (py_strip raw) \<notin> set (exit_commands cfg)"
      using classes by blast
    then show ?thesis
    proof cases
      case blank
      then show ?thesis by (simp add: dispatch_line_blank)
    next
      case exit
      then show ?thesis by (rule dispatch_line_exit_word)
    next
      case builtin
      then show ?thesis by (rule dispatch_line_builtin_word)
    next
      case reference
      have "first_word (CHR ''!'' # n) = CHR ''!'' # n"
        using bang_word_nospace[OF reference(3)] by (intro first_word_nospace) simp_all
      then have nx: "CHR ''!'' # n \<notin> set (exit_commands cfg)"
        using reference(1,5) by simp
      obtain r1 st1 where l: "write_log w log_file_handle
          (prompt_str @ (CHR ''!'' # n) @ [CHR 0x0A]) st = (r1, st1)"
        by (cases "write_log w log_file_handle (prompt_str @ (CHR ''!'' # n) @ [CHR 0x0A]) st")
          auto
      show ?thesis
      proof (cases r1)
        case (Some e)
        obtain h st2 where hb: "handle_builtin_command cfg w st1 (CHR ''!'' # n) = (h, st2)"
          by (cases "handle_builtin_command cfg w st1 (CHR ''!'' # n)") auto
        have ne: "CHR ''!'' # n \<noteq> []" by simp
        show ?thesis
          unfolding dispatch_line_unfold[OF reference(1) ne l hb] using Some by simp
      next
        case None
        show ?thesis
          unfolding dispatch_line_bang[OF reference(1,2,3) nx l[unfolded None]]
          using reference(4) by (auto split: option.splits prod.splits)
      qed
    qed
  qed
next
  fix a s st'
  assume d: "dispatch_line cfg w log_file_handle st prompt_str raw = Execute a s"
    and c: "process_line cfg w log_file_handle st prompt_str raw = Continue st'"
  have "execute_command cfg w log_file_handle s a = Continue st'"
    using process_line_Execute[OF d] c by simp
  then have "command_counter st' = command_counter s + 1"
    using execute_command_counter[of cfg w log_file_handle s a] by simp
  then show "command_counter st' = command_counter st + 1"
    using dispatch_line_Execute_frame[OF d] by simp
next
  fix a s e st'
  assume d: "dispatch_line cfg w log_file_handle st prompt_str raw = Execute a s"
    and r: "process_line cfg w log_file_handle st prompt_str raw = Raise e st'"
  have x: "execute_command cfg w log_file_handle s a = Raise e st'"
    using process_line_Execute[OF d] r by simp
  then have "command_counter st' = command_counter s"
    using execute_command_counter[of cfg w log_file_handle s a] by simp
  then show "command_counter st' = command_counter st"
    using dispatch_line_Execute_frame[OF d] by simp
next
  fix a s
  assume d: "dispatch_line cfg w log_file_handle st prompt_str raw = Execute a s"
    and h: "raises_only_Exceptions cfg w \<and> callbacks_raise_no_exit_Exception cfg \<and>
       output_succeeds cfg w log_file_handle"
  obtain st' where c: "process_line cfg w log_file_handle st prompt_str raw = Continue st'"
    and n: "command_counter st' = command_counter st + 1"
    using process_line_executed[OF d] h by blast
  have "run_repl_loop cfg w log_file_handle st (Line raw # rs)
      = run_repl_loop cfg w log_file_handle st' rs"
    if "get_prompt cfg w st = Inr prompt_str"
    using run_repl_loop_Continue[OF that c] .
  then show "\<exists>st'. process_line cfg w log_file_handle st prompt_str raw = Continue st' \<and>
                command_counter st' = command_counter st + 1 \<and>
                (get_prompt cfg w st = Inr prompt_str \<longrightarrow>
                   run_repl_loop cfg w log_file_handle st (Line raw # rs)
                     = run_repl_loop cfg w log_file_handle st' rs)"
    using c n by blast
qed

theorem counter_counts_executed_commands_witness:
  "command_counter (outcome_session
      (process_line (default_config missing_world ''nosuch'') missing_world False initial_session
         ''nosuch >>> '' ''help'')) = 0 \<and>
   (\<exists>st'. process_line (default_config missing_world ''nosuch'') missing_world False
            initial_session ''nosuch >>> '' ''-v'' = Continue st' \<and>
          command_counter st' = 1 \<and>
          run_repl_loop (default_config missing_world ''nosuch'') missing_world False
            initial_session [Line ''-v'', Line ''exit'']
          = run_repl_loop (default_config missing_world ''nosuch'') missing_world False st'
              [Line ''exit''])"
proof -
  let ?cfg = "default_config missing_world ''nosuch''"
  note thm_builtin = counter_counts_executed_commands
    [where cfg = ?cfg and w = missing_world and log_file_handle = False
       and st = initial_session and prompt_str = "''nosuch >>> ''" and raw = "''help''"
       and rs = "[]"]
  note thm_v = counter_counts_executed_commands
    [where cfg = ?cfg and w = missing_world and log_file_handle = False
       and st = initial_session and prompt_str = "''nosuch >>> ''" and raw = "''-v''"
       and rs = "[Line ''exit'']"]
  have fw: "first_word (py_strip ''help'') \<in> set [''help'', ''?'', ''history'', ''clear'']"
    by (simp add: first_word_def py_split_def string_eval)
  have "\<forall>a s. dispatch_line ?cfg missing_world False initial_session ''nosuch >>> '' ''help''
      \<noteq> Execute a s"
    using thm_builtin [THEN conjunct2, THEN conjunct1] fw by blast
  then have "command_counter (outcome_session
      (process_line ?cfg missing_world False initial_session ''nosuch >>> '' ''help''))
      = command_counter initial_session"
    using thm_builtin [THEN conjunct1] by blast
  then have builtin: "command_counter (outcome_session
      (process_line ?cfg missing_world False initial_session ''nosuch >>> '' ''help'')) = 0"
    by (simp add: initial_session_def)
  have d: "dispatch_line ?cfg missing_world False initial_session ''nosuch >>> '' ''-v''
      = Execute ''-v'' initial_session"
    by (simp add: dispatch_eval string_eval default_config_def)
  have cb: "callbacks_raise_no_exit_Exception ?cfg"
    by (intro callbacks_default) (simp add: missing_world_def example_world_def)
  have g: "get_prompt ?cfg missing_world initial_session = Inr ''nosuch >>> ''"
    by (simp add: world_eval)
  obtain st' where c: "process_line ?cfg missing_world False initial_session ''nosuch >>> '' ''-v''
      = Continue st'" and n: "command_counter st' = command_counter initial_session + 1"
    and l: "get_prompt ?cfg missing_world initial_session = Inr ''nosuch >>> '' \<longrightarrow>
      run_repl_loop ?cfg missing_world False initial_session [Line ''-v'', Line ''exit'']
        = run_repl_loop ?cfg missing_world False st' [Line ''exit'']"
    using thm_v [THEN conjunct2, THEN conjunct2] d raises_only_Exceptions_missing cb
      output_succeeds_missing
    by blast
  have "command_counter st' = 1"
    using n by (simp add: initial_session_def)
  then show ?thesis using builtin c l g by blast
qed

subsection \<open>Hooks and the execution around them\<close>

lemma handle_output_quiet:
  assumes "data = [] \<or>
      (callback data = None \<and> (lg \<longrightarrow> (\<exists>s. decode w data = Inr s \<and> log_write w s = None)))"
  shows "\<exists>st'. handle_output w lg callback called data st = (None, st')"
  using assms by (auto simp: handle_output_def Let_def write_log_def)

lemma run_child_returns:
  assumes "shlex_split full = Inr argv" and "popen w argv = Inr p"
    and "communicate p (timeout cfg) = Inr (out, err)"
    and "out = [] \<or> (stdout_callback cfg out = None \<and>
           (lg \<longrightarrow> (\<exists>s. decode w out = Inr s \<and> log_write w s = None)))"
    and "err = [] \<or> (stderr_callback cfg err = None \<and>
           (lg \<longrightarrow> (\<exists>s. decode w err = Inr s \<and> log_write w s = None)))"
    and "show_return_code cfg \<and> exit_status p \<noteq> 0 \<longrightarrow>
           printable cfg w (ReturnCode (exit_status p))"
  shows "\<exists>st'. run_child cfg w lg full st = (Inr (out, err, exit_status p), st')"
proof -
  let ?st0 = "emit (PopenCalled argv) st"
  have w1: "wait_for_command cfg w p ?st0 = (Inr (out, err, exit_status p), ?st0)"
    using assms(3) by (simp add: wait_for_command_def)
  obtain st2 where h1: "handle_output w lg (stdout_callback cfg) StdoutCallback out ?st0 = (None, st2)"
    using handle_output_quiet[where callback = "stdout_callback cfg", OF assms(4)] by blast
  obtain st3 where h2: "handle_output w lg (stderr_callback cfg) StderrCallback err st2 = (None, st3)"
    using handle_output_quiet[where callback = "stderr_callback cfg", OF assms(5)] by blast
  show ?thesis
    using assms(1,2,6) w1 h1 h2
    by (auto simp: run_child_def print_message_printable)
qed

lemma execute_command_after_hooks:
  assumes "run_pre_hooks cfg w a (pre_command_hooks cfg) 0
             (st\<lparr>session_history := session_history st @ [a]\<rparr>) = (None, st1)"
    and "run_command cfg w lg (command cfg @ '' '' @ a) a st1 = (r2, st2)"
  shows "trace (outcome_session (execute_command cfg w lg st a)) = trace st2 \<or>
         (\<exists>m. trace (outcome_session (execute_command cfg w lg st a)) = trace st2 @ [Shown m])"
proof (cases r2)
  case None
  then show ?thesis using assms by (simp add: execute_command_def)
next
  case (Some e)
  have r: "trace (outcome_session (report_and_count cfg w m st2)) = trace st2 \<or>
      trace (outcome_session (report_and_count cfg w m st2)) = trace st2 @ [Shown m]" for m
    using report_and_count_cases(1,2)[of cfg w m st2] report_and_count_cases(3)[of cfg w m st2]
    by (cases "report_and_count cfg w m st2") auto
  show ?thesis
    using assms Some r[of "CommandNotFound (command cfg @ '' '' @ a)"] r[of "ErrorExecuting e"]
    by (auto simp: execute_command_def Let_def)
qed

text \<open>
  C6, as stated, fails in three ways. The post-command hooks are called inside the
  \<^verbatim>\<open>try\<close> that executes the command, after the output has been routed, so an execution
  that raises before that point skips them: here two post-command hooks are registered,
  \<^verbatim>\<open>Popen\<close> raises \<^verbatim>\<open>FileNotFoundError\<close>, and no post-command hook is attempted.
  The handler around a hook is \<^verbatim>\<open>except Exception\<close>, so a hook that raises
  \<^verbatim>\<open>KeyboardInterrupt\<close> is not isolated: the second hook is not attempted, the command is
  not executed, and the loop ends. And under the rich console the report of a hook failure is
  printed with the text of the exception interpolated into console markup: for a hook that
  raises an exception with the message \<^verbatim>\<open>[/x]\<close> the console raises inside the handler,
  the second hook is not attempted, the command is not executed, and the exception propagates
  to the caller.
\<close>

theorem post_hooks_skipped_counterexample:
  "length (post_command_hooks (hooked_config missing_world ''nosuch'')) = 2 \<and>
   process_line (hooked_config missing_world ''nosuch'') missing_world False initial_session
       ''nosuch >>> '' ''-v''
     = Continue \<lparr>command_counter = 1, session_history = [''-v''],
         trace = [PreHookCalled 0 ''nosuch'' ''-v'', Shown (PreHookError (CustomException ''pre'')),
                  PreHookCalled 1 ''nosuch'' ''-v'', PopenCalled [''nosuch'', ''-v''],
                  Shown (CommandNotFound ''nosuch -v'')]\<rparr> \<and>
   post_hook_calls (trace (outcome_session
       (process_line (hooked_config missing_world ''nosuch'') missing_world False initial_session
          ''nosuch >>> '' ''-v''))) = [] \<and>
   run_repl_loop (interrupting_hook_config example_world ''echo'') example_world False
       initial_session [Line ''hi'', Line ''ho'']
     = Ended \<lparr>command_counter = 0, session_history = [''hi''],
         trace = [PreHookCalled 0 ''echo'' ''hi'']\<rparr> \<and>
   run_repl_loop (markup_hook_config rich_world ''echo'') rich_world False
       initial_session [Line ''hi'', Line ''ho'']
     = Propagated MarkupError \<lparr>command_counter = 0, session_history = [''hi''],
         trace = [PreHookCalled 0 ''echo'' ''hi'']\<rparr>"
proof -
  have d: "dispatch_line (hooked_config missing_world ''nosuch'') missing_world False
      initial_session ''nosuch >>> '' ''-v'' = Execute ''-v'' initial_session"
    by (simp add: dispatch_eval string_eval hooked_config_def default_config_def)
  have s: "shlex_split ''nosuch -v'' = Inr [''nosuch'', ''-v'']"
    by (simp add: shlex_eval)
  have p: "process_line (hooked_config missing_world ''nosuch'') missing_world False initial_session
       ''nosuch >>> '' ''-v''
     = Continue \<lparr>command_counter = 1, session_history = [''-v''],
         trace = [PreHookCalled 0 ''nosuch'' ''-v'', Shown (PreHookError (CustomException ''pre'')),
                  PreHookCalled 1 ''nosuch'' ''-v'', PopenCalled [''nosuch'', ''-v''],
                  Shown (CommandNotFound ''nosuch -v'')]\<rparr>"
    using d s
    by (simp add: run_eval hooked_config_def default_config_def missing_world_def
        example_world_def initial_session_def)
  let ?ki = "interrupting_hook_config example_world ''echo''"
  have g2: "get_prompt ?ki example_world initial_session = Inr ''echo >>> ''"
    by (simp add: world_eval interrupting_hook_config_def)
  have d2: "dispatch_line ?ki example_world False initial_session ''echo >>> '' ''hi''
      = Execute ''hi'' initial_session"
    by (simp add: dispatch_eval string_eval interrupting_hook_config_def default_config_def)
  have p2: "process_line ?ki example_world False initial_session ''echo >>> '' ''hi''
      = Raise KeyboardInterrupt \<lparr>command_counter = 0, session_history = [''hi''],
         trace = [PreHookCalled 0 ''echo'' ''hi'']\<rparr>"
    using d2 by (simp add: run_eval world_eval interrupting_hook_config_def)
  have l2: "run_repl_loop ?ki example_world False initial_session [Line ''hi'', Line ''ho'']
     = Ended \<lparr>command_counter = 0, session_history = [''hi''],
         trace = [PreHookCalled 0 ''echo'' ''hi'']\<rparr>"
    using run_repl_loop_Raise[OF g2 p2]
    by (simp add: exit_or_propagate_def interrupting_hook_config_def default_config_def)
  let ?mk = "markup_hook_config rich_world ''echo''"
  have g3: "get_prompt ?mk rich_world initial_session = Inr ''echo >>> ''"
    by (simp add: world_eval markup_hook_config_def)
  have d3: "dispatch_line ?mk rich_world False initial_session ''echo >>> '' ''hi''
      = Execute ''hi'' initial_session"
    by (simp add: dispatch_eval string_eval markup_hook_config_def world_eval)
  have p3: "process_line ?mk rich_world False initial_session ''echo >>> '' ''hi''
      = Raise MarkupError \<lparr>command_counter = 0, session_history = [''hi''],
         trace = [PreHookCalled 0 ''echo'' ''hi'']\<rparr>"
    using d3 by (simp add: run_eval world_eval markup_hook_config_def)
  have l3: "run_repl_loop ?mk rich_world False initial_session [Line ''hi'', Line ''ho'']
     = Propagated MarkupError \<lparr>command_counter = 0, session_history = [''hi''],
         trace = [PreHookCalled 0 ''echo'' ''hi'']\<rparr>"
    using run_repl_loop_Raise[OF g3 p3]
    by (simp add: exit_or_propagate_def markup_hook_config_def rich_config_def default_config_def)
  show ?thesis
    using p l2 l3 by (simp add: hooked_config_def)
qed

text \<open>
  C6, amended. A failure of a hook that the loop isolates is an exception that is an instance
  of \<^verbatim>\<open>Exception\<close> and whose report can be printed (\<open>pre_hooks_fail_softly\<close>,
  \<open>post_hooks_fail_softly\<close>). When the pre-command hooks fail in no other way, the loop over
  them attempts every registered hook in registration order, reports each failure right after
  the hook that raised it, and ends normally; every executed line has the events of all its
  pre-command hooks in its trace, followed by the execution of the command, which calls
  \<^verbatim>\<open>Popen\<close> when the command line tokenizes. The post-command hooks are reached only
  when the part of the execution before them (\<open>run_child\<close>: the start of the child, the wait
  for it, the routing of its output, the display of the return code) ends without an
  exception: an execution in which that part raises attempts no post-command hook, and one in
  which it returns attempts every post-command hook in registration order, when they fail
  softly. That part returns when the command line tokenizes, the child starts, the wait
  returns, the callbacks return, the output can be logged and the return code can be shown.
  A pre-command hook that raises an exception outside \<^verbatim>\<open>Exception\<close> is not isolated:
  the hooks after it are not attempted, the command is not executed, and the exception leaves
  the body of the loop. A post-command hook that raises such an exception is not isolated
  either: the hooks after it are not attempted and the exception leaves the loop over the
  post-command hooks. When nothing raises an exception outside \<^verbatim>\<open>Exception\<close> and
  every message and log line can be written, the loop goes on with the next prompt.
\<close>

theorem hook_failures_are_isolated:
  "(pre_hooks_fail_softly cfg w a \<longrightarrow>
      run_pre_hooks cfg w a (pre_command_hooks cfg) 0 st
        = (None, st\<lparr>trace := trace st @ pre_hook_events cfg a (pre_command_hooks cfg) 0\<rparr>) \<and>
      (\<exists>evs. trace (outcome_session (execute_command cfg w log_file_handle st a))
               = trace st @ pre_hook_events cfg a (pre_command_hooks cfg) 0 @ evs \<and>
             popen_calls evs =
               (case shlex_split (command cfg @ '' '' @ a) of
                  Inl e \<Rightarrow> [] | Inr argv \<Rightarrow> [argv])) \<and>
      (\<forall>r s. run_child cfg w log_file_handle (command cfg @ '' '' @ a)
                (st\<lparr>session_history := session_history st @ [a],
                    trace := trace st @ pre_hook_events cfg a (pre_command_hooks cfg) 0\<rparr>)
              = (r, s) \<longrightarrow>
         (\<forall>e. r = Inl e \<longrightarrow>
            post_hook_calls (trace (outcome_session (execute_command cfg w log_file_handle st a)))
              = post_hook_calls (trace st)) \<and>
         (\<forall>res. r = Inr res \<and> post_hooks_fail_softly cfg w a \<longrightarrow>
            post_hook_calls (trace (outcome_session (execute_command cfg w log_file_handle st a)))
              = post_hook_calls (trace st) @ [0..<length (post_command_hooks cfg)])) \<and>
      (\<forall>argv p out err.
         shlex_split (command cfg @ '' '' @ a) = Inr argv \<and> popen w argv = Inr p \<and>
         communicate p (timeout cfg) = Inr (out, err) \<and>
         (out = [] \<or> (stdout_callback cfg out = None \<and>
            (log_file_handle \<longrightarrow> (\<exists>s. decode w out = Inr s \<and> log_write w s = None)))) \<and>
         (err = [] \<or> (stderr_callback cfg err = None \<and>
            (log_file_handle \<longrightarrow> (\<exists>s. decode w err = Inr s \<and> log_write w s = None)))) \<and>
         (show_return_code cfg \<and> exit_status p \<noteq> 0 \<longrightarrow>
            printable cfg w (ReturnCode (exit_status p))) \<and>
         post_hooks_fail_softly cfg w a \<longrightarrow>
         post_hook_calls (trace (outcome_session (execute_command cfg w log_file_handle st a)))
           = post_hook_calls (trace st) @ [0..<length (post_command_hooks cfg)])) \<and>
   (post_hooks_fail_softly cfg w a \<longrightarrow>
      run_post_hooks cfg w a rc out err (post_command_hooks cfg) 0 st
        = (None, st\<lparr>trace := trace st
             @ post_hook_events cfg a rc out err (post_command_hooks cfg) 0\<rparr>)) \<and>
   (pre_command_hooks cfg = hs1 @ hook # hs2 \<and>
    (\<forall>h\<in>set hs1. \<forall>e. h (command cfg) a = Some e \<longrightarrow>
       is_Exception e \<and> printable cfg w (PreHookError e)) \<and>
    hook (command cfg) a = Some exc \<and> \<not> is_Exception exc \<longrightarrow>
      execute_command cfg w log_file_handle st a
        = Raise exc (st\<lparr>session_history := session_history st @ [a],
                        trace := trace st @ pre_hook_events cfg a hs1 0
                          @ [PreHookCalled (length hs1) (command cfg) a]\<rparr>)) \<and>
   (post_command_hooks cfg = ps1 @ post # ps2 \<and>
    (\<forall>h\<in>set ps1. \<forall>e. h (command cfg) a rc out err = Some e \<longrightarrow>
       is_Exception e \<and> printable cfg w (PostHookError e)) \<and>
    post (command cfg) a rc out err = Some exc \<and> \<not> is_Exception exc \<longrightarrow>
      run_post_hooks cfg w a rc out err (post_command_hooks cfg) 0 st
        = (Some exc, st\<lparr>trace := trace st @ post_hook_events cfg a rc out err ps1 0
                          @ [PostHookCalled (length ps1) (command cfg) a rc out err]\<rparr>)) \<and>
   (raises_only_Exceptions cfg w \<and> callbacks_raise_no_exit_Exception cfg \<and>
    output_succeeds cfg w log_file_handle \<longrightarrow>
      (\<exists>st'. execute_command cfg w log_file_handle st a = Continue st') \<and>
      (dispatch_line cfg w log_file_handle st0 prompt_str raw = Execute a st \<and>
       get_prompt cfg w st0 = Inr prompt_str \<longrightarrow>
         (\<exists>st'. run_repl_loop cfg w log_file_handle st0 (Line raw # rs)
                = run_repl_loop cfg w log_file_handle st' rs)))"
  (is "(?soft \<longrightarrow> ?A) \<and> (?postsoft \<longrightarrow> ?B) \<and> (?escapes \<longrightarrow> ?C) \<and>
       (?postescapes \<longrightarrow> ?E) \<and> (?calm \<longrightarrow> ?D)")
proof -
  let ?st0 = "st\<lparr>session_history := session_history st @ [a]\<rparr>"
  let ?st1 = "st\<lparr>session_history := session_history st @ [a],
                 trace := trace st @ pre_hook_events cfg a (pre_command_hooks cfg) 0\<rparr>"
  let ?full = "command cfg @ '' '' @ a"
  let ?lg = log_file_handle
  have A: ?A if soft: ?soft
  proof (intro conjI)
    show "run_pre_hooks cfg w a (pre_command_hooks cfg) 0 st
        = (None, st\<lparr>trace := trace st @ pre_hook_events cfg a (pre_command_hooks cfg) 0\<rparr>)"
      by (rule run_pre_hooks_softly[OF soft])
    have pre: "run_pre_hooks cfg w a (pre_command_hooks cfg) 0 ?st0 = (None, ?st1)"
      using run_pre_hooks_softly[OF soft, of 0 ?st0] by simp
    obtain r2 st2 where rc: "run_command cfg w ?lg ?full a ?st1 = (r2, st2)"
      by (cases "run_command cfg w ?lg ?full a ?st1") auto
    note after = execute_command_after_hooks[OF pre rc]
    show "\<exists>evs. trace (outcome_session (execute_command cfg w ?lg st a))
               = trace st @ pre_hook_events cfg a (pre_command_hooks cfg) 0 @ evs \<and>
             popen_calls evs = (case shlex_split ?full of Inl e \<Rightarrow> [] | Inr argv \<Rightarrow> [argv])"
    proof -
      obtain q where "extends_with ?st1 st2
          (case shlex_split ?full of Inl e \<Rightarrow> [] | Inr argv \<Rightarrow> [argv]) q"
        using run_command_frame[OF rc] by blast
      then obtain evs2 where evs2: "trace st2 = trace ?st1 @ evs2"
        and pc: "popen_calls evs2 = (case shlex_split ?full of Inl e \<Rightarrow> [] | Inr argv \<Rightarrow> [argv])"
        using extends_with_fields(5) by blast
      from after show ?thesis
      proof
        assume "trace (outcome_session (execute_command cfg w ?lg st a)) = trace st2"
        then show ?thesis using evs2 pc by simp
      next
        assume "\<exists>m. trace (outcome_session (execute_command cfg w ?lg st a)) = trace st2 @ [Shown m]"
        then obtain m where
          "trace (outcome_session (execute_command cfg w ?lg st a)) = trace st2 @ [Shown m]"
          by blast
        then have "trace (outcome_session (execute_command cfg w ?lg st a))
            = trace st @ pre_hook_events cfg a (pre_command_hooks cfg) 0 @ (evs2 @ [Shown m])"
          using evs2 by simp
        moreover have "popen_calls (evs2 @ [Shown m])
            = (case shlex_split ?full of Inl e \<Rightarrow> [] | Inr argv \<Rightarrow> [argv])"
          using pc by simp
        ultimately show ?thesis by blast
      qed
    qed
    have posts: "post_hook_calls (trace (outcome_session (execute_command cfg w ?lg st a)))
        = post_hook_calls (trace st2)"
      using after by auto
    have child: "(\<forall>e. r = Inl e \<longrightarrow>
            post_hook_calls (trace (outcome_session (execute_command cfg w ?lg st a)))
              = post_hook_calls (trace st)) \<and>
         (\<forall>res. r = Inr res \<and> post_hooks_fail_softly cfg w a \<longrightarrow>
            post_hook_calls (trace (outcome_session (execute_command cfg w ?lg st a)))
              = post_hook_calls (trace st) @ [0..<length (post_command_hooks cfg)])"
      if c: "run_child cfg w ?lg ?full ?st1 = (r, s)" for r s
      using run_command_post_hook_calls[OF rc c] posts by auto
    then show "\<forall>r s. run_child cfg w ?lg ?full ?st1 = (r, s) \<longrightarrow>
         (\<forall>e. r = Inl e \<longrightarrow>
            post_hook_calls (trace (outcome_session (execute_command cfg w ?lg st a)))
              = post_hook_calls (trace st)) \<and>
         (\<forall>res. r = Inr res \<and> post_hooks_fail_softly cfg w a \<longrightarrow>
            post_hook_calls (trace (outcome_session (execute_command cfg w ?lg st a)))
              = post_hook_calls (trace st) @ [0..<length (post_command_hooks cfg)])"
      by blast
    show "\<forall>argv p out err.
         shlex_split ?full = Inr argv \<and> popen w argv = Inr p \<and>
         communicate p (timeout cfg) = Inr (out, err) \<and>
         (out = [] \<or> (stdout_callback cfg out = None \<and>
            (?lg \<longrightarrow> (\<exists>s. decode w out = Inr s \<and> log_write w s = None)))) \<and>
         (err = [] \<or> (stderr_callback cfg err = None \<and>
            (?lg \<longrightarrow> (\<exists>s. decode w err = Inr s \<and> log_write w s = None)))) \<and>
         (show_return_code cfg \<and> exit_status p \<noteq> 0 \<longrightarrow>
            printable cfg w (ReturnCode (exit_status p))) \<and>
         post_hooks_fail_softly cfg w a \<longrightarrow>
         post_hook_calls (trace (outcome_session (execute_command cfg w ?lg st a)))
           = post_hook_calls (trace st) @ [0..<length (post_command_hooks cfg)]"
    proof (intro allI impI, elim conjE)
      fix argv p out err
      assume h: "shlex_split ?full = Inr argv" "popen w argv = Inr p"
        "communicate p (timeout cfg) = Inr (out, err)"
        "out = [] \<or> (stdout_callback cfg out = None \<and>
            (?lg \<longrightarrow> (\<exists>s. decode w out = Inr s \<and> log_write w s = None)))"
        "err = [] \<or> (stderr_callback cfg err = None \<and>
            (?lg \<longrightarrow> (\<exists>s. decode w err = Inr s \<and> log_write w s = None)))"
        "show_return_code cfg \<and> exit_status p \<noteq> 0 \<longrightarrow>
            printable cfg w (ReturnCode (exit_status p))"
        and post: "post_hooks_fail_softly cfg w a"
      obtain s where "run_child cfg w ?lg ?full ?st1 = (Inr (out, err, exit_status p), s)"
        using run_child_returns[OF h, of ?st1] by blast
      from child[OF this] post
      show "post_hook_calls (trace (outcome_session (execute_command cfg w ?lg st a)))
           = post_hook_calls (trace st) @ [0..<length (post_command_hooks cfg)]"
        by blast
    qed
  qed
  have B: ?B if ?postsoft
    using that by (rule run_post_hooks_softly)
  have C: ?C if h: ?escapes
  proof -
    have "run_pre_hooks cfg w a (pre_command_hooks cfg) 0 ?st0
        = run_pre_hooks cfg w a (hook # hs2) (0 + length hs1)
            (?st0\<lparr>trace := trace ?st0 @ pre_hook_events cfg a hs1 0\<rparr>)"
      using h run_pre_hooks_append[of hs1 cfg a w "hook # hs2" 0 ?st0] by simp
    also have "\<dots> = (Some exc, emit (PreHookCalled (length hs1) (command cfg) a)
            (?st0\<lparr>trace := trace ?st0 @ pre_hook_events cfg a hs1 0\<rparr>))"
      using h by (simp add: Let_def)
    finally show ?thesis
      by (simp add: execute_command_def emit_def)
  qed
  have E: ?E if h: ?postescapes
  proof -
    have "run_post_hooks cfg w a rc out err (post_command_hooks cfg) 0 st
        = run_post_hooks cfg w a rc out err (post # ps2) (0 + length ps1)
            (st\<lparr>trace := trace st @ post_hook_events cfg a rc out err ps1 0\<rparr>)"
      using h run_post_hooks_append[of ps1 cfg a rc out err w "post # ps2" 0 st] by simp
    also have "\<dots> = (Some exc, emit (PostHookCalled (length ps1) (command cfg) a rc out err)
            (st\<lparr>trace := trace st @ post_hook_events cfg a rc out err ps1 0\<rparr>))"
      using h by (simp add: Let_def)
    finally show ?thesis
      by (simp add: emit_def)
  qed
  have D: ?D if h: ?calm
  proof (intro conjI impI)
    obtain st' where c: "execute_command cfg w ?lg st a = Continue st'"
      using h execute_command_Continue[of cfg w ?lg st a] by blast
    then show "\<exists>st'. execute_command cfg w ?lg st a = Continue st'" by blast
    assume "dispatch_line cfg w ?lg st0 prompt_str raw = Execute a st \<and>
       get_prompt cfg w st0 = Inr prompt_str"
    then have "process_line cfg w ?lg st0 prompt_str raw = Continue st'"
      and "get_prompt cfg w st0 = Inr prompt_str"
      using process_line_Execute[of cfg w ?lg st0 prompt_str raw a st] c by simp_all
    then show "\<exists>st'. run_repl_loop cfg w ?lg st0 (Line raw # rs) = run_repl_loop cfg w ?lg st' rs"
      using run_repl_loop_Continue by blast
  qed
  show ?thesis
    by (intro conjI; rule impI; erule A B C D E)
qed

theorem hook_failures_are_isolated_witness:
  "run_pre_hooks (hooked_config example_world ''echo'') example_world ''hi''
       (pre_command_hooks (hooked_config example_world ''echo'')) 0 initial_session
     = (None, initial_session\<lparr>trace :=
          [PreHookCalled 0 ''echo'' ''hi'', Shown (PreHookError (CustomException ''pre'')),
           PreHookCalled 1 ''echo'' ''hi'']\<rparr>) \<and>
   run_post_hooks (hooked_config example_world ''echo'') example_world ''hi'' 0 ''done'' []
       (post_command_hooks (hooked_config example_world ''echo'')) 0 initial_session
     = (None, initial_session\<lparr>trace :=
          [PostHookCalled 0 ''echo'' ''hi'' 0 ''done'' [],
           Shown (PostHookError (CustomException ''post'')),
           PostHookCalled 1 ''echo'' ''hi'' 0 ''done'' []]\<rparr>) \<and>
   post_hook_calls (trace (outcome_session
       (execute_command (hooked_config example_world ''echo'') example_world False
          initial_session ''hi''))) = [0, 1] \<and>
   (\<exists>st'. execute_command (hooked_config example_world ''echo'') example_world False
            initial_session ''hi'' = Continue st')"
proof -
  let ?cfg = "hooked_config example_world ''echo''"
  have pre: "pre_hooks_fail_softly ?cfg example_world ''hi''"
    by (simp add: pre_hooks_fail_softly_def hooked_config_def printable_def default_config_def)
  have post: "post_hooks_fail_softly ?cfg example_world ''hi''"
    by (simp add: post_hooks_fail_softly_def hooked_config_def printable_def default_config_def)
  note inst = hook_failures_are_isolated [where cfg = ?cfg and w = example_world and a = "''hi''"
      and st = initial_session and rc = 0 and out = "''done''" and err = "[]"
      and log_file_handle = False]
  have only: "raises_only_Exceptions ?cfg example_world \<and>
      callbacks_raise_no_exit_Exception ?cfg \<and> output_succeeds ?cfg example_world False"
    by (simp add: raises_only_Exceptions_def callbacks_raise_no_exit_Exception_def
        output_succeeds_def printable_def loggable_def hooked_config_def default_config_def
        example_world_def example_process_def decode_and_print_def)
  have run: "shlex_split (command ?cfg @ '' '' @ ''hi'') = Inr [''echo'', ''hi''] \<and>
      popen example_world [''echo'', ''hi''] = Inr example_process \<and>
      communicate example_process (timeout ?cfg) = Inr (''done'', []) \<and>
      (''done'' = [] \<or> (stdout_callback ?cfg ''done'' = None \<and>
         (False \<longrightarrow> (\<exists>s. decode example_world ''done'' = Inr s \<and> log_write example_world s = None)))) \<and>
      ([] = [] \<or> (stderr_callback ?cfg [] = None \<and>
         (False \<longrightarrow> (\<exists>s. decode example_world [] = Inr s \<and> log_write example_world s = None)))) \<and>
      (show_return_code ?cfg \<and> exit_status example_process \<noteq> 0 \<longrightarrow>
         printable ?cfg example_world (ReturnCode (exit_status example_process))) \<and>
      post_hooks_fail_softly ?cfg example_world ''hi''"
    using post
    by (simp add: shlex_eval hooked_config_def default_config_def example_world_def
        example_process_def communicate_def decode_and_print_def)
  have a: "run_pre_hooks ?cfg example_world ''hi'' (pre_command_hooks ?cfg) 0 initial_session
     = (None, initial_session\<lparr>trace :=
          [PreHookCalled 0 ''echo'' ''hi'', Shown (PreHookError (CustomException ''pre'')),
           PreHookCalled 1 ''echo'' ''hi'']\<rparr>)"
    using inst [THEN conjunct1, rule_format, OF pre, THEN conjunct1]
    by (simp add: hooked_config_def default_config_def initial_session_def)
  have b: "run_post_hooks ?cfg example_world ''hi'' 0 ''done'' [] (post_command_hooks ?cfg) 0
       initial_session
     = (None, initial_session\<lparr>trace :=
          [PostHookCalled 0 ''echo'' ''hi'' 0 ''done'' [],
           Shown (PostHookError (CustomException ''post'')),
           PostHookCalled 1 ''echo'' ''hi'' 0 ''done'' []]\<rparr>)"
    using inst [THEN conjunct2, THEN conjunct1, rule_format, OF post]
    by (simp add: hooked_config_def default_config_def initial_session_def)
  have "post_hook_calls (trace (outcome_session
       (execute_command ?cfg example_world False initial_session ''hi'')))
      = post_hook_calls (trace initial_session) @ [0..<length (post_command_hooks ?cfg)]"
    using inst [THEN conjunct1, rule_format, OF pre, THEN conjunct2, THEN conjunct2,
        THEN conjunct2] run
    by blast
  then have c: "post_hook_calls (trace (outcome_session
       (execute_command ?cfg example_world False initial_session ''hi''))) = [0, 1]"
    by (simp add: hooked_config_def initial_session_def upt_rec)
  have d: "\<exists>st'. execute_command ?cfg example_world False initial_session ''hi'' = Continue st'"
    using inst [THEN conjunct2, THEN conjunct2, THEN conjunct2, THEN conjunct2, rule_format,
        OF only, THEN conjunct1] .
  show ?thesis using a b c d by blast
qed

subsection \<open>What ends the session\<close>

text \<open>
  C3, as stated, fails: the handler \<^verbatim>\<open>except config.exit_exceptions\<close> is around the
  whole body of the loop, and the handlers inside catch \<^verbatim>\<open>Exception\<close> only, and only
  around the execution of the command. Here the wait for the child of the first line is
  interrupted from the keyboard: the line does not begin with an exit word and the line reader
  has raised nothing, yet the loop ends and the second line is never read. And where every
  write to the log fails, the write of the first input line raises \<^verbatim>\<open>OSError\<close> outside
  the inner \<^verbatim>\<open>try\<close>, and the exception propagates to the caller.
\<close>

theorem interrupt_during_wait_counterexample:
  "run_repl_loop (default_config interrupted_world ''sleep'') interrupted_world False
       initial_session [Line ''100'', Line ''1'']
     = Ended \<lparr>command_counter = 0, session_history = [''100''],
         trace = [PopenCalled [''sleep'', ''100'']]\<rparr> \<and>
   first_word (py_strip ''100'') \<notin> set (exit_commands (default_config interrupted_world ''sleep'')) \<and>
   run_repl_loop (default_config full_disk_world ''ls'') full_disk_world True
       initial_session [Line ''-l'', Line ''exit'']
     = Propagated OSError initial_session"
proof -
  let ?cfg = "default_config interrupted_world ''sleep''"
  have d: "dispatch_line ?cfg interrupted_world False initial_session ''sleep >>> '' ''100''
      = Execute ''100'' initial_session"
    by (simp add: dispatch_eval string_eval default_config_def)
  have s: "shlex_split ''sleep 100'' = Inr [''sleep'', ''100'']"
    by (simp add: shlex_eval)
  have p: "process_line ?cfg interrupted_world False initial_session ''sleep >>> '' ''100''
     = Raise KeyboardInterrupt \<lparr>command_counter = 0, session_history = [''100''],
         trace = [PopenCalled [''sleep'', ''100'']]\<rparr>"
    using d s by (simp add: run_eval world_eval)
  have g: "get_prompt ?cfg interrupted_world initial_session = Inr ''sleep >>> ''"
    by (simp add: world_eval)
  have a: "run_repl_loop ?cfg interrupted_world False initial_session [Line ''100'', Line ''1'']
     = Ended \<lparr>command_counter = 0, session_history = [''100''],
         trace = [PopenCalled [''sleep'', ''100'']]\<rparr>"
    using run_repl_loop_Raise[OF g p] by (simp add: world_eval)
  have b: "first_word (py_strip ''100'') \<notin> set (exit_commands ?cfg)"
    by (simp add: first_word_def py_split_def string_eval default_config_def)
  let ?disk = "default_config full_disk_world ''ls''"
  have g2: "get_prompt ?disk full_disk_world initial_session = Inr ''ls >>> ''"
    by (simp add: world_eval)
  have p2: "process_line ?disk full_disk_world True initial_session ''ls >>> '' ''-l''
     = Raise OSError initial_session"
    by (simp add: process_line_def dispatch_eval string_eval world_eval)
  have c: "run_repl_loop ?disk full_disk_world True initial_session [Line ''-l'', Line ''exit'']
     = Propagated OSError initial_session"
    using run_repl_loop_Raise[OF g2 p2] by (simp add: world_eval)
  show ?thesis using a b c by blast
qed

text \<open>
  C3, amended. A line ends the loop with \<^verbatim>\<open>break\<close> only when its first word is an exit
  word, and a line that is not blank and whose first word is an exit word does end it, when
  the input can be written to the log. Besides that, the loop ends only through an exception
  that reaches its outer handler \<^verbatim>\<open>except config.exit_exceptions\<close>: the exception ends
  the loop when it matches \<^verbatim>\<open>exit_exceptions\<close> and propagates to the caller otherwise,
  whether it comes from the rendering of the prompt, from the line reader (the end of the
  input included) or from the handling of a line. An exception leaves the handling of a line
  only when it is not an instance of \<^verbatim>\<open>Exception\<close>, or the write of the input line to
  the log has raised it, or the console has raised it while a message was printed. So every
  error that is an \<^verbatim>\<open>Exception\<close> and can be reported (a tokenization error, an invalid
  history reference, command not found, a timeout, any other execution error, a hook error)
  is local: when nothing raises an exception outside \<^verbatim>\<open>Exception\<close>, every message and
  log line can be written and the prompt renders, the loop runs through any lines without an
  exit word and goes on with the rest of the reader's script. A failure to open the log file
  propagates from \<^verbatim>\<open>replize\<close> before the loop starts. What an output callback does to
  the loop when it raises an \<^verbatim>\<open>Exception\<close> that is a member of
  \<^verbatim>\<open>exit_exceptions\<close> is left open here: the statements about exceptions are made for
  configurations without such a callback (\<open>callbacks_raise_no_exit_Exception\<close>).
\<close>

theorem session_ends_by_exit_word_or_escaping_exception:
  "(\<forall>st'. process_line cfg w log_file_handle st prompt_str raw = Break st' \<longrightarrow>
      first_word (py_strip raw) \<in> set (exit_commands cfg)) \<and>
   (py_strip raw \<noteq> [] \<and> first_word (py_strip raw) \<in> set (exit_commands cfg) \<and>
    loggable w log_file_handle (prompt_str @ py_strip raw @ [CHR 0x0A]) \<longrightarrow>
      (\<exists>st'. process_line cfg w log_file_handle st prompt_str raw = Break st')) \<and>
   (callbacks_raise_no_exit_Exception cfg \<longrightarrow>
      (\<forall>e st'. process_line cfg w log_file_handle st prompt_str raw = Raise e st' \<longrightarrow>
         \<not> is_Exception e \<or>
         (log_file_handle \<and> log_write w (prompt_str @ py_strip raw @ [CHR 0x0A]) = Some e) \<or>
         console_raises cfg w e)) \<and>
   (get_prompt cfg w st = Inr prompt_str \<longrightarrow>
      run_repl_loop cfg w log_file_handle st (Line raw # rs) =
        (case process_line cfg w log_file_handle st prompt_str raw of
           Continue st1 \<Rightarrow> run_repl_loop cfg w log_file_handle st1 rs
         | Break st1 \<Rightarrow> Ended st1
         | Raise e st1 \<Rightarrow> exit_or_propagate cfg st1 e) \<and>
      run_repl_loop cfg w log_file_handle st (Signal sig # rs) = exit_or_propagate cfg st sig \<and>
      run_repl_loop cfg w log_file_handle st [] = exit_or_propagate cfg st EOFError) \<and>
   (get_prompt cfg w st = Inl failure \<longrightarrow>
      run_repl_loop cfg w log_file_handle st rs = exit_or_propagate cfg st failure) \<and>
   (raises_only_Exceptions cfg w \<and> callbacks_raise_no_exit_Exception cfg \<and>
    output_succeeds cfg w log_file_handle \<and> prompt_renders cfg w \<and>
    (\<forall>l\<in>set lines. first_word (py_strip l) \<notin> set (exit_commands cfg)) \<longrightarrow>
      (\<exists>st'. run_repl_loop cfg w log_file_handle st (map Line lines @ rs)
             = run_repl_loop cfg w log_file_handle st' rs)) \<and>
   ((if validate_command cfg then validate_base_command w (command cfg) else Inr True) = Inr True \<and>
    log_file cfg = Some path \<and> path \<noteq> [] \<and> open_log w path = Some err \<longrightarrow>
      replize cfg w script = Propagated err initial_session)"
  (is "?A \<and> ?B \<and> ?C \<and> ?D \<and> ?E \<and> ?F \<and> ?G")
proof -
  have A: ?A using process_line_Break by blast
  have B: ?B
  proof
    assume h: "py_strip raw \<noteq> [] \<and> first_word (py_strip raw) \<in> set (exit_commands cfg) \<and>
      loggable w log_file_handle (prompt_str @ py_strip raw @ [CHR 0x0A])"
    then have "dispatch_line cfg w log_file_handle st prompt_str raw
       = Exit (if log_file_handle
               then emit (LogWritten (prompt_str @ py_strip raw @ [CHR 0x0A])) st else st)"
      by (intro dispatch_line_exit_word_Break) simp_all
    then show "\<exists>st'. process_line cfg w log_file_handle st prompt_str raw = Break st'"
      by (simp add: process_line_def)
  qed
  have C: ?C using process_line_Raise by blast
  have D: ?D by simp
  have E: ?E using run_repl_loop_prompt_fails by blast
  have F: ?F using run_repl_loop_survives by blast
  have G: ?G by (simp add: replize_def)
  show ?thesis using A B C D E F G by blast
qed

theorem session_ends_by_exit_word_or_escaping_exception_witness:
  "(\<exists>st'. run_repl_loop (default_config missing_world ''nosuch'') missing_world False
            initial_session
            [Line ''-v'', Line ''!9'', Line (CHR 0x22 # ''abc''), Line ''exit'']
          = run_repl_loop (default_config missing_world ''nosuch'') missing_world False st'
              [Line ''exit'']) \<and>
   replize ((default_config unwritable_world ''ls'')\<lparr>log_file := Some ''session.log''\<rparr>)
       unwritable_world [Line ''exit'']
     = Propagated PermissionError initial_session \<and>
   run_repl_loop (default_config missing_world ''nosuch'') missing_world False initial_session
       [Signal KeyboardInterrupt, Line ''-v'']
     = Ended initial_session \<and>
   (\<exists>st'. process_line (default_config missing_world ''nosuch'') missing_world False
            initial_session ''nosuch >>> '' ''exit'' = Break st')"
proof -
  let ?cfg = "default_config missing_world ''nosuch''"
  let ?cfg2 = "(default_config unwritable_world ''ls'')\<lparr>log_file := Some ''session.log''\<rparr>"
  have renders: "prompt_renders ?cfg missing_world"
    by (simp add: prompt_renders_def world_eval)
  have words: "\<forall>l\<in>set [''-v'', ''!9'', CHR 0x22 # ''abc''].
      first_word (py_strip l) \<notin> set (exit_commands ?cfg)"
    by (simp add: first_word_def py_split_def string_eval default_config_def)
  have cb: "callbacks_raise_no_exit_Exception ?cfg"
    by (intro callbacks_default) (simp add: missing_world_def example_world_def)
  have a: "\<exists>st'. run_repl_loop ?cfg missing_world False initial_session
            (map Line [''-v'', ''!9'', CHR 0x22 # ''abc''] @ [Line ''exit''])
          = run_repl_loop ?cfg missing_world False st' [Line ''exit'']"
    using session_ends_by_exit_word_or_escaping_exception
      [where cfg = ?cfg and w = missing_world and log_file_handle = False
         and st = initial_session and lines = "[''-v'', ''!9'', CHR 0x22 # ''abc'']"
         and rs = "[Line ''exit'']", THEN conjunct2, THEN conjunct2, THEN conjunct2,
         THEN conjunct2, THEN conjunct2, THEN conjunct1]
      raises_only_Exceptions_missing cb output_succeeds_missing renders words
    by blast
  have valid: "(if validate_command ?cfg2 then validate_base_command unwritable_world (command ?cfg2)
       else Inr True) = Inr True \<and>
      log_file ?cfg2 = Some ''session.log'' \<and> ''session.log'' \<noteq> [] \<and>
      open_log unwritable_world ''session.log'' = Some PermissionError"
    by (simp add: validate_base_command_def world_eval)
  have b: "replize ?cfg2 unwritable_world [Line ''exit''] = Propagated PermissionError initial_session"
    using session_ends_by_exit_word_or_escaping_exception
      [where cfg = ?cfg2 and w = unwritable_world and path = "''session.log''"
         and err = PermissionError and script = "[Line ''exit'']",
         THEN conjunct2, THEN conjunct2, THEN conjunct2, THEN conjunct2, THEN conjunct2,
         THEN conjunct2]
      valid
    by blast
  have prompt: "get_prompt ?cfg missing_world initial_session = Inr ''nosuch >>> ''"
    by (simp add: world_eval)
  have "run_repl_loop ?cfg missing_world False initial_session [Signal KeyboardInterrupt, Line ''-v'']
      = exit_or_propagate ?cfg initial_session KeyboardInterrupt"
    using session_ends_by_exit_word_or_escaping_exception
      [where cfg = ?cfg and w = missing_world and log_file_handle = False
         and st = initial_session and prompt_str = "''nosuch >>> ''"
         and sig = KeyboardInterrupt and rs = "[Line ''-v'']",
         THEN conjunct2, THEN conjunct2, THEN conjunct2, THEN conjunct1]
      prompt
    by blast
  then have c: "run_repl_loop ?cfg missing_world False initial_session
      [Signal KeyboardInterrupt, Line ''-v''] = Ended initial_session"
    by (simp add: exit_or_propagate_def default_config_def)
  have exit: "py_strip ''exit'' \<noteq> [] \<and> first_word (py_strip ''exit'') \<in> set (exit_commands ?cfg) \<and>
      loggable missing_world False (''nosuch >>> '' @ py_strip ''exit'' @ [CHR 0x0A])"
    by (simp add: first_word_def py_split_def string_eval default_config_def loggable_def)
  have d: "\<exists>st'. process_line ?cfg missing_world False initial_session ''nosuch >>> '' ''exit''
      = Break st'"
    using session_ends_by_exit_word_or_escaping_exception
      [where cfg = ?cfg and w = missing_world and log_file_handle = False
         and st = initial_session and prompt_str = "''nosuch >>> ''" and raw = "''exit''",
         THEN conjunct2, THEN conjunct1]
      exit
    by blast
  show ?thesis using a b c d by simp
qed

subsection \<open>Replaying a line from the history\<close>

lemma raises_only_Exceptions_example:
  "raises_only_Exceptions (default_config example_world c) example_world"
  by (simp add: raises_only_Exceptions_def default_config_def example_world_def
      example_process_def decode_and_print_def)

text \<open>
  C2, as stated, fails in its last part: the line that replaces \<^verbatim>\<open>!0\<close> is appended to
  the session history like any executed line, so the history ends with two entries.
\<close>

theorem replay_history_counterexample:
  "run_repl_loop (default_config example_world ''ls'') example_world False initial_session
       [Line ''-l'', Line ''!0'', Line ''exit'']
     = Ended \<lparr>command_counter = 2, session_history = [''-l'', ''-l''],
         trace = [PopenCalled [''ls'', ''-l''], StdoutCallback ''done'', Shown (ReRunning ''-l''),
                  PopenCalled [''ls'', ''-l''], StdoutCallback ''done'']\<rparr> \<and>
   session_history (result_session
       (run_repl_loop (default_config example_world ''ls'') example_world False initial_session
          [Line ''-l'', Line ''!0'', Line ''exit''])) \<noteq> [''-l'']"
proof -
  let ?cfg = "default_config example_world ''ls''"
  let ?st1 = "\<lparr>command_counter = 1, session_history = [''-l''],
      trace = [PopenCalled [''ls'', ''-l''], StdoutCallback ''done'']\<rparr>"
  let ?st2 = "\<lparr>command_counter = 2, session_history = [''-l'', ''-l''],
      trace = [PopenCalled [''ls'', ''-l''], StdoutCallback ''done'', Shown (ReRunning ''-l''),
               PopenCalled [''ls'', ''-l''], StdoutCallback ''done'']\<rparr>"
  have s: "shlex_split ''ls -l'' = Inr [''ls'', ''-l'']"
    by (simp add: shlex_eval)
  have g: "\<And>st. get_prompt ?cfg example_world st = Inr ''ls >>> ''"
    by (simp add: world_eval)
  have d1: "dispatch_line ?cfg example_world False initial_session ''ls >>> '' ''-l''
      = Execute ''-l'' initial_session"
    by (simp add: dispatch_eval string_eval default_config_def)
  have l1: "process_line ?cfg example_world False initial_session ''ls >>> '' ''-l'' = Continue ?st1"
    using d1 s by (simp add: run_eval world_eval)
  have d2: "dispatch_line ?cfg example_world False ?st1 ''ls >>> '' ''!0''
      = Execute ''-l'' (emit (Shown (ReRunning ''-l'')) ?st1)"
    by (simp add: dispatch_eval string_eval world_eval)
  have l2: "process_line ?cfg example_world False ?st1 ''ls >>> '' ''!0'' = Continue ?st2"
    using d2 s by (simp add: run_eval world_eval)
  have d3: "dispatch_line ?cfg example_world False ?st2 ''ls >>> '' ''exit'' = Exit ?st2"
    by (simp add: dispatch_eval string_eval default_config_def)
  have l3: "process_line ?cfg example_world False ?st2 ''ls >>> '' ''exit'' = Break ?st2"
    using d3 by (simp add: process_line_def)
  have "run_repl_loop ?cfg example_world False initial_session
       [Line ''-l'', Line ''!0'', Line ''exit''] = Ended ?st2"
    using run_repl_loop_Continue[OF g l1] run_repl_loop_Continue[OF g l2]
      run_repl_loop_Break[OF g l3]
    by simp
  then show ?thesis by simp
qed

text \<open>
  C2, amended. With the base command \<^verbatim>\<open>ls\<close>, the exit words \<^verbatim>\<open>exit\<close> and
  \<^verbatim>\<open>quit\<close>, a prompt that renders, messages and log lines that can be written and
  nothing that raises an exception outside \<^verbatim>\<open>Exception\<close>, the inputs \<^verbatim>\<open>-l\<close>,
  \<^verbatim>\<open>!0\<close>, \<^verbatim>\<open>exit\<close> end the session with \<^verbatim>\<open>Popen\<close> called exactly twice, both
  times with \<^verbatim>\<open>['ls', '-l']\<close>, the counter at 2, and the session history
  \<^verbatim>\<open>['-l', '-l']\<close>: the entry at index 0 and the replayed line at index 1.
\<close>

theorem replay_appends_to_history:
  assumes "command cfg = ''ls''" and "exit_commands cfg = [''exit'', ''quit'']"
    and "raises_only_Exceptions cfg w" and "prompt_renders cfg w"
    and "output_succeeds cfg w log_file_handle"
  shows "\<exists>st. run_repl_loop cfg w log_file_handle initial_session
                [Line ''-l'', Line ''!0'', Line ''exit''] = Ended st \<and>
              popen_calls (trace st) = [[''ls'', ''-l''], [''ls'', ''-l'']] \<and>
              command_counter st = 2 \<and>
              session_history st = [''-l'', ''-l'']"
proof -
  let ?lg = log_file_handle
  note logs = output_succeeds_log[OF assms(5)]
  note prints = output_succeeds_print[OF assms(5)]
  have tokens: "shlex_split (command cfg @ '' '' @ ''-l'') = Inr [''ls'', ''-l'']"
    by (simp add: assms(1) shlex_eval)
  \<comment> \<open>the first line\<close>
  obtain p1 where p1: "get_prompt cfg w initial_session = Inr p1"
    using prompt_renders_get_prompt[OF assms(4)] by blast
  have d1: "dispatch_line cfg w ?lg initial_session p1 ''-l'' = Execute ''-l''
      (if ?lg then emit (LogWritten (p1 @ ''-l'' @ [CHR 0x0A])) initial_session else initial_session)"
    by (simp add: dispatch_line_def history_reference_def handle_builtin_command_def
        first_word_def py_split_def startswith_bang_def Let_def string_eval assms(2) logs)
  obtain st1 where st1: "process_line cfg w ?lg initial_session p1 ''-l'' = Continue st1"
    "command_counter st1 = 1" "session_history st1 = [''-l'']"
    "popen_calls (trace st1) = [[''ls'', ''-l'']]"
    using process_line_executed[OF d1 assms(3,5)] tokens by (auto simp: initial_session_def)
  \<comment> \<open>the second line\<close>
  obtain p2 where p2: "get_prompt cfg w st1 = Inr p2"
    using prompt_renders_get_prompt[OF assms(4)] by blast
  have bang: "py_strip ''!0'' = CHR ''!'' # ''0''" "''0'' \<noteq> []" "\<forall>c\<in>set ''0''. \<not> py_isspace c"
    "CHR ''!'' # ''0'' \<notin> set (exit_commands cfg)" "py_int (int_max_str_digits w) ''0'' = Some 0"
    by (simp_all add: string_eval assms(2))
  let ?st1' = "if ?lg then emit (LogWritten (p2 @ (CHR ''!'' # ''0'') @ [CHR 0x0A])) st1 else st1"
  have lg2: "write_log w ?lg (p2 @ (CHR ''!'' # ''0'') @ [CHR 0x0A]) st1 = (None, ?st1')"
    by (rule logs)
  have d2: "dispatch_line cfg w ?lg st1 p2 ''!0'' = Execute ''-l''
      (emit (Shown (ReRunning ''-l'')) ?st1')"
    unfolding dispatch_line_bang[OF bang(1,2,3,4) lg2]
    using bang(5) st1(3) by (simp add: prints)
  obtain st2 where st2: "process_line cfg w ?lg st1 p2 ''!0'' = Continue st2"
    "command_counter st2 = 2" "session_history st2 = [''-l'', ''-l'']"
    "popen_calls (trace st2) = [[''ls'', ''-l''], [''ls'', ''-l'']]"
    using process_line_executed[OF d2 assms(3,5)] tokens st1(2,3,4) by auto
  \<comment> \<open>the exit word\<close>
  obtain p3 where p3: "get_prompt cfg w st2 = Inr p3"
    using prompt_renders_get_prompt[OF assms(4)] by blast
  let ?st3 = "if ?lg then emit (LogWritten (p3 @ ''exit'' @ [CHR 0x0A])) st2 else st2"
  have d3: "dispatch_line cfg w ?lg st2 p3 ''exit'' = Exit ?st3"
    by (simp add: dispatch_line_def first_word_def py_split_def Let_def string_eval assms(2) logs)
  have b3: "process_line cfg w ?lg st2 p3 ''exit'' = Break ?st3"
    using d3 by (simp add: process_line_def)
  have "run_repl_loop cfg w ?lg initial_session [Line ''-l'', Line ''!0'', Line ''exit'']
      = Ended ?st3"
    using run_repl_loop_Continue[OF p1 st1(1)] run_repl_loop_Continue[OF p2 st2(1)]
      run_repl_loop_Break[OF p3 b3]
    by simp
  moreover have "popen_calls (trace ?st3) = [[''ls'', ''-l''], [''ls'', ''-l'']]"
    "command_counter ?st3 = 2" "session_history ?st3 = [''-l'', ''-l'']"
    using st2(2,3,4) by simp_all
  ultimately show ?thesis by blast
qed

theorem replay_appends_to_history_witness:
  "\<exists>st. run_repl_loop (default_config example_world ''ls'') example_world False initial_session
          [Line ''-l'', Line ''!0'', Line ''exit''] = Ended st \<and>
        popen_calls (trace st) = [[''ls'', ''-l''], [''ls'', ''-l'']] \<and>
        command_counter st = 2 \<and>
        session_history st = [''-l'', ''-l'']"
proof -
  have "prompt_renders (default_config example_world ''ls'') example_world"
    by (simp add: prompt_renders_def world_eval)
  then show ?thesis
    using replay_appends_to_history [of "default_config example_world ''ls''" example_world False]
      raises_only_Exceptions_example output_succeeds_plain
    by (simp add: default_config_def)
qed

subsection \<open>Timeouts\<close>

lemma timeout_never_kills:
  assumes "wait_raises p = None" and "timeout cfg = Some d" and "d < runtime p"
  shows "wait_for_command cfg w p st = (Inl TimeoutExpired, st)"
  using assms by (simp add: wait_for_command_def communicate_def is_TimeoutError_def)

lemma timeout_leaves_child_running:
  assumes "pre_hooks_fail_softly cfg w a"
    and "shlex_split (command cfg @ '' '' @ a) = Inr argv" and "popen w argv = Inr p"
    and "wait_raises p = None" and "timeout cfg = Some d" and "d < runtime p"
    and "printable cfg w (ErrorExecuting TimeoutExpired)"
  shows "execute_command cfg w lg st a =
     Continue (increment_counter
       (emit (Shown (ErrorExecuting TimeoutExpired))
          (emit (PopenCalled argv)
             (st\<lparr>session_history := session_history st @ [a],
                  trace := trace st @ pre_hook_events cfg a (pre_command_hooks cfg) 0\<rparr>))))"
proof -
  let ?st0 = "st\<lparr>session_history := session_history st @ [a]\<rparr>"
  let ?st1 = "?st0\<lparr>trace := trace ?st0 @ pre_hook_events cfg a (pre_command_hooks cfg) 0\<rparr>"
  have pre: "run_pre_hooks cfg w a (pre_command_hooks cfg) 0 ?st0 = (None, ?st1)"
    by (rule run_pre_hooks_softly[OF assms(1)])
  have "run_command cfg w lg (command cfg @ '' '' @ a) a ?st1
      = (Some TimeoutExpired, emit (PopenCalled argv) ?st1)"
    using assms(2,3) timeout_never_kills[OF assms(4,5,6)]
    by (simp add: run_command_def run_child_def)
  then show ?thesis
    using pre assms(7)
    by (simp add: execute_command_def Let_def is_FileNotFoundError_def report_and_count_printable)
qed

lemma builtin_TimeoutError_is_handled:
  assumes "wait_raises p = Some TimeoutError" and "printable cfg w (CommandTimedOut (timeout cfg))"
  shows "wait_for_command cfg w p st =
     (Inr (stdout_if_killed p, stderr_if_killed p, - 9),
      emit (Shown (CommandTimedOut (timeout cfg))) (emit Killed st))"
  using assms
  by (simp add: wait_for_command_def communicate_def is_TimeoutError_def print_message_printable)

text \<open>
  C1 does not hold of the code. \<^verbatim>\<open>process.communicate(timeout=...)\<close> signals an expired
  timeout with \<^verbatim>\<open>subprocess.TimeoutExpired\<close>, which the handler
  \<^verbatim>\<open>except TimeoutError\<close> around the wait does not catch; the exception reaches
  \<^verbatim>\<open>except Exception\<close>. With a timeout of 1 and a child that needs 5 time units, the
  trace of the line has the call of \<^verbatim>\<open>Popen\<close> and the message "Error executing command"
  only: the child is not killed, no output is delivered to a callback, and the message
  "Command timed out" is not shown. \<open>timeout_leaves_child_running\<close> is the same for every
  timeout shorter than the child's runtime; \<open>builtin_TimeoutError_is_handled\<close> shows what
  the handler does for the exception it is written for.
\<close>

theorem timeout_is_not_handled:
  "process_line ((default_config example_world ''sleep'')\<lparr>timeout := Some 1\<rparr>) example_world
       False initial_session ''sleep >>> '' ''5''
     = Continue \<lparr>command_counter = 1, session_history = [''5''],
         trace = [PopenCalled [''sleep'', ''5''], Shown (ErrorExecuting TimeoutExpired)]\<rparr> \<and>
   runtime example_process = 5"
proof -
  let ?cfg = "(default_config example_world ''sleep'')\<lparr>timeout := Some 1\<rparr>"
  have d: "dispatch_line ?cfg example_world False initial_session ''sleep >>> '' ''5''
      = Execute ''5'' initial_session"
    by (simp add: dispatch_eval string_eval default_config_def)
  have s: "shlex_split ''sleep 5'' = Inr [''sleep'', ''5'']"
    by (simp add: shlex_eval)
  show ?thesis
    using d s by (simp add: run_eval world_eval)
qed

end
